(* ===== verification/Prelude.thy ===== *)
theory Prelude
  imports Complex_Main "HOL-Library.Word" "HOL-Library.AList"
begin

text \<open>
  Shared vocabulary of the development: the machine types the simulator modules use, the two
  container models (\<^verbatim>\<open>std::map\<close> as a key-sorted association list, \<^verbatim>\<open>unordered_map\<close> as an
  association list whose order stands for the unspecified iteration order), the interface both
  promise (locale \<open>key_map\<close>, interpreted on both models), the generic invariant argument for
  step relations (locale \<open>transition_system\<close>), and the bit-counting lemmas.
\<close>

unbundle bit_operations_syntax

named_theorems const_defs \<open>numeric constants of the sources\<close>
named_theorems map_simps \<open>lookup after update or erase, for both container models\<close>

type_synonym u8 = "8 word"
type_synonym u32 = "32 word"
type_synonym u64 = "64 word"
type_synonym spid_t = u32
type_synonym logical_address = u64
type_synonym cycles = u64
type_synonym ldouble = real

section \<open>Containers\<close>

text \<open>\<open>omap_update\<close> is insertion into, or assignment through an iterator of, a \<^verbatim>\<open>std::map\<close>.\<close>

fun omap_update :: "'k::linorder \<Rightarrow> 'v \<Rightarrow> ('k \<times> 'v) list \<Rightarrow> ('k \<times> 'v) list" where
  "omap_update k v [] = [(k, v)]"
| "omap_update k v (e # es) =
     (if fst e < k then e # omap_update k v es
      else if fst e = k then (k, v) # es
      else (k, v) # e # es)"

definition omap_erase :: "'k::linorder \<Rightarrow> ('k \<times> 'v) list \<Rightarrow> ('k \<times> 'v) list" where
  "omap_erase k m = filter (\<lambda>e. fst e \<noteq> k) m"

definition omap_inv :: "('k::linorder \<times> 'v) list \<Rightarrow> bool" where
  "omap_inv m \<longleftrightarrow> sorted_wrt (<) (map fst m)"

lemma map_of_omap_update [simp, map_simps]:
  "map_of (omap_update k v m) = (map_of m)(k \<mapsto> v)" if "omap_inv m"
  using that
proof (induction m)
  case (Cons e es)
  obtain k' v' where e: "e = (k', v')" by fastforce
  have "omap_inv es" using Cons.prems by (simp add: omap_inv_def)
  moreover have "map_of es k = None" if "k < k'"
    using Cons.prems that e by (auto simp: omap_inv_def map_of_eq_None_iff)
  ultimately show ?case
    using Cons.IH e by (auto simp: fun_eq_iff)
qed simp

lemma keys_omap_update [simp]: "fst ` set (omap_update k v m) = insert k (fst ` set m)"
  by (induction m) auto

lemma omap_inv_update [simp, intro]: "omap_inv m \<Longrightarrow> omap_inv (omap_update k v m)"
proof (induction m)
  case (Cons e es)
  then show ?case
    by (auto simp: omap_inv_def)
qed (simp add: omap_inv_def)

lemma omap_inv_erase [simp, intro]: "omap_inv m \<Longrightarrow> omap_inv (omap_erase k m)"
  by (induction m) (auto simp: omap_inv_def omap_erase_def)

lemma map_of_filter_key: "map_of (filter (\<lambda>e. fst e \<noteq> k) m) = (map_of m)(k := None)"
  by (induction m) (auto simp: fun_eq_iff)

lemma map_of_omap_erase [simp, map_simps]: "map_of (omap_erase k m) = (map_of m)(k := None)"
  by (simp add: omap_erase_def map_of_filter_key)

lemma omap_inv_Nil [simp]: "omap_inv []"
  by (simp add: omap_inv_def)

lemma omap_inv_Cons: "omap_inv (e # es) \<longleftrightarrow> (\<forall>x \<in> set es. fst e < fst x) \<and> omap_inv es"
  by (auto simp: omap_inv_def)

lemma omap_inv_distinct: "omap_inv m \<Longrightarrow> distinct (map fst m)"
  by (simp add: omap_inv_def strict_sorted_iff)

definition umap_inv :: "('k \<times> 'v) list \<Rightarrow> bool" where
  "umap_inv m \<longleftrightarrow> distinct (map fst m)"

lemma map_of_alist_update [simp, map_simps]: "map_of (AList.update k v m) = (map_of m)(k \<mapsto> v)"
  by (simp add: fun_eq_iff update_conv)

lemma map_of_alist_delete [simp, map_simps]: "map_of (AList.delete k m) = (map_of m)(k := None)"
  by (simp add: fun_eq_iff delete_conv')

text \<open>
  What every client of a container relies on: lookup after update and erase, and that both keep
  the representation invariant.
\<close>

locale key_map =
  fixes upd :: "'k \<Rightarrow> 'v \<Rightarrow> 'm \<Rightarrow> 'm"
    and del :: "'k \<Rightarrow> 'm \<Rightarrow> 'm"
    and look :: "'m \<Rightarrow> 'k \<Rightarrow> 'v option"
    and ok :: "'m \<Rightarrow> bool"
  assumes look_upd: "ok m \<Longrightarrow> look (upd k v m) = (look m)(k \<mapsto> v)"
    and look_del: "ok m \<Longrightarrow> look (del k m) = (look m)(k := None)"
    and ok_upd: "ok m \<Longrightarrow> ok (upd k v m)"
    and ok_del: "ok m \<Longrightarrow> ok (del k m)"
begin

lemma upd_twice: "ok m \<Longrightarrow> look (upd k v (upd k w m)) = look (upd k v m)"
  by (simp add: look_upd ok_upd)

lemma del_upd_fresh: "ok m \<Longrightarrow> look m k = None \<Longrightarrow> look (del k (upd k v m)) = look m"
  by (auto simp: look_upd look_del ok_upd)

lemma upd_commute:
  "ok m \<Longrightarrow> j \<noteq> k \<Longrightarrow> look (upd j v (upd k w m)) = look (upd k w (upd j v m))"
  by (auto simp: look_upd ok_upd fun_eq_iff)

lemma dom_fold_upd:
  "ok m \<Longrightarrow> dom (look (fold (\<lambda>(k, v). upd k v) kvs m)) = dom (look m) \<union> fst ` set kvs"
proof (induction kvs arbitrary: m)
  case (Cons kv kvs)
  obtain k v where kv: "kv = (k, v)" by fastforce
  have "dom (look (fold (\<lambda>(k, v). upd k v) kvs (upd k v m))) = dom (look (upd k v m)) \<union> fst ` set kvs"
    using Cons by (simp add: ok_upd)
  then show ?case using Cons.prems kv by (simp add: look_upd)
qed simp

lemma ok_fold_upd: "ok m \<Longrightarrow> ok (fold (\<lambda>(k, v). upd k v) kvs m)"
  by (induction kvs arbitrary: m) (auto simp: ok_upd)

end

interpretation omap: key_map omap_update omap_erase map_of omap_inv
  by unfold_locales auto

interpretation umap: key_map AList.update AList.delete map_of umap_inv
  by unfold_locales (auto simp: umap_inv_def distinct_update distinct_delete)

lemma ran_alist_update_subset: "set (map snd (AList.update k v m)) \<subseteq> insert v (set (map snd m))"
  by (induction m) auto

lemma alist_update_set: "e \<in> set (AList.update k v m) \<Longrightarrow> e = (k, v) \<or> e \<in> set m"
  by (induction m) (auto split: if_splits)

section \<open>Step relations and invariants\<close>

text \<open>
  Components with state are step relations; a safety property is shown once for one step and
  holds in every reachable state.
\<close>

locale transition_system =
  fixes initial :: "'s \<Rightarrow> bool"
    and step :: "'s \<Rightarrow> 's \<Rightarrow> bool"
    and good :: "'s \<Rightarrow> bool"
  assumes initial_good: "initial s \<Longrightarrow> good s"
    and step_good: "good s \<Longrightarrow> step s t \<Longrightarrow> good t"
begin

lemma steps_good: "step\<^sup>*\<^sup>* s t \<Longrightarrow> good s \<Longrightarrow> good t"
  by (induction rule: rtranclp_induct) (auto intro: step_good)

lemma reachable_good: "initial s \<Longrightarrow> step\<^sup>*\<^sup>* s t \<Longrightarrow> good t"
  using initial_good steps_good by blast

end

section \<open>Words\<close>

text \<open>Little-endian bytes of an \<^verbatim>\<open>unsigned int\<close>, as the i386 host stores it.\<close>

definition le_bytes32 :: "u32 \<Rightarrow> u8 list" where
  "le_bytes32 w = map (\<lambda>i. ucast (drop_bit (8 * i) w)) [0..<4]"

fun of_le_bytes :: "u8 list \<Rightarrow> nat" where
  "of_le_bytes [] = 0"
| "of_le_bytes (b # bs) = unat b + 256 * of_le_bytes bs"

lemma unat_add_of_nat: "unat (a::u64) + n < 2 ^ 64 \<Longrightarrow> unat (a + of_nat n) = unat a + n"
proof -
  assume h: "unat a + n < 2 ^ 64"
  then have "unat (of_nat n :: u64) = n" by (simp add: unat_of_nat take_bit_eq_mod)
  with h show ?thesis using unat_add_lem[of a "of_nat n"] by simp
qed

lemma length_le_bytes32 [simp]: "length (le_bytes32 w) = 4"
  by (simp add: le_bytes32_def)

lemma of_le_bytes32 [simp]: "of_le_bytes (le_bytes32 w) = unat w"
proof -
  have b: "unat (ucast (drop_bit (8 * i) w) :: u8) = (unat w div 2 ^ (8 * i)) mod 256" for i
    by (simp add: unsigned_ucast_eq take_bit_eq_mod unat_drop_bit_eq) (simp add: drop_bit_eq_div)
  have "unat w < 2 ^ 32" using unsigned_less[of w] by simp
  then have w: "unat w div 16777216 < 256" by (simp add: less_mult_imp_div_less)
  have "[0..<4] = [0, 1, 2, 3::nat]" by code_simp
  then have "of_le_bytes (le_bytes32 w) = unat w mod 256 + 256 * ((unat w div 256) mod 256 +
      256 * ((unat w div 65536) mod 256 + 256 * ((unat w div 16777216) mod 256)))"
    by (simp add: le_bytes32_def b[of 0, simplified] b[of 1, simplified] b[of 2, simplified] b[of 3, simplified]
      del: unsigned_drop_bit_eq)
  also have "\<dots> = unat w mod 256 + 256 * (unat w div 256)"
  proof -
    have "(unat w div 65536) mod 256 + 256 * ((unat w div 16777216) mod 256) = unat w div 65536"
      using w div_mult2_eq[of "unat w" 65536 256] by simp
    moreover have "(unat w div 256) mod 256 + 256 * (unat w div 65536) = unat w div 256"
      using div_mult2_eq[of "unat w" 256 256] by simp
    ultimately show ?thesis by simp
  qed
  finally show ?thesis by simp
qed

section \<open>Counting bits\<close>

lemma bits_double: "{i. bit (2 * k) i} = Suc ` {i. bit (k::nat) i}"
proof (rule set_eqI)
  fix i show "i \<in> {i. bit (2 * k) i} \<longleftrightarrow> i \<in> Suc ` {i. bit k i}"
    by (cases i) (auto simp: bit_Suc bit_0)
qed

lemma bits_double_Suc: "{i. bit (Suc (2 * k)) i} = insert 0 (Suc ` {i. bit (k::nat) i})"
proof (rule set_eqI)
  fix i show "i \<in> {i. bit (Suc (2 * k)) i} \<longleftrightarrow> i \<in> insert 0 (Suc ` {i. bit k i})"
    by (cases i) (auto simp: bit_Suc bit_0)
qed

lemma finite_bits_nat [simp]: "finite {i. bit (n::nat) i}"
proof (induction n rule: less_induct)
  case (less n)
  show ?case
  proof (cases "n = 0")
    case False
    then have "finite {i. bit (n div 2) i}" using less by simp
    moreover have "{i. bit n i} \<subseteq> insert 0 (Suc ` {i. bit (n div 2) i})"
    proof
      fix i assume "i \<in> {i. bit n i}" then show "i \<in> insert 0 (Suc ` {i. bit (n div 2) i})"
        by (cases i) (auto simp: bit_Suc)
    qed
    ultimately show ?thesis by (meson finite.insertI finite_imageI finite_subset)
  qed simp
qed

text \<open>\<open>x AND (x - 1)\<close> clears the least significant set bit.\<close>

lemma clear_lowest_bit_nat:
  "0 < n \<Longrightarrow> card {i. bit n i} = Suc (card {i. bit (n AND (n - 1)) i}) \<and> n AND (n - 1) < (n::nat)"
proof (induction n rule: less_induct)
  case (less n)
  show ?case
  proof (cases "even n")
    case True
    then obtain k where n: "n = 2 * k" by blast
    with less have k: "0 < k" "k < n" by auto
    have "n - 1 = Suc (2 * (k - 1))" using n k by simp
    then have a: "n AND (n - 1) = 2 * (k AND (k - 1))"
      using n by (subst and_nat_rec) (simp)
    have "{i. bit n i} = Suc ` {i. bit k i}" by (simp only: n bits_double)
    moreover have "{i. bit (n AND (n - 1)) i} = Suc ` {i. bit (k AND (k - 1)) i}"
      by (simp only: a bits_double)
    ultimately show ?thesis
      using less.IH[OF k(2) k(1)] a n by (simp add: card_image)
  next
    case False
    then obtain k where n: "n = Suc (2 * k)" by (metis oddE Suc_eq_plus1)
    have "n AND (n - 1) = 2 * k" using n by (subst and_nat_rec) simp
    then show ?thesis unfolding n bits_double_Suc
      by (simp add: bits_double card_image)
  qed
qed

lemma clear_lowest_bit:
  fixes x :: "'a::len word"
  assumes "x \<noteq> 0"
  shows "card {i. bit x i} = Suc (card {i. bit (x AND (x - 1)) i})"
    and "unat (x AND (x - 1)) < unat x"
proof -
  have p: "0 < unat x" using assms by (simp add: unat_gt_0)
  have u: "unat (x AND (x - 1)) = unat x AND (unat x - 1)"
    using assms by (simp add: unsigned_and_eq unat_minus_one)
  have b: "\<And>y::'a word. {i. bit y i} = {i. bit (unat y) i}"
    by (auto simp: bit_unsigned_iff)
  from clear_lowest_bit_nat[OF p] show "card {i. bit x i} = Suc (card {i. bit (x AND (x - 1)) i})"
    unfolding b[of x] b[of "x AND (x - 1)"] u by simp
  from clear_lowest_bit_nat[OF p] show "unat (x AND (x - 1)) < unat x"
    unfolding u by simp
qed

end
