(* ===== verification/Simulator.thy ===== *)
theory Simulator
  imports Prelude
begin

text \<open>
  What the modules use of the simulator interface (\<^verbatim>\<open>common/simulator.h\<close>, \<^verbatim>\<open>common/simics.h\<close>):
  attribute values, memory operation types, and the output stream.  A stream is the list of the
  items inserted into it; \<open>Hex\<close> and \<open>Dec\<close> are integers printed after \<^verbatim>\<open>std::hex\<close> and
  \<^verbatim>\<open>std::dec\<close>, \<open>Bytes\<close> is a \<^verbatim>\<open>write\<close> of raw bytes, \<open>Flt\<close> a \<^verbatim>\<open>long double\<close>.
\<close>

datatype out_item = Str string | Hex u64 | Dec int | Flt ldouble | Bytes "u8 list" | Endl

type_synonym ostream = "out_item list"

abbreviation NUL :: char where "NUL \<equiv> CHR 0x00"
abbreviation NL :: string where "NL \<equiv> [CHR 0x0A]"
abbreviation TAB :: string where "TAB \<equiv> [CHR 0x09]"

datatype reg = EAX | EBX | ECX | EDX | EBP | ESP | ESI | EDI | EIP

datatype segment = DATA_SEGMENT | STACK_SEGMENT

datatype memop_type = Sim_Trans_Load | Sim_Trans_Store | Sim_Trans_Other

datatype attr_value =
    Sim_Val_Invalid
  | Sim_Val_Nil
  | Sim_Val_Integer int
  | Sim_Val_Boolean bool
  | Sim_Val_Floating ldouble
  | Sim_Val_String string
  | Sim_Val_Object string
  | Sim_Val_List "attr_value list"
  | Sim_Val_Dict "(attr_value \<times> attr_value) list"

datatype set_error = Sim_Set_Ok | Sim_Set_Illegal_Value | Sim_Set_Need_Integer | Sim_Set_Not_Writable
  | Sim_Set_Interface_Not_Found | Sim_Set_Need_Floating | Sim_Set_Need_List

fun OSA_attr_equal :: "attr_value \<Rightarrow> attr_value \<Rightarrow> bool"
and OSA_attr_list_equal :: "attr_value list \<Rightarrow> attr_value list \<Rightarrow> bool" where
  "OSA_attr_equal Sim_Val_Invalid Sim_Val_Invalid = True"
| "OSA_attr_equal Sim_Val_Nil Sim_Val_Nil = True"
| "OSA_attr_equal (Sim_Val_Integer i) (Sim_Val_Integer j) = (i = j)"
| "OSA_attr_equal (Sim_Val_Boolean a) (Sim_Val_Boolean b) = (a = b)"
| "OSA_attr_equal (Sim_Val_Floating x) (Sim_Val_Floating y) = (x = y)"
| "OSA_attr_equal (Sim_Val_List xs) (Sim_Val_List ys) =
     (if length xs \<noteq> length ys then False else OSA_attr_list_equal xs ys)"
| "OSA_attr_equal _ _ = False"
| "OSA_attr_list_equal (x # xs) (y # ys) =
     (if \<not> OSA_attr_equal x y then False else OSA_attr_list_equal xs ys)"
| "OSA_attr_list_equal _ _ = True"

text \<open>The kinds of value the comparison implements.\<close>

fun comparable :: "attr_value \<Rightarrow> bool" where
  "comparable (Sim_Val_String _) = False"
| "comparable (Sim_Val_Object _) = False"
| "comparable (Sim_Val_Dict _) = False"
| "comparable (Sim_Val_List xs) = (\<forall>x \<in> set xs. comparable x)"
| "comparable _ = True"

lemma attr_equal_iff:
  "OSA_attr_equal a b \<longleftrightarrow> a = b \<and> comparable a"
  "length xs = length ys \<Longrightarrow> OSA_attr_list_equal xs ys \<longleftrightarrow> xs = ys \<and> (\<forall>x \<in> set xs. comparable x)"
  by (induction a b and xs ys rule: OSA_attr_equal_OSA_attr_list_equal.induct) auto

end
