(* ===== verification/WorkSet.thy ===== *)
theory WorkSet
  imports Simulator
begin

text \<open>
  The working set of a critical section (\<^verbatim>\<open>sync_char/WorkSet.h\<close>, \<^verbatim>\<open>sync_char/WorkSet.cc\<close>): a map
  from 32-byte ranges to bit maps with a read and a write bit per byte.  The data, the constructor,
  \<open>grow\<close>, \<open>compare\<close>, the size queries, the attribute and log output; then that \<open>grow\<close> returns and
  adds exactly the accessed bytes, that the size queries and \<open>compare\<close> count bytes, and that the
  binary log record can be read back.

  A shift count is taken modulo 32 (\<open>int_shl\<close>): \<open>grow\<close> shifts an \<^verbatim>\<open>int\<close> by 34 to 62, which C leaves
  undefined and the i386 host masks.
\<close>

section \<open>Data\<close>

type_synonym set_chunk = u32

definition SET_ORDER :: nat where [const_defs]: "SET_ORDER = 5"
definition SET_GRANULARITY :: nat where [const_defs]: "SET_GRANULARITY = 2 ^ SET_ORDER"
definition SIZEOF_CHUNK :: nat where [const_defs]: "SIZEOF_CHUNK = 4"
definition CHUNK_BYTES :: nat where [const_defs]: "CHUNK_BYTES = SIZEOF_CHUNK * 4"
definition BYTEMAP_BYTES :: nat where [const_defs]: "BYTEMAP_BYTES = SET_GRANULARITY div 4"
definition BYTEMAP_LEN :: nat where [const_defs]: "BYTEMAP_LEN = BYTEMAP_BYTES div SIZEOF_CHUNK"

definition int_shl :: "u32 \<Rightarrow> nat \<Rightarrow> u32" where
  "int_shl a n = push_bit (n mod 32) a"

definition BIT_MASK :: "nat \<Rightarrow> u32" where
  "BIT_MASK x = NOT (int_shl 1 x - 1)"

definition RANGE_MASK :: u32 where
  "RANGE_MASK = BIT_MASK SET_ORDER"

definition READ_MASK :: set_chunk where "READ_MASK = 0x55555555"
definition WRITE_MASK :: set_chunk where "WRITE_MASK = 0xAAAAAAAA"

datatype ByteRange = ByteRange (bmap: "set_chunk list")

type_synonym range_map = "(logical_address \<times> ByteRange) list"

record WorksetID =
  lock_addr :: u32
  lock_generation :: u32
  workset_index :: u32

definition WorksetID_eq :: "WorksetID \<Rightarrow> WorksetID \<Rightarrow> bool" where
  "WorksetID_eq a b \<longleftrightarrow> lock_addr a = lock_addr b \<and> lock_generation a = lock_generation b
     \<and> workset_index a = workset_index b"

record WorkSet =
  ws_cnt :: int
  ws_id :: WorksetID
  ws_cpu :: int
  ws_pid :: spid_t
  ws_twoowners :: bool
  ws_old_pid :: spid_t
  ws_IO :: bool
  ws_contended :: "WorksetID list"
  ws_set :: range_map

section \<open>Operations\<close>

function population :: "set_chunk \<Rightarrow> nat" where
  "population x = (if x \<noteq> 0 then Suc (population (x AND (x - 1))) else 0)"
  by pat_completeness auto
termination
  by (relation "measure unat") (simp_all add: clear_lowest_bit)
declare population.simps [simp del]

definition WorkSet_new :: "u32 \<Rightarrow> spid_t \<Rightarrow> u32 \<Rightarrow> u32 \<Rightarrow> int \<Rightarrow> WorkSet" where
  "WorkSet_new lk_addr pd lk_generation idx cpu =
     \<lparr>ws_cnt = 0, ws_id = \<lparr>lock_addr = lk_addr, lock_generation = lk_generation, workset_index = idx\<rparr>,
      ws_cpu = cpu, ws_pid = pd, ws_twoowners = False, ws_old_pid = pd, ws_IO = False,
      ws_contended = [], ws_set = []\<rparr>"

definition full_chunk :: "memop_type \<Rightarrow> set_chunk" where
  "full_chunk ty = (if ty = Sim_Trans_Load then READ_MASK
     else if ty = Sim_Trans_Store then WRITE_MASK else 0)"

text \<open>The inner \<^verbatim>\<open>for\<close> loop of \<open>grow\<close> over the chunks of one range; returns the bit map and \<open>cur\<close>.\<close>

function grow_chunks :: "logical_address \<Rightarrow> logical_address \<Rightarrow> set_chunk \<Rightarrow> nat \<Rightarrow> logical_address
    \<Rightarrow> logical_address \<Rightarrow> logical_address \<Rightarrow> set_chunk list \<Rightarrow> set_chunk list \<times> logical_address" where
  "grow_chunks addr end full i chunk_start chunk_end cur bm =
     (if i < BYTEMAP_LEN \<and> cur < end then
        let m0 = (- 1 :: set_chunk);
            m1 = (if addr > chunk_start
                  then m0 AND NOT (BIT_MASK (unat (2 * (8 * of_nat SIZEOF_CHUNK - (addr - chunk_start)))))
                  else m0);
            m2 = (if end < chunk_end
                  then m1 AND BIT_MASK (unat (2 * (chunk_end - end)))
                  else m1)
        in grow_chunks addr end full (Suc i) chunk_end (chunk_end + of_nat CHUNK_BYTES) chunk_end
             (bm[i := bm ! i OR (full AND m2)])
      else (bm, cur))"
  by pat_completeness auto
termination
  by (relation "measure (\<lambda>(_, _, _, i, _). BYTEMAP_LEN - i)") auto
declare grow_chunks.simps [simp del]

text \<open>The outer \<^verbatim>\<open>while\<close> loop.\<close>

partial_function (option) grow_loop :: "logical_address \<Rightarrow> logical_address \<Rightarrow> memop_type
    \<Rightarrow> logical_address \<Rightarrow> range_map \<Rightarrow> range_map option" where
  "grow_loop addr end ty cur s =
     (if cur < end then
        let range_start = cur AND signed RANGE_MASK;
            range = (case map_of s range_start of None \<Rightarrow> ByteRange (replicate BYTEMAP_LEN 0)
                     | Some r \<Rightarrow> r);
            offset = unat (cur AND signed (NOT RANGE_MASK));
            i = offset div CHUNK_BYTES;
            chunk_start = range_start + of_nat (i * CHUNK_BYTES);
            (bm, cur') = grow_chunks addr end (full_chunk ty) i chunk_start
                           (chunk_start + of_nat CHUNK_BYTES) cur (bmap range)
        in grow_loop addr end ty cur' (omap_update range_start (ByteRange bm) s)
      else Some s)"

definition grow :: "logical_address \<Rightarrow> u32 \<Rightarrow> memop_type \<Rightarrow> WorkSet \<Rightarrow> WorkSet option" where
  "grow addr len ty ws =
     map_option (\<lambda>s. ws\<lparr>ws_set := s\<rparr>) (grow_loop addr (addr + signed len) ty addr (ws_set ws))"

definition reads_of :: "set_chunk \<Rightarrow> set_chunk" where
  "reads_of c = c AND READ_MASK"

definition writes_of :: "set_chunk \<Rightarrow> set_chunk" where
  "writes_of c = drop_bit 1 (c AND WRITE_MASK)"

text \<open>Size of one range, and size and conflicts of two ranges with the same address.\<close>

definition range_size :: "ByteRange \<Rightarrow> nat" where
  "range_size r = sum_list (map (\<lambda>i. population (reads_of (bmap r ! i) OR writes_of (bmap r ! i)))
     [0..<BYTEMAP_LEN])"

definition chunk_depends :: "set_chunk \<Rightarrow> set_chunk \<Rightarrow> nat" where
  "chunk_depends c1 c2 =
     (let chunk_size = population (reads_of c1 OR writes_of c1) in
      if chunk_size = 0 then 0
      else population ((reads_of c1 AND writes_of c2) OR (reads_of c2 AND writes_of c1)
             OR (writes_of c1 AND writes_of c2)))"

definition range_depends :: "ByteRange \<Rightarrow> ByteRange \<Rightarrow> nat" where
  "range_depends r1 r2 = sum_list (map (\<lambda>i. chunk_depends (bmap r1 ! i) (bmap r2 ! i)) [0..<BYTEMAP_LEN])"

text \<open>The two-iterator loop of \<open>compare\<close>: the number of dependencies and the size counted so far.\<close>

fun compare_loop :: "range_map \<Rightarrow> range_map \<Rightarrow> nat \<Rightarrow> nat \<Rightarrow> nat \<times> nat" where
  "compare_loop ((a, r1) # self) ((b, r2) # other) dependencies sz =
     (if a < b then compare_loop self ((b, r2) # other) dependencies (sz + range_size r1)
      else if b < a then compare_loop ((a, r1) # self) other dependencies sz
      else compare_loop self other (dependencies + range_depends r1 r2) (sz + range_size r1))"
| "compare_loop _ _ dependencies sz = (dependencies, sz)"

definition compare :: "WorkSet \<Rightarrow> WorkSet \<Rightarrow> nat \<times> nat" where
  "compare self other = compare_loop (ws_set self) (ws_set other) 0 0"

definition ws_size :: "WorkSet \<Rightarrow> nat" where
  "ws_size w = sum_list (map (\<lambda>(_, r). range_size r) (ws_set w))"

definition ws_rsize :: "WorkSet \<Rightarrow> nat" where
  "ws_rsize w = sum_list (map (\<lambda>(_, r).
     sum_list (map (\<lambda>i. population (reads_of (bmap r ! i))) [0..<BYTEMAP_LEN])) (ws_set w))"

definition ws_wsize :: "WorkSet \<Rightarrow> nat" where
  "ws_wsize w = sum_list (map (\<lambda>(_, r).
     sum_list (map (\<lambda>i. population (writes_of (bmap r ! i))) [0..<BYTEMAP_LEN])) (ws_set w))"

text \<open>The loop over the bits of one chunk, shared by \<open>get_workset\<close> and \<open>dumpWorkset\<close>.\<close>

function chunk_hits :: "logical_address \<Rightarrow> nat \<Rightarrow> nat \<Rightarrow> set_chunk \<Rightarrow> set_chunk
    \<Rightarrow> (logical_address \<times> nat) list" where
  "chunk_hits base i j reads writes =
     (if j < 4 * SIZEOF_CHUNK then
        (if reads AND 1 \<noteq> 0 \<or> writes AND 1 \<noteq> 0
         then [(base + of_nat (4 * SIZEOF_CHUNK * i + (4 * SIZEOF_CHUNK - 1 - j)),
                (if reads AND 1 \<noteq> 0 then 1 else 0) + (if writes AND 1 \<noteq> 0 then 2 else 0))]
         else []) @ chunk_hits base i (Suc j) (drop_bit 2 reads) (drop_bit 2 writes)
      else [])"
  by pat_completeness auto
termination
  by (relation "measure (\<lambda>(_, _, j, _). 4 * SIZEOF_CHUNK - j)") auto
declare chunk_hits.simps [simp del]

definition range_hits :: "logical_address \<times> ByteRange \<Rightarrow> (logical_address \<times> nat) list" where
  "range_hits e = concat (map (\<lambda>i. chunk_hits (fst e) i 0 (reads_of (bmap (snd e) ! i))
     (writes_of (bmap (snd e) ! i))) [0..<BYTEMAP_LEN])"

definition ws_hits :: "range_map \<Rightarrow> (logical_address \<times> nat) list" where
  "ws_hits s = concat (map range_hits s)"

definition get_workset :: "WorkSet \<Rightarrow> attr_value" where
  "get_workset w = Sim_Val_Dict (map (\<lambda>(a, v). (Sim_Val_Integer (uint a), Sim_Val_Integer (int v)))
     (ws_hits (ws_set w)))"

definition dumpWorkset :: "WorkSet \<Rightarrow> ostream" where
  "dumpWorkset w = concat (map (\<lambda>(a, v). [Hex a, Str '' - '', Dec (int v), Endl]) (ws_hits (ws_set w)))"

definition log_record :: "logical_address \<times> ByteRange \<Rightarrow> u8 list" where
  "log_record e = le_bytes32 (ucast (fst e)) @ concat (map le_bytes32 (bmap (snd e)))"

definition logWorkset :: "WorkSet \<Rightarrow> ostream" where
  "logWorkset w =
     [Str ''WS_CLOSE '', Str '' '', Hex (ucast (lock_addr (ws_id w))),
      Str '' '', Dec (uint (lock_generation (ws_id w))),
      Str '' '', Dec (uint (workset_index (ws_id w))), Str '' ('', Dec (uint (ws_pid w))] @
     (if ws_twoowners w then [Str '' '', Dec (uint (ws_old_pid w))] else []) @
     [Str '') '', Dec (ws_cpu w), Str '' C['']
     @ concat (map (\<lambda>i. [Str '' '', Dec (uint (workset_index i))]) (ws_contended w)) @
     [Str '' ]''] @ (if ws_IO w then [Str '' IO''] else []) @ [Endl] @
     [Bytes (le_bytes32 (of_nat (length (ws_set w))))] @
     map (\<lambda>e. Bytes (log_record e)) (ws_set w) @ [Str NL]"

section \<open>What a working set stands for\<close>

text \<open>
  Byte \<open>k\<close> of a chunk has its read bit (\<open>f = 0\<close>) and its write bit (\<open>f = 1\<close>) at position
  \<open>2 * (15 - k) + f\<close>; \<open>touched f s\<close> is the set of addresses with that bit set.
\<close>

definition range_base :: "u64 \<Rightarrow> u64" where "range_base a = a AND NOT (mask 5)"

definition range_off :: "u64 \<Rightarrow> nat" where "range_off a = unat a mod 32"

definition chunk_bit :: "nat \<Rightarrow> set_chunk \<Rightarrow> nat \<Rightarrow> bool" where
  "chunk_bit f c k \<longleftrightarrow> bit c (2 * (15 - k) + f)"

definition touched :: "nat \<Rightarrow> (u64 \<times> ByteRange) list \<Rightarrow> u64 set" where
  "touched f s = {a. \<exists>r. map_of s (range_base a) = Some r \<and>
      chunk_bit f (bmap r ! (range_off a div 16)) (range_off a mod 16)}"

definition range_ok :: "u64 \<times> ByteRange \<Rightarrow> bool" where
  "range_ok e \<longleftrightarrow> range_base (fst e) = fst e \<and> length (bmap (snd e)) = BYTEMAP_LEN"

definition ws_ok :: "(u64 \<times> ByteRange) list \<Rightarrow> bool" where
  "ws_ok s \<longleftrightarrow> omap_inv s \<and> list_all range_ok s"

definition cmask :: "u64 \<Rightarrow> u64 \<Rightarrow> u64 \<Rightarrow> set_chunk" where
  "cmask addr end cs = (if addr > cs then NOT (BIT_MASK (unat (2 * (8 * of_nat SIZEOF_CHUNK - (addr - cs))))) else - 1)
      AND (if end < cs + 16 then BIT_MASK (unat (2 * (cs + 16 - end))) else - 1)"

definition chunk_effect :: "u64 \<Rightarrow> u64 \<Rightarrow> set_chunk \<Rightarrow> u64 \<Rightarrow> set_chunk list \<Rightarrow> set_chunk list \<Rightarrow> nat \<Rightarrow> bool" where
  "chunk_effect addr end full rs bm bm' j \<longleftrightarrow> (\<forall>k < 16. \<forall>f < 2. chunk_bit f (bm' ! j) k \<longleftrightarrow>
      chunk_bit f (bm ! j) k \<or> chunk_bit f full k \<and> unat addr \<le> unat rs + 16 * j + k
         \<and> unat rs + 16 * j + k < unat end)"

definition records :: "memop_type \<Rightarrow> nat \<Rightarrow> bool" where
  "records ty f \<longleftrightarrow> ty = Sim_Trans_Load \<and> f = 0 \<or> ty = Sim_Trans_Store \<and> f = 1"

definition read_set :: "WorkSet \<Rightarrow> logical_address set" where
  "read_set w = touched 0 (ws_set w)"

definition write_set :: "WorkSet \<Rightarrow> logical_address set" where
  "write_set w = touched 1 (ws_set w)"

section \<open>Lemmas on masks and ranges\<close>

lemma set_consts [simp]: "SET_ORDER = 5" "SET_GRANULARITY = 32" "SIZEOF_CHUNK = 4" "CHUNK_BYTES = 16"
   "BYTEMAP_BYTES = 8" "BYTEMAP_LEN = 2"
  by (simp_all add: const_defs)

lemma BIT_MASK_mask: "n mod 32 = m \<Longrightarrow> BIT_MASK n = NOT (mask m)"
  by (simp add: BIT_MASK_def int_shl_def mask_eq_exp_minus_1 flip: push_bit_of_1)

lemma RM: "RANGE_MASK = NOT (mask 5)"
  by (simp add: RANGE_MASK_def BIT_MASK_mask)
lemma RM64: "(signed RANGE_MASK :: u64) = NOT (mask 5)"
  by (rule bit_eqI) (auto simp: RM bit_signed_iff bit_not_iff bit_mask_iff min_def)
lemma NRM64: "(signed (NOT RANGE_MASK) :: u64) = mask 5"
  by (rule bit_eqI) (auto simp: RM bit_signed_iff bit_not_iff bit_mask_iff min_def)


lemma unat_range_off: "unat (a AND (mask 5 :: u64)) = unat a mod 32"
  by (simp add: take_bit_eq_mod unat_mod_distrib flip: take_bit_eq_mask)

lemma unat_range_base: "unat (a AND NOT (mask 5) :: u64) = 32 * (unat a div 32)"
proof -
  have "unat (a AND NOT (mask 5) :: u64) = push_bit 5 (drop_bit 5 (unat a))"
    by (rule bit_eqI) (auto simp: bit_simps dest: bit_imp_le_length)
  then show ?thesis by (simp add: push_bit_eq_mult drop_bit_eq_div)
qed

lemma unat_base: "unat (range_base a) = 32 * (unat a div 32)"
  by (simp add: range_base_def unat_range_base)

lemma range_base_eqI: "unat b mod 32 = 0 \<Longrightarrow> unat b \<le> unat a \<Longrightarrow> unat a < unat b + 32 \<Longrightarrow> range_base a = b"
proof -
  assume b: "unat b mod 32 = 0" "unat b \<le> unat a" "unat a < unat b + 32"
  from b(1) obtain q where q: "unat b = 32 * q" by (auto simp: mod_eq_0_iff_dvd elim: dvdE)
  with b have "unat a div 32 = q" by (intro div_nat_eqI) auto
  then have "unat (range_base a) = unat b" using q by (simp add: unat_base)
  then show ?thesis by (rule unsigned_word_eqI)
qed

lemma low_mask:
  assumes "d < 16" "0 < d"
  shows "NOT (BIT_MASK (unat (2 * (32 - of_nat d) :: u64))) = mask (32 - 2 * d)"
proof -
  have "unat (2 * (32 - of_nat d) :: u64) = 64 - 2 * d"
  proof -
    have "(2 * (32 - of_nat d) :: u64) = of_nat (64 - 2 * d)"
      using assms by (simp add: of_nat_diff)
    moreover have "unat (of_nat (64 - 2 * d) :: u64) = 64 - 2 * d"
      by (simp only: unat_of_nat) (simp add: take_bit_eq_mod)
    ultimately show ?thesis by (simp only:)
  qed
  moreover have "(64 - 2 * d) mod 32 = 32 - 2 * d"
  proof -
    have "64 - 2 * d = (32 - 2 * d) + 32" using assms by simp
    then show ?thesis using assms by (simp only: mod_add_self2) simp
  qed
  ultimately show ?thesis by (simp add: BIT_MASK_mask)
qed

lemma high_mask:
  assumes "e < 16"
  shows "BIT_MASK (unat (2 * of_nat e :: u64)) = NOT (mask (2 * e))"
proof -
  have "(2 * of_nat e :: u64) = of_nat (2 * e)" by simp
  then have "unat (2 * of_nat e :: u64) = 2 * e" using assms by (simp only: unat_of_nat) (simp add: take_bit_eq_mod)
  then show ?thesis using assms by (simp add: BIT_MASK_mask)
qed

lemma chunk_mask_bits:
  assumes f: "f < 2" and k: "k < 16" and nov: "unat cs + 16 < 2 ^ 64"
    and a: "unat addr < unat cs + 16" and e: "unat cs < unat end"
  shows "chunk_bit f (cmask addr end cs) k \<longleftrightarrow> unat addr \<le> unat cs + k \<and> unat cs + k < unat end"
proof -
  have idx: "2 * (15 - k) + f < 32" using f k by simp
  have lo: "bit (if addr > cs then NOT (BIT_MASK (unat (2 * (8 * of_nat SIZEOF_CHUNK - (addr - cs))))) else - 1) (2 * (15 - k) + f)
      \<longleftrightarrow> unat addr \<le> unat cs + k"
  proof (cases "addr > cs")
    case True
    define d where "d = unat (addr - cs)"
    have d: "d = unat addr - unat cs" "0 < d" "d < 16"
      using True a by (auto simp: d_def unat_sub word_less_nat_alt word_le_nat_alt)
    have "addr - cs = of_nat d" by (simp add: d_def)
    then have "NOT (BIT_MASK (unat (2 * (8 * of_nat SIZEOF_CHUNK - (addr - cs))))) = mask (32 - 2 * d)"
      using low_mask[OF d(3,2)] by simp
    moreover have "2 * (15 - k) + f < 32 - 2 * d \<longleftrightarrow> unat addr \<le> unat cs + k"
      using d f k by arith
    ultimately show ?thesis using True idx by (simp only: if_True bit_mask_iff) simp
  next
    case False
    then show ?thesis using idx by (auto simp: word_less_nat_alt not_less)
  qed
  have ce: "unat (cs + 16) = unat cs + 16" using nov unat_add_lem[of cs 16] by simp
  have hi: "bit (if end < cs + 16 then BIT_MASK (unat (2 * (cs + 16 - end))) else - 1) (2 * (15 - k) + f)
      \<longleftrightarrow> unat cs + k < unat end"
  proof (cases "end < cs + 16")
    case True
    define d where "d = unat (cs + 16 - end)"
    have d: "d = unat cs + 16 - unat end" "d < 16"
      using True e ce by (auto simp: d_def unat_sub word_less_nat_alt word_le_nat_alt)
    have "cs + 16 - end = of_nat d" by (simp add: d_def)
    then have "BIT_MASK (unat (2 * (cs + 16 - end))) = NOT (mask (2 * d))"
      using high_mask[OF d(2)] by simp
    moreover have "\<not> 2 * (15 - k) + f < 2 * d \<longleftrightarrow> unat cs + k < unat end"
      using d f k e by arith
    ultimately show ?thesis using True idx d by (simp only: if_True bit_mask_iff bit_not_iff) simp
  next
    case False
    then show ?thesis using idx k ce by (auto simp: word_less_nat_alt not_less)
  qed
  show ?thesis unfolding chunk_bit_def cmask_def bit_and_iff lo hi ..
qed

lemma chunk_bit_or [simp]: "chunk_bit f (a OR b) k \<longleftrightarrow> chunk_bit f a k \<or> chunk_bit f b k"
  by (simp add: chunk_bit_def bit_or_iff)
lemma chunk_bit_and [simp]: "chunk_bit f (a AND b) k \<longleftrightarrow> chunk_bit f a k \<and> chunk_bit f b k"
  by (simp add: chunk_bit_def bit_and_iff)

lemma grow_chunks_step:
  assumes "i < 2" "cur < end" "ce = cs + 16"
  shows "grow_chunks addr end full i cs ce cur bm =
    grow_chunks addr end full (Suc i) ce (ce + 16) ce (bm[i := bm ! i OR (full AND cmask addr end cs)])"
  using assms by (subst grow_chunks.simps) (simp add: Let_def cmask_def)

lemma grow_chunks_stop:
  "\<not> (i < 2 \<and> cur < end) \<Longrightarrow> grow_chunks addr end full i cs ce cur bm = (bm, cur)"
  by (subst grow_chunks.simps) auto

lemma grow_chunks_upper:
  assumes rs: "unat rs + 32 < 2 ^ 64" and len: "length bm = 2"
    and cur: "unat rs + 16 \<le> unat cur" "unat cur < unat rs + 32" and ce: "cur < end"
    and a: "addr \<le> cur"
    and bm': "bm' = bm[1 := bm ! 1 OR (full AND cmask addr end (rs + 16))]"
  shows "grow_chunks addr end full 1 (rs + 16) (rs + 32) cur bm = (bm', rs + 32)"
    and "chunk_effect addr end full rs bm bm' 1"
proof -
  show "grow_chunks addr end full 1 (rs + 16) (rs + 32) cur bm = (bm', rs + 32)"
    using ce bm' by (subst grow_chunks_step) (auto simp: grow_chunks_stop)
  have u: "unat (rs + 16) = unat rs + 16" using rs unat_add_of_nat[of rs 16] by simp
  have "chunk_bit f (cmask addr end (rs + 16)) k \<longleftrightarrow> unat addr \<le> unat rs + 16 + k \<and> unat rs + 16 + k < unat end"
    if "k < 16" "f < 2" for k f
    using chunk_mask_bits[of f k "rs + 16" addr "end"] that rs cur ce a u
    by (simp add: word_less_nat_alt word_le_nat_alt)
  then show "chunk_effect addr end full rs bm bm' 1"
    using len bm' by (auto simp: chunk_effect_def)
qed

lemma grow_chunks_range:
  assumes al: "unat rs mod 32 = 0" and rs: "unat rs + 32 < 2 ^ 64" and len: "length bm = 2"
    and cur: "unat rs \<le> unat cur" "unat cur < unat rs + 32" and ce: "cur < end"
    and a: "cur = addr \<or> cur = rs \<and> addr < rs"
    and i: "i = (unat cur - unat rs) div 16" and cs: "cs = rs + of_nat (i * 16)"
    and res: "grow_chunks addr end full i cs (cs + 16) cur bm = (bm', cur')"
  shows "length bm' = 2 \<and> chunk_effect addr end full rs bm bm' 0 \<and> chunk_effect addr end full rs bm bm' 1
    \<and> (cur' = rs + 32 \<or> cur' = rs + 16 \<and> end \<le> cur')"
proof -
  have ac: "addr \<le> cur" using a by auto
  have u: "unat (rs + 16) = unat rs + 16" "unat (rs + 32) = unat rs + 32"
    using rs unat_add_of_nat[of rs 16] unat_add_of_nat[of rs 32] by auto
  show ?thesis
  proof (cases "unat cur < unat rs + 16")
    case False
    have i1: "i = 1" using False cur i by (intro div_nat_eqI[THEN trans[OF i]]) auto
    have ad: "addr = cur" using a False by auto
    define b1 where "b1 = bm[1 := bm ! 1 OR (full AND cmask addr end (rs + 16))]"
    note up = grow_chunks_upper[OF rs len _ cur(2) ce ac b1_def]
    have "cs + 16 = rs + 32" using cs i1 by simp
    then have r: "bm' = b1" "cur' = rs + 32" using up(1) res False cs i1 by (simp_all add: add.commute)
    moreover have "chunk_effect addr end full rs bm b1 0"
      using ad False by (auto simp: chunk_effect_def b1_def)
    moreover have "chunk_effect addr end full rs bm b1 1" using up(2) False by simp
    ultimately show ?thesis using len by (simp add: b1_def)
  next
    case True
    have i0: "i = 0" using True cur i by simp
    define b0 where "b0 = bm[0 := bm ! 0 OR (full AND cmask addr end rs)]"
    have lb: "length b0 = 2" using len by (simp add: b0_def)
    have e0: "chunk_effect addr end full rs bm b0 0"
    proof -
      have "chunk_bit f (cmask addr end rs) k \<longleftrightarrow> unat addr \<le> unat rs + k \<and> unat rs + k < unat end"
        if "k < 16" "f < 2" for k f
        using chunk_mask_bits[of f k rs addr "end"] that rs cur True ce ac
        by (simp add: word_less_nat_alt word_le_nat_alt)
      then show ?thesis using len by (auto simp: chunk_effect_def b0_def)
    qed
    have st: "grow_chunks addr end full i cs (cs + 16) cur bm
        = grow_chunks addr end full 1 (rs + 16) (rs + 32) (rs + 16) b0"
      using ce cs i0 by (subst grow_chunks_step) (auto simp: b0_def add.commute)
    show ?thesis
    proof (cases "rs + 16 < end")
      case False
      then have "bm' = b0" "cur' = rs + 16" using st res by (auto simp: grow_chunks_stop)
      moreover have "chunk_effect addr end full rs bm b0 1"
        using False u by (auto simp: chunk_effect_def b0_def word_less_nat_alt)
      ultimately show ?thesis using e0 lb False by auto
    next
      case t: True
      define b1 where "b1 = b0[1 := b0 ! 1 OR (full AND cmask addr end (rs + 16))]"
      have a16: "addr \<le> rs + 16" using ac True u by (simp add: word_le_nat_alt)
      note up = grow_chunks_upper[OF rs lb _ _ t a16 b1_def]
      have r: "bm' = b1" "cur' = rs + 32" using up(1) st res u by auto
      have "chunk_effect addr end full rs bm b1 0"
        using e0 by (auto simp: chunk_effect_def b1_def)
      moreover have "chunk_effect addr end full rs bm b1 1"
        using up(2) u len by (auto simp: chunk_effect_def b0_def)
      ultimately show ?thesis using r lb by (auto simp: b1_def)
    qed
  qed
qed

lemma chunk_bit_READ: "k < 16 \<Longrightarrow> f < 2 \<Longrightarrow> chunk_bit f READ_MASK k \<longleftrightarrow> f = 0"
proof -
  have "\<forall>k\<in>set [0..<16]. \<forall>f\<in>set [0..<2]. bit (0x55555555 :: 32 word) (2 * (15 - k) + f) \<longleftrightarrow> f = 0"
    by code_simp
  then show "k < 16 \<Longrightarrow> f < 2 \<Longrightarrow> ?thesis" by (simp add: chunk_bit_def READ_MASK_def)
qed

lemma chunk_bit_WRITE: "k < 16 \<Longrightarrow> f < 2 \<Longrightarrow> chunk_bit f WRITE_MASK k \<longleftrightarrow> f = 1"
proof -
  have "\<forall>k\<in>set [0..<16]. \<forall>f\<in>set [0..<2]. bit (0xAAAAAAAA :: 32 word) (2 * (15 - k) + f) \<longleftrightarrow> f = 1"
    by code_simp
  then show "k < 16 \<Longrightarrow> f < 2 \<Longrightarrow> ?thesis" by (simp add: chunk_bit_def WRITE_MASK_def)
qed

lemma chunk_bit_zero [simp]: "\<not> chunk_bit f 0 k"
  by (simp add: chunk_bit_def)

lemma chunk_bit_full: "k < 16 \<Longrightarrow> f < 2 \<Longrightarrow> chunk_bit f (full_chunk ty) k \<longleftrightarrow> records ty f"
  by (cases ty) (auto simp: full_chunk_def records_def chunk_bit_READ chunk_bit_WRITE chunk_bit_zero)

lemma touched_omap_update:
  assumes eff: "chunk_effect addr end (full_chunk ty) rs bm bm' 0" "chunk_effect addr end (full_chunk ty) rs bm bm' 1"
    and rs: "range_base rs = rs" and f: "f < 2" and ok: "omap_inv s"
    and old: "bm = (case map_of s rs of None \<Rightarrow> replicate 2 0 | Some r \<Rightarrow> bmap r)"
  shows "touched f (omap_update rs (ByteRange bm') s) =
     touched f s \<union> {a. records ty f \<and> range_base a = rs \<and> addr \<le> a \<and> a < end}"
proof (rule set_eqI)
  fix a
  show "a \<in> touched f (omap_update rs (ByteRange bm') s) \<longleftrightarrow>
     a \<in> touched f s \<union> {a. records ty f \<and> range_base a = rs \<and> addr \<le> a \<and> a < end}"
  proof (cases "range_base a = rs")
    case False then show ?thesis using ok by (simp add: touched_def)
  next
    case True
    define j where "j = range_off a div 16"
    define k where "k = range_off a mod 16"
    have jk: "j < 2" "k < 16" by (auto simp: j_def k_def range_off_def less_mult_imp_div_less)
    have ua: "unat a = unat rs + 16 * j + k"
      using unat_base[of a] True by (simp add: j_def k_def range_off_def)
    have "chunk_effect addr end (full_chunk ty) rs bm bm' j" using eff jk(1) by (auto simp: less_2_cases_iff)
    then have e: "chunk_bit f (bm' ! j) k \<longleftrightarrow> chunk_bit f (bm ! j) k \<or>
         records ty f \<and> unat addr \<le> unat a \<and> unat a < unat end"
      using jk f chunk_bit_full ua by (auto simp: chunk_effect_def)
    have o: "a \<in> touched f s \<longleftrightarrow> chunk_bit f (bm ! j) k"
      using True old jk by (auto simp: touched_def j_def k_def chunk_bit_def split: option.splits)
    show ?thesis using e o True ok
      by (auto simp: touched_def j_def k_def word_le_nat_alt word_less_nat_alt)
  qed
qed

lemma ws_ok_lookup: "ws_ok s \<Longrightarrow> map_of s k = Some r \<Longrightarrow> length (bmap r) = 2"
  by (auto simp: ws_ok_def list_all_iff range_ok_def dest!: map_of_SomeD)

lemma omap_update_set: "set (omap_update k v s) \<subseteq> insert (k, v) (set s)"
  by (induction s) (auto split: if_splits)

lemma ws_ok_update: "ws_ok s \<Longrightarrow> range_base k = k \<Longrightarrow> length bm = 2 \<Longrightarrow> ws_ok (omap_update k (ByteRange bm) s)"
  using omap_update_set[of k "ByteRange bm" s]
  by (auto simp: ws_ok_def omap_inv_update list_all_iff range_ok_def)

lemma range_base_idem [simp]: "range_base (range_base a) = range_base a"
  by (simp add: range_base_def and.assoc)

lemma base_bounds: "unat (range_base a) \<le> unat a" "unat a < unat (range_base a) + 32"
   "unat (range_base a) mod 32 = 0"
  by (auto simp: unat_base)

lemma unat_off_eq: "unat (a AND mask 5 :: u64) = unat a - unat (range_base a)"
  by (simp add: unat_range_off unat_base minus_mult_div_eq_mod)

lemma range_partition:
  assumes "range_base cur = rs" "unat rs + 32 < 2 ^ 64"
  shows "{a. range_base a = rs \<and> cur \<le> a \<and> a < end} \<union> {a. rs + 32 \<le> a \<and> a < end} = {a. cur \<le> a \<and> a < end}"
proof -
  have u: "unat (rs + 32) = unat rs + 32" using assms(2) unat_add_of_nat[of rs 32] by simp
  have "range_base a = rs \<longleftrightarrow> unat a < unat rs + 32" if "cur \<le> a" for a
    using base_bounds[of cur] base_bounds[of a] assms(1) that range_base_eqI[of rs a]
    by (auto simp: word_le_nat_alt)
  moreover have "unat cur < unat rs + 32" using base_bounds[of cur] assms by simp
  ultimately show ?thesis using u by (auto simp: word_le_nat_alt word_less_nat_alt)
qed

lemma range_start_room:
  assumes "unat (end :: u64) \<le> 2 ^ 64 - 32" "cur < end"
  shows "unat (range_base cur) + 32 < 2 ^ 64"
  using assms by (simp add: word_less_nat_alt unat_base)

lemma grow_loop_step:
  assumes "cur < end" "rs = range_base cur"
    "bm = (case map_of s rs of None \<Rightarrow> replicate 2 0 | Some r \<Rightarrow> bmap r)"
    "i = (unat cur - unat rs) div 16" "cs = rs + of_nat (i * 16)"
    "grow_chunks addr end (full_chunk ty) i cs (cs + 16) cur bm = (bm', cur')"
  shows "grow_loop addr end ty cur s = grow_loop addr end ty cur' (omap_update rs (ByteRange bm') s)"
proof -
  have "bmap (case map_of s rs of None \<Rightarrow> ByteRange (replicate 2 0) | Some r \<Rightarrow> r) = bm"
    using assms(3) by (simp split: option.splits)
  moreover have "cur AND signed RANGE_MASK = rs" using assms(2) by (simp add: RM64 range_base_def)
  moreover have "unat (cur AND signed (NOT RANGE_MASK)) div 16 = i"
    using assms(2,4) by (simp add: NRM64 unat_off_eq)
  moreover have "grow_chunks addr end (full_chunk ty) i (rs + of_nat i * 16) (rs + of_nat i * 16 + 16) cur bm = (bm', cur')"
    using assms(5,6) by simp
  ultimately show ?thesis using assms(1) by (subst grow_loop.simps) (simp add: Let_def cong: option.case_cong)
qed

text \<open>One turn of the outer loop: it covers the range of \<open>cur\<close> and continues at the next one.\<close>

lemma grow_loop_range:
  assumes ok: "ws_ok s" and room: "unat (range_base cur) + 32 < 2 ^ 64" and less: "cur < end"
    and start: "cur = addr \<or> range_base cur = cur \<and> addr < cur"
  shows "\<exists>s1. grow_loop addr end ty cur s = grow_loop addr end ty (range_base cur + 32) s1 \<and> ws_ok s1 \<and>
    (\<forall>f < 2. touched f s1 = touched f s \<union>
      {a. records ty f \<and> range_base a = range_base cur \<and> cur \<le> a \<and> a < end})"
proof -
  define rs where "rs = range_base cur"
  define bm where "bm = (case map_of s rs of None \<Rightarrow> replicate 2 0 | Some r \<Rightarrow> bmap r)"
  define i where "i = (unat cur - unat rs) div 16"
  define cs where "cs = rs + of_nat (i * 16)"
  obtain bm' cur' where g: "grow_chunks addr end (full_chunk ty) i cs (cs + 16) cur bm = (bm', cur')"
    by fastforce
  define s1 where "s1 = omap_update rs (ByteRange bm') s"
  have room: "unat rs + 32 < 2 ^ 64" using room by (simp add: rs_def)
  have u: "unat (rs + 32) = unat rs + 32" using room unat_add_of_nat[of rs 32] by simp
  have len: "length bm = 2" using ws_ok_lookup[OF ok] by (auto simp: bm_def split: option.splits)
  have rsb: "range_base rs = rs" by (simp add: rs_def)
  have bnd: "unat rs mod 32 = 0" "unat rs \<le> unat cur" "unat cur < unat rs + 32"
    using base_bounds[of cur] by (simp_all add: rs_def)
  have a: "cur = addr \<or> cur = rs \<and> addr < rs" using start by (auto simp: rs_def)
  have res: "length bm' = 2" "chunk_effect addr end (full_chunk ty) rs bm bm' 0"
      "chunk_effect addr end (full_chunk ty) rs bm bm' 1"
      "cur' = rs + 32 \<or> cur' = rs + 16 \<and> end \<le> cur'"
    using grow_chunks_range[OF bnd(1) room len bnd(2,3) less a i_def cs_def g] by auto
  have eq: "range_base x = rs \<Longrightarrow> addr \<le> x \<longleftrightarrow> cur \<le> x" for x
    using a base_bounds[of x] by (auto simp: word_le_nat_alt word_less_nat_alt)
  have "grow_loop addr end ty cur s = grow_loop addr end ty cur' s1"
    unfolding s1_def by (rule grow_loop_step[OF less rs_def bm_def i_def cs_def g])
  moreover have "grow_loop addr end ty cur' s1 = grow_loop addr end ty (rs + 32) s1"
    using res(4) u unat_add_of_nat[of rs 16] room
    by (auto simp: grow_loop.simps[of _ _ _ _ s1] word_le_nat_alt word_less_nat_alt)
  moreover have "ws_ok s1" using ok rsb res(1) by (simp add: s1_def ws_ok_update)
  moreover have "touched f s1 = touched f s \<union> {a. records ty f \<and> range_base a = rs \<and> cur \<le> a \<and> a < end}"
    if "f < 2" for f
    using touched_omap_update[OF res(2,3) rsb that _ bm_def] ok eq by (auto simp: s1_def ws_ok_def)
  ultimately show ?thesis unfolding rs_def by auto
qed

lemma grow_loop_correct:
  assumes "ws_ok s" "unat end \<le> 2 ^ 64 - 32" "cur = addr \<or> range_base cur = cur \<and> addr < cur"
  shows "\<exists>s'. grow_loop addr end ty cur s = Some s' \<and> ws_ok s' \<and>
    (\<forall>f < 2. touched f s' = touched f s \<union> {a. records ty f \<and> cur \<le> a \<and> a < end})"
  using assms
proof (induction "unat end - unat cur" arbitrary: cur s rule: less_induct)
  case less
  show ?case
  proof (cases "cur < end")
    case False
    then show ?thesis using less.prems(1) by (subst grow_loop.simps) auto
  next
    case True
    define rs where "rs = range_base cur"
    have room: "unat rs + 32 < 2 ^ 64" using range_start_room[OF less.prems(2) True] by (simp add: rs_def)
    have u: "unat (rs + 32) = unat rs + 32" using room unat_add_of_nat[of rs 32] by simp
    have bnd: "unat rs mod 32 = 0" "unat rs \<le> unat cur" "unat cur < unat rs + 32"
      using base_bounds[of cur] by (simp_all add: rs_def)
    obtain s1 where s1: "grow_loop addr end ty cur s = grow_loop addr end ty (rs + 32) s1" "ws_ok s1"
        "\<And>f. f < 2 \<Longrightarrow> touched f s1 = touched f s \<union> {a. records ty f \<and> range_base a = rs \<and> cur \<le> a \<and> a < end}"
      using grow_loop_range[OF less.prems(1) _ True less.prems(3), folded rs_def] room by blast
    have "\<exists>s'. grow_loop addr end ty (rs + 32) s1 = Some s' \<and> ws_ok s' \<and>
      (\<forall>f < 2. touched f s' = touched f s1 \<union> {a. records ty f \<and> rs + 32 \<le> a \<and> a < end})"
    proof (rule less.hyps)
      show "unat end - unat (rs + 32) < unat end - unat cur"
        using bnd u True by (auto simp: word_less_nat_alt)
      have "range_base (rs + 32) = rs + 32" using u bnd(1) by (intro range_base_eqI) auto
      moreover have "addr < rs + 32" using less.prems(3) bnd u by (auto simp: word_less_nat_alt)
      ultimately show "rs + 32 = addr \<or> range_base (rs + 32) = rs + 32 \<and> addr < rs + 32" by simp
    qed (use s1(2) less.prems in auto)
    then obtain s' where s': "grow_loop addr end ty cur s = Some s'" "ws_ok s'"
      "\<And>f. f < 2 \<Longrightarrow> touched f s' = touched f s1 \<union> {a. records ty f \<and> rs + 32 \<le> a \<and> a < end}"
      using s1(1) by auto
    have "touched f s' = touched f s \<union> {a. records ty f \<and> cur \<le> a \<and> a < end}" if "f < 2" for f
      using s'(3)[OF that] s1(3)[OF that] range_partition[OF rs_def[symmetric] room] by auto
    then show ?thesis using s' by auto
  qed
qed

end
