(* ===== verification/WorkSet_Count.thy ===== *)
theory WorkSet_Count
  imports WorkSet
begin

text \<open>
  What the queries of a working set return: \<open>population\<close> counts bits, the sizes count bytes,
  \<open>compare\<close> counts the bytes in conflict, \<open>get_workset\<close> lists each accessed byte once with its
  access kind, and the binary part of a log record is read back by the reader of the analysis
  script (\<^verbatim>\<open>scripts/sync_char_post.py\<close>), modelled here as \<open>read_address_set\<close>.
\<close>

section \<open>The reader of the analysis script, and auxiliary notions\<close>

fun read_words :: "nat \<Rightarrow> u8 list \<Rightarrow> (nat list \<times> u8 list) option" where
  "read_words 0 f = Some ([], f)"
| "read_words (Suc n) f =
     (if length f < 4 then None
      else map_option (\<lambda>(ws, g). (of_le_bytes (take 4 f) # ws, g)) (read_words n (drop 4 f)))"

fun read_entries :: "nat \<Rightarrow> u8 list \<Rightarrow> ((nat \<times> nat list) list \<times> u8 list) option" where
  "read_entries 0 f = Some ([], f)"
| "read_entries (Suc n) f =
     (case read_words 3 f of
        Some ([addr, c0, c1], g) \<Rightarrow> map_option (\<lambda>(es, h). ((addr, [c0, c1]) # es, h)) (read_entries n g)
      | _ \<Rightarrow> None)"

definition read_address_set :: "u8 list \<Rightarrow> ((nat \<times> nat list) list \<times> u8 list) option" where
  "read_address_set f = (case read_words 1 f of Some ([n], g) \<Rightarrow> read_entries n g | _ \<Rightarrow> None)"

text \<open>The raw bytes among the items of a stream.\<close>

definition raw_bytes :: "ostream \<Rightarrow> u8 list" where
  "raw_bytes os = concat (map (\<lambda>i. case i of Bytes bs \<Rightarrow> bs | _ \<Rightarrow> []) os)"

definition bytes_where :: "(logical_address \<Rightarrow> ByteRange \<Rightarrow> nat \<Rightarrow> nat \<Rightarrow> bool) \<Rightarrow> range_map \<Rightarrow> logical_address set" where
  "bytes_where Q s = {a. \<exists>r. map_of s (range_base a) = Some r \<and>
     Q (range_base a) r (range_off a div 16) (range_off a mod 16)}"

definition depends_on :: "range_map \<Rightarrow> logical_address \<times> ByteRange \<Rightarrow> nat" where
  "depends_on t e = (case map_of t (fst e) of None \<Rightarrow> 0 | Some q \<Rightarrow> range_depends (snd e) q)"

definition size_before :: "range_map \<Rightarrow> logical_address \<times> ByteRange \<Rightarrow> nat" where
  "size_before t e = (if \<exists>k\<in>fst ` set t. fst e \<le> k then range_size (snd e) else 0)"

definition hit :: "logical_address \<Rightarrow> nat \<Rightarrow> set_chunk \<Rightarrow> set_chunk \<Rightarrow> nat \<Rightarrow> (logical_address \<times> nat) list" where
  "hit b i reads writes j = (if bit reads (2 * j) \<or> bit writes (2 * j)
     then [(b + of_nat (16 * i + (15 - j)), (if bit reads (2 * j) then 1 else 0) + (if bit writes (2 * j) then 2 else 0))]
     else [])"

section \<open>Counting\<close>

lemma population_card: "population x = card {i. bit x i}"
proof (induction x rule: population.induct)
  case (1 x)
  show ?case
  proof (cases "x = 0")
    case False
    with 1 show ?thesis by (simp add: population.simps[of x] clear_lowest_bit(1)[OF False])
  qed (simp add: population.simps[of 0])
qed

lemma byte_at:
  assumes "range_base b = b" "i < 2" "k < 16"
  shows "range_base (b + of_nat (16 * i + k)) = b" "range_off (b + of_nat (16 * i + k)) = 16 * i + k"
proof -
  have al: "unat b mod 32 = 0" using base_bounds(3)[of b] assms(1) by simp
  have "unat b < 2 ^ 64" using unsigned_less[of b] by simp
  moreover from al obtain q where q: "unat b = 32 * q" by (auto simp: mod_eq_0_iff_dvd elim: dvdE)
  ultimately have u: "unat (b + of_nat (16 * i + k)) = unat b + (16 * i + k)"
    using assms by (intro unat_add_of_nat) auto
  then show "range_base (b + of_nat (16 * i + k)) = b"
    using al assms by (intro range_base_eqI) auto
  show "range_off (b + of_nat (16 * i + k)) = 16 * i + k"
    unfolding range_off_def u using q assms by (simp)
qed

lemma range_split: "range_base a + of_nat (range_off a) = a"
proof -
  have "unat (range_base a + of_nat (unat a mod 32)) = unat (range_base a) + unat a mod 32"
    using unsigned_less[of a] by (intro unat_add_of_nat) (simp add: unat_base)
  then show ?thesis by (intro unsigned_word_eqI) (simp add: unat_base range_off_def)
qed

lemma range_off_div: "range_off a div 16 < 2"
  by (auto simp: range_off_def less_mult_imp_div_less)

lemma card_range_bytes:
  assumes "range_base b = b"
  shows "card {a. range_base a = b \<and> P (range_off a div 16) (range_off a mod 16)} =
    (\<Sum>i<2. card {k. k < 16 \<and> P i k})"
proof -
  let ?A = "{a. range_base a = b \<and> P (range_off a div 16) (range_off a mod 16)}"
  let ?B = "SIGMA i:{..<2}. {k. k < 16 \<and> P i k}"
  have "bij_betw (\<lambda>a. (range_off a div 16, range_off a mod 16)) ?A ?B"
  proof (rule bij_betw_byWitness[where f' = "\<lambda>(i, k). b + of_nat (16 * i + k)"])
    show "\<forall>a\<in>?A. (case (range_off a div 16, range_off a mod 16) of (i, k) \<Rightarrow> b + of_nat (16 * i + k)) = a"
      using range_split by (auto simp del: of_nat_add of_nat_mult)
  qed (use byte_at[OF assms] range_off_div in auto)
  then have "card ?A = card ?B" by (rule bij_betw_same_card)
  then show ?thesis by simp
qed

lemma card_bytes_where:
  "ws_ok s \<Longrightarrow> card (bytes_where Q s) = sum_list (map (\<lambda>(b, r). \<Sum>i<2. card {k. k < 16 \<and> Q b r i k}) s)"
proof (induction s)
  case (Cons e s)
  obtain b r where e: "e = (b, r)" by fastforce
  have ok: "ws_ok s" "range_base b = b" "map_of s b = None"
    using Cons.prems e by (auto simp: ws_ok_def omap_inv_Cons range_ok_def map_of_eq_None_iff)
  have "bytes_where Q (e # s) = {a. range_base a = b \<and> Q b r (range_off a div 16) (range_off a mod 16)} \<union> bytes_where Q s"
    using ok e by (auto simp: bytes_where_def split: if_splits)
  moreover have "{a. range_base a = b \<and> Q b r (range_off a div 16) (range_off a mod 16)} \<inter> bytes_where Q s = {}"
    using ok by (auto simp: bytes_where_def)
  ultimately show ?case using Cons.IH[OF ok(1)] card_range_bytes[OF ok(2), of "Q b r"] e
    by (simp add: card_Un_disjoint)
qed (simp add: bytes_where_def)

lemma bit_READ_MASK: "bit READ_MASK i \<longleftrightarrow> even i \<and> i < 32"
proof -
  have "\<forall>i\<in>set [0..<32]. bit (0x55555555 :: 32 word) i \<longleftrightarrow> even i" by code_simp
  from bspec[OF this, of i] show ?thesis
    using bit_imp_le_length[of "READ_MASK" i] by (auto simp: READ_MASK_def)
qed

lemma bit_WRITE_MASK: "bit WRITE_MASK i \<longleftrightarrow> odd i \<and> i < 32"
proof -
  have "\<forall>i\<in>set [0..<32]. bit (0xAAAAAAAA :: 32 word) i \<longleftrightarrow> odd i" by code_simp
  from bspec[OF this, of i] show ?thesis
    using bit_imp_le_length[of "WRITE_MASK" i] by (auto simp: WRITE_MASK_def)
qed

lemma bit_reads_of: "bit (reads_of c) i \<longleftrightarrow> even i \<and> bit c i"
  by (auto simp: reads_of_def bit_and_iff bit_READ_MASK dest: bit_imp_le_length)

lemma bit_writes_of: "bit (writes_of c) i \<longleftrightarrow> even i \<and> bit c (Suc i)"
  by (auto simp: writes_of_def bit_drop_bit_eq bit_and_iff bit_WRITE_MASK dest: bit_imp_le_length)

lemma population_even:
  assumes "\<And>i. bit x i \<Longrightarrow> even i"
  shows "population x = card {k. k < 16 \<and> bit x (2 * (15 - k))}"
proof -
  have "bij_betw (\<lambda>k. 2 * (15 - k)) {k. k < 16 \<and> bit x (2 * (15 - k))} {i. bit x i}"
  proof (rule bij_betw_byWitness[where f' = "\<lambda>i. 15 - i div 2"])
    have "2 * (15 - (15 - i div 2)) = i" if "bit x i" for i
      using assms[OF that] bit_imp_le_length[OF that] by (auto elim!: evenE)
    then show "\<forall>i\<in>{i. bit x i}. 2 * (15 - (15 - i div 2)) = i"
      "(\<lambda>i. 15 - i div 2) ` {i. bit x i} \<subseteq> {k. k < 16 \<and> bit x (2 * (15 - k))}" by auto
  qed auto
  then show ?thesis by (simp add: population_card bij_betw_same_card)
qed

lemmas chunk_bits = bit_reads_of bit_writes_of bit_or_iff bit_and_iff chunk_bit_def

lemma population_reads: "population (reads_of c) = card {k. k < 16 \<and> chunk_bit 0 c k}"
  by (subst population_even) (auto simp: chunk_bits)

lemma population_writes: "population (writes_of c) = card {k. k < 16 \<and> chunk_bit 1 c k}"
  by (subst population_even) (auto simp: chunk_bits)

lemma population_both: "population (reads_of c OR writes_of c) =
    card {k. k < 16 \<and> (chunk_bit 0 c k \<or> chunk_bit 1 c k)}"
  by (subst population_even) (auto simp: chunk_bits)

lemma population_conflicts:
  "chunk_depends c d = card {k. k < 16 \<and> (chunk_bit 0 c k \<and> chunk_bit 1 d k \<or>
     chunk_bit 0 d k \<and> chunk_bit 1 c k \<or> chunk_bit 1 c k \<and> chunk_bit 1 d k)}" (is "_ = card ?S")
proof (cases "population (reads_of c OR writes_of c) = 0")
  case True
  then have "?S = {}" by (auto simp: population_both)
  then have "card ?S = 0" by (simp only: card.empty)
  then show ?thesis using True by (simp add: chunk_depends_def Let_def)
next
  case False
  then show ?thesis unfolding chunk_depends_def Let_def
    by (simp del: One_nat_def) (subst population_even; auto simp: chunk_bits conj_commute disj_assoc)
qed

lemma upt_sum_list: "sum_list (map f [0..<n]) = (\<Sum>i<n. f i :: nat)"
  by (simp add: sum_list_sum_nth atLeast0LessThan)

lemma touched_bytes_where: "touched f s = bytes_where (\<lambda>b r i k. chunk_bit f (bmap r ! i) k) s"
  by (simp add: touched_def bytes_where_def)

lemma range_size_card: "range_size r = (\<Sum>i<2. card {k. k < 16 \<and> (chunk_bit 0 (bmap r ! i) k \<or> chunk_bit 1 (bmap r ! i) k)})"
  by (simp add: range_size_def upt_sum_list population_both)

lemma range_depends_card: "range_depends r q = (\<Sum>i<2. card {k. k < 16 \<and>
    (chunk_bit 0 (bmap r ! i) k \<and> chunk_bit 1 (bmap q ! i) k \<or>
     chunk_bit 0 (bmap q ! i) k \<and> chunk_bit 1 (bmap r ! i) k \<or> chunk_bit 1 (bmap r ! i) k \<and> chunk_bit 1 (bmap q ! i) k)})"
  by (simp add: range_depends_def upt_sum_list population_conflicts)

lemma size_card: "ws_ok (ws_set w) \<Longrightarrow> ws_size w = card (read_set w \<union> write_set w)"
proof -
  assume ok: "ws_ok (ws_set w)"
  have "read_set w \<union> write_set w = bytes_where (\<lambda>b r i k. chunk_bit 0 (bmap r ! i) k \<or> chunk_bit 1 (bmap r ! i) k) (ws_set w)"
    by (auto simp: read_set_def write_set_def touched_def bytes_where_def)
  then show ?thesis by (simp only: card_bytes_where[OF ok] ws_size_def range_size_card)
qed

lemma rsize_card: "ws_ok (ws_set w) \<Longrightarrow> ws_rsize w = card (read_set w)"
  by (simp only: read_set_def touched_bytes_where card_bytes_where ws_rsize_def upt_sum_list population_reads set_consts)

lemma wsize_card: "ws_ok (ws_set w) \<Longrightarrow> ws_wsize w = card (write_set w)"
  by (simp only: write_set_def touched_bytes_where card_bytes_where ws_wsize_def upt_sum_list population_writes set_consts)

lemma skip_other:
  assumes "\<forall>x\<in>set s. b < fst x"
  shows "map (depends_on ((b, r) # t)) s = map (depends_on t) s"
    "map (size_before ((b, r) # t)) s = map (size_before t) s"
  using assms by (auto simp: depends_on_def size_before_def intro!: map_cong)

lemma compare_loop_sums:
  assumes "omap_inv s" "omap_inv t"
  shows "compare_loop s t d z =
    (d + sum_list (map (depends_on t) s), z + sum_list (map (size_before t) s))"
  using assms
proof (induction s t d z rule: compare_loop.induct)
  case (1 a r1 s b r2 t d z)
  have lt: "\<forall>x\<in>set s. a < fst x" "\<forall>x\<in>set t. b < fst x" and inv: "omap_inv s" "omap_inv t"
    using "1.prems" by (auto simp: omap_inv_Cons)
  consider "a < b" | "b < a" | "a = b" by fastforce
  then show ?case
  proof cases
    assume ab: "a < b"
    then have "depends_on ((b, r2) # t) (a, r1) = 0" "size_before ((b, r2) # t) (a, r1) = range_size r1"
      using lt by (auto simp: depends_on_def size_before_def map_of_eq_None_iff split: option.split
          dest!: map_of_SomeD)
    then show ?thesis using "1.IH"(1)[OF ab inv(1) "1.prems"(2)] ab by simp
  next
    assume ba: "b < a"
    then have n: "\<not> a < b" by simp
    from ba lt have "\<forall>x\<in>set ((a, r1) # s). b < fst x" by auto
    note e = skip_other[OF this]
    show ?thesis unfolding e using "1.IH"(2)[OF n ba "1.prems"(1) inv(2)] n ba by simp
  next
    assume ab: "a = b"
    then have n: "\<not> a < b" "\<not> b < a" by auto
    from ab lt have "\<forall>x\<in>set s. b < fst x" by auto
    note e = skip_other[OF this]
    have "depends_on ((b, r2) # t) (a, r1) = range_depends r1 r2" "size_before ((b, r2) # t) (a, r1) = range_size r1"
      using ab by (auto simp: depends_on_def size_before_def)
    then show ?thesis using "1.IH"(3)[OF n inv] n ab by (simp only: e list.map) simp
  qed
qed (auto simp: depends_on_def size_before_def comp_def)

lemma compare_cards:
  assumes w: "ws_ok (ws_set w)" and v: "ws_ok (ws_set v)"
  shows "compare w v =
    (card (read_set w \<inter> write_set v \<union> read_set v \<inter> write_set w \<union> write_set w \<inter> write_set v),
     card {a \<in> read_set w \<union> write_set w. \<exists>k \<in> fst ` set (ws_set v). range_base a \<le> k})"
proof -
  let ?D = "\<lambda>b r i k. \<exists>q. map_of (ws_set v) b = Some q \<and> (chunk_bit 0 (bmap r ! i) k \<and> chunk_bit 1 (bmap q ! i) k \<or>
     chunk_bit 0 (bmap q ! i) k \<and> chunk_bit 1 (bmap r ! i) k \<or> chunk_bit 1 (bmap r ! i) k \<and> chunk_bit 1 (bmap q ! i) k)"
  let ?S = "\<lambda>b r i k. (\<exists>k\<in>fst ` set (ws_set v). b \<le> k) \<and> (chunk_bit 0 (bmap r ! i) k \<or> chunk_bit 1 (bmap r ! i) k)"
  have "bytes_where ?D (ws_set w) = read_set w \<inter> write_set v \<union> read_set v \<inter> write_set w \<union> write_set w \<inter> write_set v"
    by (auto simp: bytes_where_def read_set_def write_set_def touched_def)
  moreover have "depends_on (ws_set v) = (\<lambda>(b, r). \<Sum>i<2. card {k. k < 16 \<and> ?D b r i k})"
    by (auto simp: depends_on_def fun_eq_iff range_depends_card split: option.splits)
  moreover have "bytes_where ?S (ws_set w) = {a \<in> read_set w \<union> write_set w. \<exists>k \<in> fst ` set (ws_set v). range_base a \<le> k}"
    by (auto simp: bytes_where_def read_set_def write_set_def touched_def)
  moreover have "size_before (ws_set v) = (\<lambda>(b, r). \<Sum>i<2. card {k. k < 16 \<and> ?S b r i k})"
    by (auto simp: size_before_def fun_eq_iff range_size_card)
  ultimately show ?thesis using compare_loop_sums[of "ws_set w" "ws_set v" 0 0] w v
      card_bytes_where[OF w, of ?D] card_bytes_where[OF w, of ?S]
    by (simp only: compare_def ws_ok_def) simp
qed

lemma chunk_hits_from:
  "j \<le> 16 \<Longrightarrow> chunk_hits b i j (drop_bit (2 * j) reads) (drop_bit (2 * j) writes) =
     concat (map (hit b i reads writes) [j..<16])"
proof (induction "16 - j" arbitrary: j)
  case 0 then show ?case by (subst chunk_hits.simps) simp
next
  case (Suc n)
  then have j: "j < 16" by simp
  have one: "(x AND 1 \<noteq> 0) = bit x 0" for x :: set_chunk by (simp add: bit_0 and_one_eq odd_iff_mod_2_eq_one)
  have "chunk_hits b i (Suc j) (drop_bit 2 (drop_bit (2 * j) reads)) (drop_bit 2 (drop_bit (2 * j) writes))
      = concat (map (hit b i reads writes) [Suc j..<16])"
    using Suc.hyps(1)[of "Suc j"] Suc.hyps(2) by (simp add: add.commute)
  then show ?case using j
    by (subst chunk_hits.simps) (simp add: one upt_conv_Cons hit_def bit_drop_bit_eq)
qed

lemma range_hits_eq: "range_hits e = concat (map (\<lambda>i. concat (map (hit (fst e) i (reads_of (bmap (snd e) ! i))
    (writes_of (bmap (snd e) ! i))) [0..<16])) [0..<2])"
  using chunk_hits_from[of 0] by (simp add: range_hits_def)

lemma distinct_concat_map:
  assumes "distinct xs" "\<And>x. x \<in> set xs \<Longrightarrow> distinct (map f (g x))"
    "\<And>x y. x \<in> set xs \<Longrightarrow> y \<in> set xs \<Longrightarrow> x \<noteq> y \<Longrightarrow> f ` set (g x) \<inter> f ` set (g y) = {}"
  shows "distinct (map f (concat (map g xs)))"
  using assms
proof (induction xs)
  case (Cons a xs)
  have "f ` set (g a) \<inter> f ` set (g y) = {}" if "y \<in> set xs" for y
    using Cons.prems that by (intro Cons.prems(3)) auto
  then show ?case using Cons by auto
qed simp

lemma hit_key: "range_base b = b \<Longrightarrow> i < 2 \<Longrightarrow> j < 16 \<Longrightarrow> (a, v) \<in> set (hit b i reads writes j) \<longleftrightarrow>
   range_base a = b \<and> range_off a div 16 = i \<and> range_off a mod 16 = 15 - j \<and> (bit reads (2 * j) \<or> bit writes (2 * j))
   \<and> v = (if bit reads (2 * j) then 1 else 0) + (if bit writes (2 * j) then 2 else 0)"
proof -
  assume h: "range_base b = b" "i < 2" "j < 16"
  have "a = b + of_nat (16 * i + (15 - j)) \<longleftrightarrow> range_base a = b \<and> range_off a div 16 = i \<and> range_off a mod 16 = 15 - j"
  proof
    assume r: "range_base a = b \<and> range_off a div 16 = i \<and> range_off a mod 16 = 15 - j"
    then have "range_off a = 16 * i + (15 - j)" using mult_div_mod_eq[of 16 "range_off a"] by simp
    then show "a = b + of_nat (16 * i + (15 - j))" using range_split[of a] r by simp
  qed (use byte_at[OF h(1,2), of "15 - j"] in \<open>auto simp del: of_nat_add of_nat_mult\<close>)
  then show ?thesis unfolding hit_def by (auto simp del: of_nat_add of_nat_mult)
qed

lemma in_range_hits:
  assumes "range_base b = b"
  shows "(a, v) \<in> set (range_hits (b, r)) \<longleftrightarrow> range_base a = b \<and>
    (let c = bmap r ! (range_off a div 16); k = range_off a mod 16 in
      (chunk_bit 0 c k \<or> chunk_bit 1 c k) \<and>
      v = (if chunk_bit 0 c k then 1 else 0) + (if chunk_bit 1 c k then 2 else 0))" (is "?L \<longleftrightarrow> ?R")
proof -
  define i where "i = range_off a div 16"
  define j where "j = 15 - range_off a mod 16"
  have ij: "i < 2" "j < 16" "range_off a mod 16 = 15 - j" using range_off_div[of a] by (auto simp: i_def j_def)
  have "?L \<longleftrightarrow> (\<exists>i<2. \<exists>j<16. (a, v) \<in> set (hit b i (reads_of (bmap r ! i)) (writes_of (bmap r ! i)) j))"
    by (simp add: range_hits_eq Bex_def)
  also have "\<dots> \<longleftrightarrow> (a, v) \<in> set (hit b i (reads_of (bmap r ! i)) (writes_of (bmap r ! i)) j)"
  proof
    assume "\<exists>i<2. \<exists>j<16. (a, v) \<in> set (hit b i (reads_of (bmap r ! i)) (writes_of (bmap r ! i)) j)"
    then obtain i' j' where h: "i' < 2" "j' < 16" "(a, v) \<in> set (hit b i' (reads_of (bmap r ! i')) (writes_of (bmap r ! i')) j')"
      by blast
    then have "i' = i" "j' = j" using hit_key[OF assms h(1,2)] by (auto simp: i_def j_def)
    with h show "(a, v) \<in> set (hit b i (reads_of (bmap r ! i)) (writes_of (bmap r ! i)) j)" by simp
  qed (use ij in blast)
  also have "\<dots> \<longleftrightarrow> ?R" using ij by (simp add: hit_key[OF assms] Let_def chunk_bits flip: i_def)
  finally show ?thesis .
qed

lemma distinct_chunk_hits:
  assumes "range_base b = b" "i < 2"
  shows "distinct (map fst (concat (map (hit b i x y) [0..<16])))"
proof (rule distinct_concat_map)
  fix j j' :: nat assume "j \<in> set [0..<16]" "j' \<in> set [0..<16]" "j \<noteq> j'"
  then show "fst ` set (hit b i x y j) \<inter> fst ` set (hit b i x y j') = {}"
    by (auto simp: hit_key[OF assms])
qed (auto simp: hit_def)

lemma distinct_range_hits:
  assumes "range_base b = b"
  shows "distinct (map fst (range_hits (b, r)))"
  unfolding range_hits_eq fst_conv snd_conv
proof (rule distinct_concat_map)
  fix i i' :: nat assume "i \<in> set [0..<2]" "i' \<in> set [0..<2]" "i \<noteq> i'"
  then show "fst ` set (concat (map (hit b i (reads_of (bmap r ! i)) (writes_of (bmap r ! i))) [0..<16])) \<inter>
      fst ` set (concat (map (hit b i' (reads_of (bmap r ! i')) (writes_of (bmap r ! i'))) [0..<16])) = {}"
    by (auto simp: hit_key[OF assms] simp del: upt_rec_numeral)
qed (simp_all only: set_upt atLeastLessThan_iff distinct_chunk_hits[OF assms] distinct_upt)

lemma in_ws_hits:
  assumes "ws_ok s"
  shows "(a, v) \<in> set (ws_hits s) \<longleftrightarrow> a \<in> touched 0 s \<union> touched 1 s \<and>
    v = (if a \<in> touched 0 s then 1 else 0) + (if a \<in> touched 1 s then 2 else 0)"
proof -
  have d: "distinct (map fst s)" using assms by (simp add: ws_ok_def omap_inv_distinct)
  have "(a, v) \<in> set (ws_hits s) \<longleftrightarrow> (\<exists>b r. (b, r) \<in> set s \<and> (a, v) \<in> set (range_hits (b, r)))"
    by (auto simp: ws_hits_def)
  also have "\<dots> \<longleftrightarrow> (\<exists>r. map_of s (range_base a) = Some r \<and> (a, v) \<in> set (range_hits (range_base a, r)))"
  proof -
    have "range_base b = b" if "(b, r) \<in> set s" for b r
      using assms that by (auto simp: ws_ok_def list_all_iff range_ok_def)
    then show ?thesis using d in_range_hits by (metis map_of_eq_Some_iff)
  qed
  also have "\<dots> \<longleftrightarrow> a \<in> touched 0 s \<union> touched 1 s \<and>
    v = (if a \<in> touched 0 s then 1 else 0) + (if a \<in> touched 1 s then 2 else 0)"
    by (cases "map_of s (range_base a)") (simp_all add: in_range_hits touched_def Let_def)
  finally show ?thesis .
qed

lemma distinct_ws_hits: "ws_ok s \<Longrightarrow> distinct (map fst (ws_hits s))"
proof -
  assume ok: "ws_ok s"
  then have al: "range_base (fst e) = fst e" if "e \<in> set s" for e
    using that by (auto simp: ws_ok_def list_all_iff range_ok_def)
  have key: "range_base a = fst e" if "e \<in> set s" "a \<in> fst ` set (range_hits e)" for e a
    using that(2) al[OF that(1)] in_range_hits[of "fst e" a _ "snd e"] by auto
  have "distinct s" "inj_on fst (set s)" using ok by (auto simp: ws_ok_def dest!: omap_inv_distinct simp: distinct_map)
  moreover have "distinct (map fst (range_hits e))" if "e \<in> set s" for e
    using al[OF that] distinct_range_hits[of "fst e" "snd e"] by simp
  moreover have "fst ` set (range_hits e) \<inter> fst ` set (range_hits e') = {}"
    if "e \<in> set s" "e' \<in> set s" "e \<noteq> e'" for e e'
  proof (rule ccontr)
    assume "fst ` set (range_hits e) \<inter> fst ` set (range_hits e') \<noteq> {}"
    then obtain a where "a \<in> fst ` set (range_hits e)" "a \<in> fst ` set (range_hits e')" by blast
    then have "fst e = fst e'" using key[OF that(1), of a] key[OF that(2), of a] by simp
    then show False using that \<open>inj_on fst (set s)\<close> by (auto dest: inj_onD)
  qed
  ultimately show ?thesis unfolding ws_hits_def by (intro distinct_concat_map) simp_all
qed
section \<open>Reading a log record back\<close>

lemma read_words_le: "read_words (length ws) (concat (map le_bytes32 ws) @ rest) = Some (map unat ws, rest)"
  by (induction ws) auto

lemma read_entries_log:
  "list_all range_ok s \<Longrightarrow> read_entries (length s) (concat (map log_record s) @ rest) =
     Some (map (\<lambda>(a, r). (unat (ucast a :: u32), map unat (bmap r))) s, rest)"
proof (induction s)
  case (Cons e s)
  obtain c0 c1 where c: "bmap (snd e) = [c0, c1]"
    using Cons.prems by (auto simp: range_ok_def numeral_2_eq_2 length_Suc_conv)
  have "read_words 3 (log_record e @ concat (map log_record s) @ rest) =
      Some ([unat (ucast (fst e) :: u32), unat c0, unat c1], concat (map log_record s) @ rest)"
    using read_words_le[of "[ucast (fst e), c0, c1]" "concat (map log_record s) @ rest"] c
    by (simp add: log_record_def numeral_3_eq_3)
  then show ?case using Cons c by (simp add: case_prod_beta)
qed simp

lemma raw_bytes_log: "raw_bytes (logWorkset w) =
    le_bytes32 (of_nat (length (ws_set w))) @ concat (map log_record (ws_set w))"
proof -
  have c: "concat (map (\<lambda>i. case i of Bytes bs \<Rightarrow> bs | _ \<Rightarrow> [])
      (concat (map (\<lambda>i. [Str '' '', Dec (uint (workset_index i))]) xs))) = []" for xs
    by (induction xs) auto
  have d: "concat (map (\<lambda>i. case i of Bytes bs \<Rightarrow> bs | _ \<Rightarrow> []) (map (\<lambda>e. Bytes (log_record e)) xs))
      = concat (map log_record xs)" for xs
    by (induction xs) auto
  show ?thesis unfolding raw_bytes_def logWorkset_def map_append concat_append c d by auto
qed

lemma grow_ok:
  assumes len: "0 \<le> sint len" "unat addr + nat (sint len) \<le> 2 ^ 64 - 32" and ok: "ws_ok (ws_set w)"
  shows "\<exists>s. grow addr len ty w = Some (w\<lparr>ws_set := s\<rparr>) \<and> ws_ok s \<and>
    (\<forall>f < 2. touched f s = touched f (ws_set w) \<union>
      {a. records ty f \<and> addr \<le> a \<and> unat a < unat addr + nat (sint len)})"
proof -
  have "(signed len :: u64) = of_nat (nat (sint len))" using len(1) by (simp add: of_nat_nat)
  then have e: "unat (addr + signed len) = unat addr + nat (sint len)"
    using len unat_add_of_nat[of addr "nat (sint len)"] by simp
  then obtain s where "grow_loop addr (addr + signed len) ty addr (ws_set w) = Some s" "ws_ok s"
      "\<forall>f < 2. touched f s = touched f (ws_set w) \<union> {a. records ty f \<and> addr \<le> a \<and> a < addr + signed len}"
    using grow_loop_correct[OF ok, of "addr + signed len" addr addr ty] len by auto
  then show ?thesis using e by (auto simp: grow_def word_less_nat_alt)
qed

section \<open>Traces of accesses\<close>

text \<open>
  What a client of a recorder of memory accesses relies on: recording an access that fits the
  address space returns, keeps the invariant and adds the bytes of the access to its read or
  write set.  The client's facts on whole traces follow.
\<close>

type_synonym access = "logical_address \<times> u32 \<times> memop_type"

definition access_bytes :: "access \<Rightarrow> logical_address set" where
  "access_bytes c = {a. fst c \<le> a \<and> unat a < unat (fst c) + nat (sint (fst (snd c)))}"

definition loads :: "access \<Rightarrow> logical_address set" where
  "loads c = (if snd (snd c) = Sim_Trans_Load then access_bytes c else {})"

definition stores :: "access \<Rightarrow> logical_address set" where
  "stores c = (if snd (snd c) = Sim_Trans_Store then access_bytes c else {})"

definition fits :: "access \<Rightarrow> bool" where
  "fits c \<longleftrightarrow> 0 \<le> sint (fst (snd c)) \<and> unat (fst c) + nat (sint (fst (snd c))) \<le> 2 ^ 64 - 32"

definition grow_access :: "access \<Rightarrow> WorkSet \<Rightarrow> WorkSet option" where
  "grow_access c w = grow (fst c) (fst (snd c)) (snd (snd c)) w"

fun grow_all :: "access list \<Rightarrow> WorkSet \<Rightarrow> WorkSet option" where
  "grow_all [] w = Some w"
| "grow_all (c # cs) w = (case grow_access c w of None \<Rightarrow> None | Some w' \<Rightarrow> grow_all cs w')"

locale access_recorder =
  fixes record_one :: "access \<Rightarrow> 'w \<Rightarrow> 'w option"
    and record_all :: "access list \<Rightarrow> 'w \<Rightarrow> 'w option"
    and rd wr :: "'w \<Rightarrow> logical_address set"
    and ok :: "'w \<Rightarrow> bool"
  assumes record_one_ok: "fits c \<Longrightarrow> ok w \<Longrightarrow> \<exists>w'. record_one c w = Some w' \<and> ok w' \<and>
      rd w' = rd w \<union> loads c \<and> wr w' = wr w \<union> stores c"
    and record_all_Nil: "record_all [] w = Some w"
    and record_all_Cons: "record_all (c # cs) w =
      (case record_one c w of None \<Rightarrow> None | Some w' \<Rightarrow> record_all cs w')"
begin

lemma record_all_ok:
  "\<forall>c \<in> set cs. fits c \<Longrightarrow> ok w \<Longrightarrow> \<exists>w'. record_all cs w = Some w' \<and> ok w' \<and>
     rd w' = rd w \<union> (\<Union>c \<in> set cs. loads c) \<and> wr w' = wr w \<union> (\<Union>c \<in> set cs. stores c)"
proof (induction cs arbitrary: w)
  case (Cons c cs)
  then obtain w1 where w1: "record_one c w = Some w1" "ok w1" "rd w1 = rd w \<union> loads c" "wr w1 = wr w \<union> stores c"
    using record_one_ok[of c w] by auto
  moreover obtain w2 where "record_all cs w1 = Some w2" "ok w2"
      "rd w2 = rd w1 \<union> (\<Union>c \<in> set cs. loads c)" "wr w2 = wr w1 \<union> (\<Union>c \<in> set cs. stores c)"
    using Cons.IH[of w1] Cons.prems(1) w1(2) by auto
  ultimately show ?case by (simp add: record_all_Cons Un_assoc)
qed (simp add: record_all_Nil)

lemma record_all_order:
  assumes "\<forall>c \<in> set cs. fits c" "ok w" "set cs = set ds"
  shows "\<exists>u v. record_all cs w = Some u \<and> record_all ds w = Some v \<and> rd u = rd v \<and> wr u = wr v"
proof -
  obtain u where "record_all cs w = Some u" "rd u = rd w \<union> (\<Union>c \<in> set cs. loads c)"
      "wr u = wr w \<union> (\<Union>c \<in> set cs. stores c)"
    using record_all_ok[OF assms(1,2)] by blast
  moreover obtain v where "record_all ds w = Some v" "rd v = rd w \<union> (\<Union>c \<in> set ds. loads c)"
      "wr v = wr w \<union> (\<Union>c \<in> set ds. stores c)"
    using record_all_ok[OF assms(1)[unfolded assms(3)] assms(2)] by blast
  ultimately show ?thesis using assms(3) by simp
qed

end

interpretation ws_recorder: access_recorder grow_access grow_all read_set write_set "\<lambda>w. ws_ok (ws_set w)"
proof unfold_locales
  fix c and w :: WorkSet assume h: "fits c" "ws_ok (ws_set w)"
  obtain s where "grow_access c w = Some (w\<lparr>ws_set := s\<rparr>)" "ws_ok s"
      "\<forall>f < 2. touched f s = touched f (ws_set w) \<union> {a. records (snd (snd c)) f \<and> a \<in> access_bytes c}"
    using grow_ok[of "fst (snd c)" "fst c" w "snd (snd c)"] h
    unfolding fits_def grow_access_def access_bytes_def mem_Collect_eq by blast
  then show "\<exists>w'. grow_access c w = Some w' \<and> ws_ok (ws_set w') \<and>
      read_set w' = read_set w \<union> loads c \<and> write_set w' = write_set w \<union> stores c"
    by (auto simp: read_set_def write_set_def loads_def stores_def records_def)
qed auto

section \<open>Properties\<close>

text \<open>The bit-clearing loop \<open>population\<close> returns the number of set bits of a chunk.\<close>

theorem population_counts_bits: "population x = card {i. bit x i}"
  by (rule population_card)

text \<open>
  C1. \<open>grow\<close> returns, keeps the working set well formed, adds exactly the bytes
  \<open>[addr, addr + len)\<close> to the read set (load) or write set (store), adds nothing for another
  operation type, and changes nothing else.  The length is not negative and the access ends at
  least one range below the top of the address space.
\<close>

theorem grow_records:
  assumes "0 \<le> sint len" "unat addr + nat (sint len) \<le> 2 ^ 64 - 32" "ws_ok (ws_set w)"
  shows "\<exists>w'. grow addr len ty w = Some w' \<and> ws_ok (ws_set w') \<and> w' = w\<lparr>ws_set := ws_set w'\<rparr> \<and>
    read_set w' = read_set w \<union> (if ty = Sim_Trans_Load
      then {a. addr \<le> a \<and> unat a < unat addr + nat (sint len)} else {}) \<and>
    write_set w' = write_set w \<union> (if ty = Sim_Trans_Store
      then {a. addr \<le> a \<and> unat a < unat addr + nat (sint len)} else {})"
proof -
  obtain s where "grow addr len ty w = Some (w\<lparr>ws_set := s\<rparr>)" "ws_ok s"
    "\<forall>f < 2. touched f s = touched f (ws_set w) \<union>
      {a. records ty f \<and> addr \<le> a \<and> unat a < unat addr + nat (sint len)}"
    using grow_ok[OF assms] by blast
  then show ?thesis by (auto simp: read_set_def write_set_def records_def)
qed

theorem grow_records_witness:
  "\<exists>w'. grow 0x1003 6 Sim_Trans_Store (WorkSet_new 0 1 0 2 0) = Some w' \<and> ws_ok (ws_set w') \<and>
    read_set w' = {} \<and> write_set w' = {a. 0x1003 \<le> a \<and> unat a < 0x1009}"
proof -
  have e: "read_set (WorkSet_new 0 1 0 2 0) = {}" "write_set (WorkSet_new 0 1 0 2 0) = {}"
    by (simp_all add: WorkSet_new_def read_set_def write_set_def touched_def)
  have "ws_ok (ws_set (WorkSet_new 0 1 0 2 0))" by (simp add: WorkSet_new_def ws_ok_def)
  from grow_records[of 6 "0x1003", OF _ _ this, of Sim_Trans_Store] show ?thesis by (simp add: e) blast
qed

text \<open>
  C23. Recording a whole trace of accesses returns, and the read (write) set of the result is the
  union of the loads (stores) of the trace: the order and multiplicity of the accesses do not
  matter.
\<close>

theorem trace_footprint:
  assumes "\<forall>c \<in> set cs. fits c" "ws_ok (ws_set w)" "set cs = set ds"
  shows "\<exists>u v. grow_all cs w = Some u \<and> grow_all ds w = Some v \<and>
    read_set u = read_set w \<union> (\<Union>c \<in> set cs. loads c) \<and>
    write_set u = write_set w \<union> (\<Union>c \<in> set cs. stores c) \<and>
    read_set v = read_set u \<and> write_set v = write_set u"
proof -
  obtain u where u: "grow_all cs w = Some u" "read_set u = read_set w \<union> (\<Union>c \<in> set cs. loads c)"
      "write_set u = write_set w \<union> (\<Union>c \<in> set cs. stores c)"
    using ws_recorder.record_all_ok[OF assms(1,2)] by blast
  moreover obtain v where "grow_all ds w = Some v" "read_set u = read_set v" "write_set u = write_set v"
    using ws_recorder.record_all_order[OF assms] u(1) by auto
  ultimately show ?thesis by simp
qed

theorem trace_footprint_witness:
  "\<exists>u v. grow_all [(16, 4, Sim_Trans_Load), (40, 1, Sim_Trans_Store)] (WorkSet_new 0 1 0 2 0) = Some u \<and>
    grow_all [(40, 1, Sim_Trans_Store), (16, 4, Sim_Trans_Load)] (WorkSet_new 0 1 0 2 0) = Some v \<and>
    read_set v = read_set u \<and> write_set v = write_set u"
proof -
  let ?cs = "[(16, 4, Sim_Trans_Load), (40, 1, Sim_Trans_Store)] :: access list"
  have f: "\<forall>c \<in> set ?cs. fits c" by (simp add: fits_def)
  have w: "ws_ok (ws_set (WorkSet_new 0 1 0 2 0))" by (simp add: WorkSet_new_def ws_ok_def)
  have "set ?cs = set [(40, 1, Sim_Trans_Store), (16, 4, Sim_Trans_Load)]" by auto
  from trace_footprint[OF f w this] show ?thesis by blast
qed

text \<open>
  C26. The size queries of a well-formed working set are the numbers of accessed, of read and of
  written bytes.
\<close>

theorem sizes_count_bytes:
  assumes "ws_ok (ws_set w)"
  shows "ws_size w = card (read_set w \<union> write_set w) \<and> ws_rsize w = card (read_set w)
    \<and> ws_wsize w = card (write_set w)"
  using assms by (simp add: size_card rsize_card wsize_card)

theorem sizes_count_bytes_witness:
  "let w = (WorkSet_new 0 1 0 2 0)\<lparr>ws_set := [(0x1000, ByteRange [7, 0])]\<rparr> in
    card (read_set w \<union> write_set w) = 2 \<and> card (read_set w) = 2 \<and> card (write_set w) = 1"
proof -
  let ?w = "(WorkSet_new 0 1 0 2 0)\<lparr>ws_set := [(0x1000, ByteRange [7, 0])]\<rparr>"
  have "ws_ok (ws_set ?w)" by code_simp
  moreover have "ws_size ?w = 2" "ws_rsize ?w = 2" "ws_wsize ?w = 1" by code_simp+
  ultimately show ?thesis using sizes_count_bytes[of ?w] by (simp add: Let_def)
qed



text \<open>
  C28. \<open>get_workset\<close> fills its dictionary with one entry per accessed byte and nothing else, the
  value 1, 2 or 3 telling read, written or both; the number of entries is the number the
  dictionary was allocated with, so no write is out of bounds.
\<close>

theorem get_workset_entries:
  assumes "ws_ok (ws_set w)"
  shows "\<exists>kvs. get_workset w = Sim_Val_Dict (map (\<lambda>(a, v). (Sim_Val_Integer (uint a), Sim_Val_Integer (int v))) kvs) \<and>
    distinct (map fst kvs) \<and> length kvs = ws_size w \<and>
    set kvs = (\<lambda>a. (a, (if a \<in> read_set w then 1 else 0) + (if a \<in> write_set w then 2 else 0))) `
      (read_set w \<union> write_set w)"
proof (intro exI conjI)
  have d: "distinct (map fst (ws_hits (ws_set w)))" using assms by (rule distinct_ws_hits)
  show s: "set (ws_hits (ws_set w)) = (\<lambda>a. (a, (if a \<in> read_set w then 1 else 0) + (if a \<in> write_set w then 2 else 0))) `
      (read_set w \<union> write_set w)"
    using in_ws_hits[OF assms] by (auto simp: read_set_def write_set_def)
  have "fst ` set (ws_hits (ws_set w)) = read_set w \<union> write_set w" unfolding s by (simp add: image_image)
  then show "length (ws_hits (ws_set w)) = ws_size w"
    using distinct_card[OF d] size_card[OF assms] by simp
qed (use assms in \<open>simp_all add: get_workset_def distinct_ws_hits\<close>)

theorem get_workset_entries_witness:
  "let w = (WorkSet_new 0 1 0 2 0)\<lparr>ws_set := [(0x1000, ByteRange [7, 0])]\<rparr> in
    get_workset w = Sim_Val_Dict [(Sim_Val_Integer 0x100F, Sim_Val_Integer 3), (Sim_Val_Integer 0x100E, Sim_Val_Integer 1)]
    \<and> (\<exists>kvs :: (logical_address \<times> nat) list. get_workset w = Sim_Val_Dict (map (\<lambda>(a, v). (Sim_Val_Integer (uint a), Sim_Val_Integer (int v))) kvs) \<and>
       distinct (map fst kvs) \<and> length kvs = 2)"
proof -
  let ?w = "(WorkSet_new 0 1 0 2 0)\<lparr>ws_set := [(0x1000, ByteRange [7, 0])]\<rparr>"
  have ok: "ws_ok (ws_set ?w)" by code_simp
  have g: "get_workset ?w = Sim_Val_Dict [(Sim_Val_Integer 0x100F, Sim_Val_Integer 3), (Sim_Val_Integer 0x100E, Sim_Val_Integer 1)]"
    "ws_size ?w = 2" by code_simp+
  obtain kvs :: "(logical_address \<times> nat) list" where "get_workset ?w = Sim_Val_Dict (map (\<lambda>(a, v). (Sim_Val_Integer (uint a), Sim_Val_Integer (int v))) kvs)"
      "distinct (map fst kvs)" "length kvs = ws_size ?w"
    using get_workset_entries[OF ok] by blast
  then show ?thesis unfolding Let_def using g by auto
qed

text \<open>
  C30. The binary part of what \<open>logWorkset\<close> writes is read back by the analysis script as the
  ranges of the working set, in order, with their two chunks; addresses survive when they are
  below 4 GiB, the log keeping 32 bits of them.
\<close>

theorem log_read_back:
  assumes "ws_ok (ws_set w)" "length (ws_set w) < 2 ^ 32" "\<forall>(a, r) \<in> set (ws_set w). unat a < 2 ^ 32"
  shows "read_address_set (raw_bytes (logWorkset w) @ rest) =
    Some (map (\<lambda>(a, r). (unat a, map unat (bmap r))) (ws_set w), rest)"
proof -
  have n: "unat (of_nat (length (ws_set w)) :: u32) = length (ws_set w)"
    using assms(2) by (simp add: unat_of_nat take_bit_eq_mod)
  have a: "unat (ucast a :: u32) = unat a" if "(a, r) \<in> set (ws_set w)" for a r
    using assms(3) that by (auto simp: unsigned_ucast_eq take_bit_eq_mod)
  have "map (\<lambda>(a, r). (unat (ucast a :: u32), map unat (bmap r))) (ws_set w) =
      map (\<lambda>(a, r). (unat a, map unat (bmap r))) (ws_set w)"
    using a by (auto intro!: map_cong)
  then show ?thesis
    using read_words_le[of "[of_nat (length (ws_set w))]"] read_entries_log[of "ws_set w" rest] assms(1) n
    by (simp add: read_address_set_def raw_bytes_log ws_ok_def)
qed

theorem log_read_back_witness:
  "read_address_set (raw_bytes (logWorkset ((WorkSet_new 0 1 0 2 0)\<lparr>ws_set := [(0x1000, ByteRange [7, 9])]\<rparr>)) @ [10]) =
    Some ([(0x1000, [7, 9])], [10])"
proof -
  let ?w = "(WorkSet_new 0 1 0 2 0)\<lparr>ws_set := [(0x1000, ByteRange [7, 9])]\<rparr>"
  have "ws_ok (ws_set ?w)" by code_simp
  then show ?thesis using log_read_back[of ?w "[10]"] by simp
qed
end
