(* ===== verification/LockState.thy ===== *)
theory LockState
  imports WorkSet_Count
begin

text \<open>
  The records of the lock tracker (\<^verbatim>\<open>sync_char/sync_char.cc\<close>) and the functions that work on one
  lock: running averages, acquisition records, the classification of a new lock value into a lock
  state (\<open>update_current_lock_state\<close>) and the detection of read locks and unlocks.  The simulated
  machine a callback looks at (registers, memory, cycle count, current process, current
  transaction) is the record \<open>env\<close>; a \<^verbatim>\<open>long double\<close> is a real number.
\<close>

section \<open>Constants\<close>

definition F_LOCK :: u32 where [const_defs]: "F_LOCK = 0x1"
definition F_UNLOCK :: u32 where [const_defs]: "F_UNLOCK = 0x2"
definition F_TRYLOCK :: u32 where [const_defs]: "F_TRYLOCK = 0x4"
definition F_INLINED :: u32 where [const_defs]: "F_INLINED = 0x8"
definition F_EAX :: u32 where [const_defs]: "F_EAX = 0x10"
definition F_TIME_RET :: u32 where [const_defs]: "F_TIME_RET = 0x20"
definition F_NOADDR :: u32 where [const_defs]: "F_NOADDR = 0x40"

definition L_SEMA :: u32 where [const_defs]: "L_SEMA = 1"
definition L_RSEMA :: u32 where [const_defs]: "L_RSEMA = 2"
definition L_WSEMA :: u32 where [const_defs]: "L_WSEMA = 3"
definition L_SPIN :: u32 where [const_defs]: "L_SPIN = 4"
definition L_RSPIN :: u32 where [const_defs]: "L_RSPIN = 5"
definition L_WSPIN :: u32 where [const_defs]: "L_WSPIN = 6"
definition L_MUTEX :: u32 where [const_defs]: "L_MUTEX = 7"
definition L_COMPL :: u32 where [const_defs]: "L_COMPL = 8"
definition L_RCU :: u32 where [const_defs]: "L_RCU = 9"
definition L_FUTEX :: u32 where [const_defs]: "L_FUTEX = 10"
definition L_CXA :: u32 where [const_defs]: "L_CXA = 11"
definition L_CXE :: u32 where [const_defs]: "L_CXE = 12"

text \<open>No owner, and the first kernel address.\<close>

definition NO_SPID :: spid_t where [const_defs]: "NO_SPID = - 1"
definition KERNEL_BASE :: u32 where [const_defs]: "KERNEL_BASE = 0xc0000000"
definition AS_COUNT :: int where [const_defs]: "AS_COUNT = 4096"
definition RUNQUEUE_NAME :: string where "RUNQUEUE_NAME = ''runqueue_t->lock''"

datatype lkst = LKST_OPEN | LKST_RLK | LKST_WRLK | LKST_CXA

primrec lkst_code :: "lkst \<Rightarrow> int" where
  "lkst_code LKST_OPEN = 1"
| "lkst_code LKST_RLK = 2"
| "lkst_code LKST_WRLK = 3"
| "lkst_code LKST_CXA = 4"

section \<open>Records\<close>

record ra =
  ra_lock_off :: u32
  ra_lock_reg :: u32
  ra_lock_id :: u32
  ra_flags :: u32
  ra_label :: string

record avg_var =
  av_cnt :: u32
  av_sum :: ldouble
  av_xsqr :: ldouble

record caller =
  ca_count :: u64
  ca_q_count :: u64
  ca_contended :: "WorksetID list"
  ca_useless_release :: u32
  ca_hold_av :: "avg_var list"
  ca_acq_av :: "avg_var list"

record spid_info =
  si_req_cyc :: cycles
  si_acq_cyc :: cycles
  si_acq_ra :: u32
  si_cnt :: int

record lock =
  lk_state :: lkst
  lk_lkval :: u32
  lk_queue :: bool
  lk_lock_id :: u32
  lk_addr :: u32
  lk_generation :: int
  lk_workset_count :: int
  lk_spid_owner :: spid_t
  lk_readers :: "(spid_t \<times> int) list"
  lk_aggregate :: WorkSet
  lk_acq :: "(spid_t \<times> spid_info) list"
  lk_callers :: "(u32 \<times> caller) list"
  lk_name :: string
  lk_nest_av :: "avg_var list"

text \<open>\<open>ti_new_state\<close> is \<open>None\<close> while it holds the fill pattern \<^verbatim>\<open>0xAFAF\<close>.\<close>

record transition_info =
  ti_spid :: spid_t
  ti_lkval :: u32
  ti_old_lkval :: u32
  ti_lock_ra :: u32
  ti_caller_ra :: u32
  ti_lock_addr :: u32
  ti_lock_id :: u32
  ti_old_state :: lkst
  ti_new_state :: "lkst option"
  ti_spid_owner :: spid_t
  ti_flags :: u32
  ti_read_lock :: bool
  ti_read_unlock :: bool
  ti_now_cyc :: cycles
  ti_bp_cyc :: cycles
  ti_bp_lkval :: u32

record env =
  ev_cpu :: nat
  ev_processor :: int
  ev_now :: cycles
  ev_spid :: spid_t
  ev_reg :: "reg \<Rightarrow> u32"
  ev_regnum :: "u32 \<Rightarrow> u32"
  ev_mem :: "segment \<Rightarrow> logical_address \<Rightarrow> u32"
  ev_txmem :: "segment \<Rightarrow> logical_address \<Rightarrow> u32"
  ev_txid :: int
  ev_stack :: "u64 list"

definition has :: "u32 \<Rightarrow> u32 \<Rightarrow> bool" where
  "has flags f \<longleftrightarrow> flags AND f \<noteq> 0"

section \<open>Averages and acquisition records\<close>

definition av_zero :: avg_var where
  "av_zero = \<lparr>av_cnt = 0, av_sum = 0, av_xsqr = 0\<rparr>"

definition zero_av :: "avg_var list" where
  "zero_av = [av_zero, av_zero, av_zero]"

definition av_add :: "ldouble \<Rightarrow> avg_var \<Rightarrow> avg_var" where
  "av_add v a = a\<lparr>av_sum := av_sum a + v, av_xsqr := av_xsqr a + v * v, av_cnt := av_cnt a + 1\<rparr>"

definition update_avgs :: "avg_var list \<Rightarrow> ldouble \<Rightarrow> ldouble \<Rightarrow> avg_var list" where
  "update_avgs av v split =
     (let av0 = av[0 := av_add v (av ! 0)];
          i = (if v < split then 1 else 2)
      in av0[i := av_add v (av0 ! i)])"

text \<open>Returns the averages and what was printed to the statistics stream.\<close>

definition update_cyc_avgs :: "avg_var list \<Rightarrow> cycles \<Rightarrow> cycles \<Rightarrow> avg_var list \<times> ostream" where
  "update_cyc_avgs av now_cyc start_cyc =
     (let cyc = (if start_cyc = 0 then 1 else now_cyc - start_cyc);
          cyc' = (if sint cyc < 0 then 1 else cyc)
      in (update_avgs av (of_int (sint cyc')) 1000,
          if start_cyc = 0 then [Str (''XXX update_Avg'' @ NL)] else []))"

definition caller_zero :: caller where
  "caller_zero = \<lparr>ca_count = 0, ca_q_count = 0, ca_contended = [], ca_useless_release = 0,
     ca_hold_av = zero_av, ca_acq_av = zero_av\<rparr>"

definition zero_spid_info :: spid_info where
  "zero_spid_info = \<lparr>si_req_cyc = 0, si_acq_cyc = 0, si_acq_ra = 0, si_cnt = 0\<rparr>"

definition print_log :: "env \<Rightarrow> string \<Rightarrow> int \<Rightarrow> transition_info \<Rightarrow> ostream" where
  "print_log e str param t =
     [Str str, Dec param, Str '' spid '', Dec (uint (ti_spid t)), Str '' lkval '', Hex (ucast (ti_lkval t)),
      Str '' olkval '', Hex (ucast (ti_old_lkval t)), Str '' bp_lkval '', Hex (ucast (ti_bp_lkval t)),
      Str '' lk_ra '', Hex (ucast (ti_lock_ra t))] @
     (if ti_lock_ra t = ti_caller_ra t then [] else [Str '' cal_ra '', Hex (ucast (ti_caller_ra t))]) @
     [Str (NL @ TAB @ ''lk_addr ''), Hex (ucast (ti_lock_addr t)), Str '' lkid '', Dec (uint (ti_lock_id t)),
      Str '' oldst '', Dec (lkst_code (ti_old_state t)),
      Str '' newst '', Dec (case ti_new_state t of None \<Rightarrow> - 20561 | Some s \<Rightarrow> lkst_code s),
      Str '' owner '', Dec (sint (ti_spid_owner t)), Str '' cpu '', Dec (int (ev_cpu e)),
      Str '' now '', Dec (sint (ev_now e)), Endl]"

definition OSA_stack_trace :: "env \<Rightarrow> ostream" where
  "OSA_stack_trace e = [Str ''CPU '', Dec (int (ev_cpu e)), Str '', Stack trace:'', Endl] @
     concat (map (\<lambda>pc. [Str ''  '', Hex pc, Endl]) (ev_stack e))"

definition unlock_spid_info :: "env \<Rightarrow> transition_info \<Rightarrow> spid_info \<Rightarrow> spid_info \<times> ostream" where
  "unlock_spid_info e t spi =
     (let spi1 = spi\<lparr>si_cnt := si_cnt spi - 1\<rparr>;
          spi2 = (if si_cnt spi1 = 0 then spi1\<lparr>si_acq_cyc := 0, si_acq_ra := 0\<rparr> else spi1)
      in if si_cnt spi2 < 0 then (spi2\<lparr>si_cnt := 0\<rparr>, print_log e ''XXX spi->cnt '' (si_cnt spi2) t)
         else (spi2, []))"

definition lock_spid_info :: "transition_info \<Rightarrow> spid_info \<Rightarrow> spid_info" where
  "lock_spid_info t spi =
     (let spi1 = (if ti_new_state t \<noteq> Some LKST_CXA
                  then (let spi' = spi\<lparr>si_cnt := si_cnt spi + 1\<rparr> in
                        if si_cnt spi = 0 then spi'\<lparr>si_acq_cyc := ti_now_cyc t, si_acq_ra := ti_caller_ra t\<rparr>
                        else spi')
                  else spi)
      in spi1\<lparr>si_req_cyc := 0\<rparr>)"

section \<open>Lock values and states\<close>

definition set_st :: "lkst \<Rightarrow> lock \<Rightarrow> lock" where
  "set_st s lk = lk\<lparr>lk_state := s\<rparr>"

definition sema_state :: "transition_info \<Rightarrow> lock \<Rightarrow> lock" where
  "sema_state t lk =
     (if sint (ti_lkval t) < 1
      then (set_st LKST_WRLK lk)\<lparr>lk_queue := ti_lock_id t = L_MUTEX \<or> ti_lock_id t = L_SEMA\<rparr>
      else set_st LKST_OPEN lk)"

definition rwsem_state :: "transition_info \<Rightarrow> lock \<Rightarrow> lock" where
  "rwsem_state t lk =
     (if ti_lkval t = 0 then set_st LKST_OPEN lk
      else if ti_lkval t = 0xFFFF0001 then set_st LKST_WRLK lk
      else if sint (ti_lkval t) > 0 then set_st LKST_RLK lk
      else (set_st (ti_old_state t) lk)\<lparr>lk_queue := True\<rparr>)"

definition spin_state :: "env \<Rightarrow> transition_info \<Rightarrow> lock \<Rightarrow> lock \<times> ostream" where
  "spin_state e t lk =
     (let v = sint (ti_lkval t) in
      if v = 1 then (set_st LKST_OPEN lk, [])
      else if v = 0 \<or> (v > 1 \<and> v \<le> 255)
      then (if v > 1 \<and> v \<le> 255 then (set_st LKST_WRLK lk)\<lparr>lk_queue := True\<rparr> else set_st LKST_WRLK lk, [])
      else (lk, print_log e ''XXX slock val'' 0 t))"

definition rwspin_state :: "env \<Rightarrow> transition_info \<Rightarrow> lock \<Rightarrow> lock \<times> ostream" where
  "rwspin_state e t lk =
     (let v = sint (ti_lkval t) in
      if has (ti_flags t) F_UNLOCK then
        (if ti_lock_id t = L_RSPIN
         then (if v mod 0x01000000 = 0 then set_st LKST_OPEN lk else set_st LKST_RLK lk, [])
         else (set_st LKST_OPEN lk,
               if v \<le> sint (ti_bp_lkval t)
               then print_log e ''XXX write spinlock unlock yielded a lower value!!!'' 0 t else []))
      else
        (if v = 0x01000000 then (set_st LKST_OPEN lk, [])
         else if v = 0 then (set_st LKST_WRLK lk, [])
         else if v > 0 then (set_st LKST_RLK lk, [])
         else ((set_st (ti_old_state t) lk)\<lparr>lk_queue := True\<rparr>, [])))"

definition cxa_state :: "env \<Rightarrow> transition_info \<Rightarrow> lock \<Rightarrow> lock \<times> ostream" where
  "cxa_state e t lk =
     (if ev_reg e EDX \<noteq> 0 then
        (if ev_reg e EBX = ev_reg e ECX
         then (set_st LKST_CXA lk,
               if ti_lkval t \<noteq> 1 \<or> ti_old_state t \<noteq> LKST_OPEN
               then print_log e ''XXX cx_exclusive result/lkval/old_state inconsistency!'' 0 t else [])
         else (set_st LKST_WRLK lk,
               if ti_lkval t \<noteq> 0
               then print_log e ''XXX cx_exclusive result/lkval inconsistency!'' 0 t else []))
      else (lk, []))"

definition cxe_state :: "env \<Rightarrow> transition_info \<Rightarrow> lock \<Rightarrow> lock \<times> ostream" where
  "cxe_state e t lk =
     (if has (ti_flags t) F_UNLOCK then
        (set_st LKST_OPEN lk,
         if ti_lkval t \<noteq> 1 \<or> ti_old_state t \<noteq> LKST_WRLK
         then print_log e ''XXX cx_end result/lkval/old_state inconsistency!'' 0 t else [])
      else if ev_reg e EDX \<noteq> 0 then
        (set_st LKST_WRLK lk,
         if ti_lkval t \<noteq> 0 then print_log e ''XXX cx_exclusive result/lkval inconsistency!'' 0 t else [])
      else (lk, []))"

definition update_current_lock_state :: "env \<Rightarrow> transition_info \<Rightarrow> lock \<Rightarrow> lock \<times> ostream" where
  "update_current_lock_state e t lk0 =
     (let lk = lk0\<lparr>lk_queue := False\<rparr>; i = ti_lock_id t in
      if i = L_SEMA \<and> has (ti_flags t) F_UNLOCK \<and> sint (ti_lkval t) > sint (ti_old_lkval t)
      then (set_st LKST_OPEN lk, [])
      else if i = L_SEMA \<or> i = L_MUTEX \<or> i = L_COMPL then (sema_state t lk, [])
      else if i = L_RSEMA \<or> i = L_WSEMA then (rwsem_state t lk, [])
      else if i = L_SPIN then spin_state e t lk
      else if i = L_RSPIN \<or> i = L_WSPIN then rwspin_state e t lk
      else if i = L_CXA then cxa_state e t lk
      else if i = L_CXE then cxe_state e t lk
      else (lk, [Str ''UNK '', Hex (ucast (ti_lkval t)), Endl]))"

definition detect_read_lock_unlock :: "transition_info \<Rightarrow> transition_info" where
  "detect_read_lock_unlock t0 =
     (let t = t0\<lparr>ti_read_lock := False, ti_read_unlock := False\<rparr>;
          reading = (ti_new_state t = Some LKST_OPEN \<or>
                     (Some (ti_old_state t) = ti_new_state t \<and> ti_old_state t = LKST_RLK));
          v = sint (ti_lkval t);
          lk_incr = (if reading \<and> (ti_lock_id t = L_RSEMA \<or> ti_lock_id t = L_WSEMA) then 1 else 0 :: u32);
          diff = ti_lkval t - ti_old_lkval t
      in if reading \<and> (ti_lock_id t = L_RSPIN \<or> ti_lock_id t = L_WSPIN) then
           (if ti_lock_id t = L_RSPIN then
              t\<lparr>ti_read_unlock := has (ti_flags t) F_UNLOCK \<and> v \<ge> sint (ti_bp_lkval t),
                ti_read_lock := v > 0 \<and> v < 0x01000000 \<and> has (ti_flags t) F_LOCK\<rparr>
            else t)
         else if diff = lk_incr then t\<lparr>ti_read_lock := True\<rparr>
         else if diff = - lk_incr then t\<lparr>ti_read_unlock := True\<rparr>
         else t)"

end
