(* ===== verification/SyncChar.thy ===== *)
theory SyncChar
  imports LockState "HOL-Library.Monad_Syntax"
begin

text \<open>
  The state of the lock tracker and the handling of one lock operation
  (\<^verbatim>\<open>sync_char/sync_char.cc\<close>): registration of locks, contention, opening and closing of working
  sets, the transition between lock states and the two callbacks that drive it.  Address space
  data is shared between processes, so it lives in a heap (\<open>sc_heap\<close>) the process map points into.
  An iterator into the lock map, which the code keeps with an open working set, is the address and
  generation of the lock.  \<open>None\<close> is a step that would use an invalid pointer or iterator.
\<close>

section \<open>State\<close>

type_synonym lock_it = "u32 \<times> int"
type_synonym workset_list = "(lock_it \<times> WorkSet) list"

record as_data =
  ad_ramap :: "(u32 \<times> ra) list"
  ad_map_file :: "string option"
  ad_lockmap :: "(u32 \<times> lock) list"
  ad_bps :: "int list"
  ad_locksetmap :: "(spid_t \<times> workset_list) list"
  ad_asym :: WorkSet
  ad_ad_count :: int
  ad_ref_count :: int

record spcl_caller =
  sp_req_cyc :: cycles
  sp_total_cyc :: cycles

type_synonym spcl_map = "(int \<times> (u32 \<times> (u32 \<times> spcl_caller) list) list) list"

record bp_rec =
  bp_pc :: u32
  bp_caller_ra :: u32
  bp_cyc :: cycles
  bp_lkval :: u32
  bp_as_data :: nat

record syncchar =
  sc_as_map :: "(spid_t \<times> nat) list"
  sc_heap :: "(nat \<times> as_data) list"
  sc_next :: nat
  sc_exception_addrs :: "u32 list"
  sc_archived_worksets :: int
  sc_dbg_bp :: int
  sc_osatxm :: bool
  sc_logWorksets :: bool
  sc_afterBoot :: bool
  sc_spcl :: spcl_map
  sc_log :: ostream

definition as_at :: "syncchar \<Rightarrow> nat \<Rightarrow> as_data option" where
  "as_at s p = map_of (sc_heap s) p"

definition set_as :: "nat \<Rightarrow> as_data \<Rightarrow> syncchar \<Rightarrow> syncchar" where
  "set_as p a s = s\<lparr>sc_heap := AList.update p a (sc_heap s)\<rparr>"

definition find_as :: "syncchar \<Rightarrow> spid_t \<Rightarrow> as_data option" where
  "find_as s spid = (case map_of (sc_as_map s) spid of None \<Rightarrow> None | Some p \<Rightarrow> as_at s p)"

definition log_out :: "ostream \<Rightarrow> syncchar \<Rightarrow> syncchar" where
  "log_out xs s = s\<lparr>sc_log := sc_log s @ xs\<rparr>"

text \<open>\<^verbatim>\<open>operator[]\<close> of the maps inserts a zero value for a missing key.\<close>

definition get_caller :: "lock \<Rightarrow> u32 \<Rightarrow> caller" where
  "get_caller lk ra = (case map_of (lk_callers lk) ra of None \<Rightarrow> caller_zero | Some c \<Rightarrow> c)"

definition upd_caller :: "u32 \<Rightarrow> (caller \<Rightarrow> caller) \<Rightarrow> lock \<Rightarrow> lock" where
  "upd_caller ra f lk = lk\<lparr>lk_callers := AList.update ra (f (get_caller lk ra)) (lk_callers lk)\<rparr>"

definition get_acq :: "lock \<Rightarrow> spid_t \<Rightarrow> spid_info" where
  "get_acq lk spid = (case map_of (lk_acq lk) spid of None \<Rightarrow> zero_spid_info | Some i \<Rightarrow> i)"

definition upd_acq :: "spid_t \<Rightarrow> (spid_info \<Rightarrow> spid_info) \<Rightarrow> lock \<Rightarrow> lock" where
  "upd_acq spid f lk = lk\<lparr>lk_acq := AList.update spid (f (get_acq lk spid)) (lk_acq lk)\<rparr>"

definition set_lock :: "u32 \<Rightarrow> lock \<Rightarrow> as_data \<Rightarrow> as_data" where
  "set_lock addr lk a = a\<lparr>ad_lockmap := AList.update addr lk (ad_lockmap a)\<rparr>"

definition set_worksets :: "spid_t \<Rightarrow> workset_list \<Rightarrow> as_data \<Rightarrow> as_data" where
  "set_worksets spid wl a = a\<lparr>ad_locksetmap := AList.update spid wl (ad_locksetmap a)\<rparr>"

definition read_4bytes :: "env \<Rightarrow> syncchar \<Rightarrow> segment \<Rightarrow> logical_address \<Rightarrow> u32" where
  "read_4bytes e s seg laddr = (if sc_osatxm s then ev_txmem e seg laddr else ev_mem e seg laddr)"

section \<open>Printing and registering locks\<close>

definition print_av :: "avg_var list \<Rightarrow> ostream" where
  "print_av av = concat (map (\<lambda>i. [Dec (uint (av_cnt (av ! i))), Str '' '', Flt (av_sum (av ! i)), Str '' '',
     Flt (av_xsqr (av ! i)), Str '' '']) [0..<3])"

definition ra_zero :: ra where
  "ra_zero = \<lparr>ra_lock_off = 0, ra_lock_reg = 0, ra_lock_id = 0, ra_flags = 0, ra_label = ''''\<rparr>"

text \<open>
  One caller of a lock; looking up its flags with \<^verbatim>\<open>operator[]\<close> inserts a zero entry for a
  return address that is not in the map.
\<close>

definition print_caller :: "(u32 \<times> ra) list \<times> ostream \<Rightarrow> u32 \<times> caller \<Rightarrow> (u32 \<times> ra) list \<times> ostream" where
  "print_caller acc e =
     (let (ramap, out) = acc; (ra, c) = e;
          r = (case map_of ramap ra of None \<Rightarrow> ra_zero | Some r \<Rightarrow> r)
      in (AList.update ra r ramap,
          out @ [Str '' ['', Str '' '', Hex (ucast ra), Str '' '', Dec (uint (ra_flags r)),
                 Str '' '', Dec (uint (ca_count c)), Str '' '', Dec (uint (ca_q_count c)),
                 Str '' '', Dec (uint (ca_useless_release c)), Str '' '']
              @ print_av (ca_acq_av c) @ print_av (ca_hold_av c) @ [Str ''] '']))"

definition print_lock :: "u32 \<Rightarrow> lock \<Rightarrow> (u32 \<times> ra) list \<Rightarrow> (u32 \<times> ra) list \<times> ostream" where
  "print_lock addr lk ramap =
     (let head = [Hex (ucast addr)] @
          (if lk_generation lk > 0 then [Str ''_'', Dec (lk_generation lk)] else []) @
          [Str ''('', Str (lk_name lk), Str '')'', Str '' '', Dec (lk_generation lk),
           Str '' '', Dec (lk_workset_count lk), Str '' '', Dec (sint (lk_lock_id lk)),
           Str '' '', Dec (int (length (lk_acq lk))),
           Str '' '', Dec (int (ws_rsize (lk_aggregate lk))), Str '' '', Dec (int (ws_wsize (lk_aggregate lk))),
           Str '' '', Dec (int (ws_size (lk_aggregate lk))), Str '' ''] @ print_av (lk_nest_av lk);
          (ramap', out) = foldl print_caller (ramap, head) (lk_callers lk)
      in (ramap', out @ [Str NL]))"

text \<open>The field \<^verbatim>\<open>lock_id\<close> of a lock is a \<^verbatim>\<open>short\<close>.\<close>

definition new_lock :: "u32 \<Rightarrow> u32 \<Rightarrow> u32 \<Rightarrow> string \<Rightarrow> int \<Rightarrow> lock" where
  "new_lock lock_id addr lkval label generation =
     \<lparr>lk_state = LKST_OPEN, lk_lkval = lkval, lk_queue = False, lk_lock_id = scast (ucast lock_id :: 16 word), lk_addr = addr,
      lk_generation = generation, lk_workset_count = 0, lk_spid_owner = NO_SPID, lk_readers = [],
      lk_aggregate = WorkSet_new addr 0 (of_int generation) 0xffffffff 0,
      lk_acq = [], lk_callers = [], lk_name = label, lk_nest_av = zero_av\<rparr>"

definition allocate_lock :: "u32 \<Rightarrow> u32 \<Rightarrow> u32 \<Rightarrow> string \<Rightarrow> as_data \<Rightarrow> as_data \<times> ostream" where
  "allocate_lock lock_id addr lkval label a =
     (case map_of (ad_lockmap a) addr of
        None \<Rightarrow> (set_lock addr (new_lock lock_id addr lkval label 0) a, [])
      | Some old \<Rightarrow>
          (let (ramap, out) = print_lock addr old (ad_ramap a);
               a1 = a\<lparr>ad_ramap := ramap, ad_lockmap := AList.delete addr (ad_lockmap a)\<rparr>
           in (set_lock addr (new_lock lock_id addr lkval label (lk_generation old + 1)) a1, out)))"

section \<open>Contention\<close>

definition contention_step :: "transition_info \<Rightarrow> nat \<times> lock \<times> ostream \<Rightarrow> lock_it \<times> WorkSet
    \<Rightarrow> nat \<times> lock \<times> ostream" where
  "contention_step t acc w =
     (let (check, lk, out) = acc; i = ws_id (snd w) in
      if lock_addr i = ti_lock_addr t then
        (let out' = (if check > 0 then out @ [Str ''XXX More than one open workset for same lock'', Endl] else out)
         in if list_ex (\<lambda>j. WorksetID_eq j i) (ca_contended (get_caller lk (ti_caller_ra t)))
            then (Suc check, lk, out')
            else (Suc check,
                  upd_caller (ti_caller_ra t)
                    (\<lambda>c. c\<lparr>ca_contended := ca_contended c @ [i], ca_q_count := ca_q_count c + 1\<rparr>) lk, out'))
      else acc)"

definition record_contention1 :: "env \<Rightarrow> syncchar \<Rightarrow> spid_t \<Rightarrow> transition_info \<Rightarrow> lock
    \<Rightarrow> (lock \<times> ostream) option" where
  "record_contention1 e s spid t lk =
     (case find_as s (if lk_addr lk < KERNEL_BASE then spid else 0) of
        None \<Rightarrow> None
      | Some a \<Rightarrow>
          (case map_of (ad_locksetmap a) spid of
             None \<Rightarrow> Some (lk, print_log e ''XXX locked out but empty worksets'' 0 t)
           | Some wl \<Rightarrow>
               (let (check, lk', out) = foldl (contention_step t) (0, lk, []) wl in
                Some (lk', if check = 0
                  then out @ print_log e ''XXX record contention found no open worksets for lock'' 0 t
                  else out))))"

fun record_contention_all :: "env \<Rightarrow> syncchar \<Rightarrow> spid_t list \<Rightarrow> transition_info \<Rightarrow> lock
    \<Rightarrow> (lock \<times> ostream) option" where
  "record_contention_all e s [] t lk = Some (lk, [])"
| "record_contention_all e s (r # rs) t lk =
     (case record_contention1 e s r t lk of
        None \<Rightarrow> None
      | Some (lk1, out1) \<Rightarrow> map_option (\<lambda>(lk2, out2). (lk2, out1 @ out2)) (record_contention_all e s rs t lk1))"

definition record_contention :: "env \<Rightarrow> syncchar \<Rightarrow> transition_info \<Rightarrow> lock \<Rightarrow> (lock \<times> ostream) option" where
  "record_contention e s t lk =
     (if \<not> sc_logWorksets s then Some (lk, [])
      else if lk_spid_owner lk = NO_SPID \<and> lk_state lk = LKST_RLK then
        map_option (\<lambda>(lk', out).
          (lk', (if lk_readers lk = [] then print_log e ''XXX rw lock read-locked, but no readers'' 0 t else []) @ out))
          (record_contention_all e s (map fst (lk_readers lk)) t lk)
      else record_contention1 e s (lk_spid_owner lk) t lk)"

section \<open>Starting a transition\<close>

definition get_lock_addr :: "env \<Rightarrow> ra \<Rightarrow> u32" where
  "get_lock_addr e r = ra_lock_off r + (if ra_lock_reg r \<noteq> - 1 then ev_regnum e (ra_lock_reg r) else 0)"

text \<open>The record filled from the breakpoint and the machine, before the lock is looked up.\<close>

definition start_info :: "env \<Rightarrow> syncchar \<Rightarrow> bp_rec \<Rightarrow> ra \<Rightarrow> transition_info" where
  "start_info e s bp r =
     (let addr = (if has (ra_flags r) F_NOADDR then 1 else get_lock_addr e r);
          lkval = (if ra_lock_id r = L_CXA \<or> ra_lock_id r = L_CXE \<or>
                      (\<not> has (ra_flags r) F_NOADDR \<and> \<not> has (ra_flags r) F_EAX)
                   then read_4bytes e s DATA_SEGMENT (ucast addr) else 0xdeadbeef)
      in \<lparr>ti_spid = ev_spid e, ti_lkval = lkval, ti_old_lkval = 0xAFAFAFAF, ti_lock_ra = bp_pc bp,
          ti_caller_ra = bp_caller_ra bp, ti_lock_addr = addr, ti_lock_id = ra_lock_id r,
          ti_old_state = LKST_OPEN, ti_new_state = None, ti_spid_owner = 0xAFAFAFAF,
          ti_flags = ra_flags r, ti_read_lock = True, ti_read_unlock = True, ti_now_cyc = ev_now e,
          ti_bp_cyc = bp_cyc bp, ti_bp_lkval = bp_lkval bp\<rparr>)"

definition find_or_allocate :: "env \<Rightarrow> transition_info \<Rightarrow> as_data \<Rightarrow> as_data \<times> ostream" where
  "find_or_allocate e t a =
     (case map_of (ad_lockmap a) (ti_lock_addr t) of
        Some _ \<Rightarrow> (a, [])
      | None \<Rightarrow>
          (let (a1, out) = allocate_lock (ti_lock_id t) (ti_lock_addr t) (ti_bp_lkval t) '''' a;
               out1 = (if ti_lock_id t = L_SPIN \<or> ti_lock_id t = L_CXE \<or> ti_lock_id t = L_CXA
                       then [Str ''XXX: Noname spinlock: '', Hex (ucast (ti_lock_addr t)), Endl] @ OSA_stack_trace e
                       else [])
           in (a1, out @ out1)))"

definition initialize_transition :: "env \<Rightarrow> syncchar \<Rightarrow> bp_rec \<Rightarrow> as_data
    \<Rightarrow> (transition_info \<times> as_data \<times> ostream) option" where
  "initialize_transition e s bp a =
     (case map_of (ad_ramap a) (bp_pc bp) of
        None \<Rightarrow> None
      | Some r \<Rightarrow>
          (let t = start_info e s bp r; (a1, out) = find_or_allocate e t a in
           case map_of (ad_lockmap a1) (ti_lock_addr t) of
             None \<Rightarrow> None
           | Some lk \<Rightarrow>
               (let lk1 = (case map_of (lk_callers lk) (ti_caller_ra t) of
                             None \<Rightarrow> upd_caller (ti_caller_ra t) (\<lambda>_. caller_zero) lk | Some _ \<Rightarrow> lk);
                    t1 = t\<lparr>ti_old_state := lk_state lk1, ti_spid_owner := lk_spid_owner lk1,
                           ti_old_lkval := lk_lkval lk1\<rparr>;
                    lk2 = lk1\<lparr>lk_lkval := ti_lkval t\<rparr>;
                    lk3 = (case map_of (lk_acq lk2) (ti_spid t) of
                             None \<Rightarrow> upd_acq (ti_spid t) (\<lambda>_. zero_spid_info) lk2 | Some _ \<Rightarrow> lk2)
                in Some (t1, set_lock (ti_lock_addr t) lk3 a1, out))))"

section \<open>Working sets of held locks\<close>

fun ws_reopen :: "lock_it \<Rightarrow> workset_list \<Rightarrow> workset_list" where
  "ws_reopen k [] = []"
| "ws_reopen k ((k', w) # wl) =
     (if k' = k then (k', w\<lparr>ws_cnt := ws_cnt w + 1\<rparr>) # wl else (k', w) # ws_reopen k wl)"

definition open_workset :: "env \<Rightarrow> transition_info \<Rightarrow> as_data \<Rightarrow> (as_data \<times> ostream) option" where
  "open_workset e t a =
     (case map_of (ad_lockmap a) (ti_lock_addr t) of
        None \<Rightarrow> None
      | Some lk \<Rightarrow>
          (let k = (ti_lock_addr t, lk_generation lk);
               w = WorkSet_new (ti_lock_addr t) (ti_spid t) (of_int (lk_generation lk))
                     (of_int (lk_workset_count lk)) (ev_processor e)
           in case map_of (ad_locksetmap a) (ti_spid t) of
                None \<Rightarrow>
                  Some (set_lock (ti_lock_addr t)
                          (lk\<lparr>lk_workset_count := lk_workset_count lk + 1,
                              lk_nest_av := update_avgs (lk_nest_av lk) 0 1\<rparr>)
                          (set_worksets (ti_spid t) [(k, w)] a), [])
              | Some wl \<Rightarrow>
                  (if list_ex (\<lambda>x. fst x = k) wl
                   then Some (set_worksets (ti_spid t) (ws_reopen k wl) a,
                              print_log e ''XXX multiple workset opens (this might be okay)'' 0 t)
                   else Some (set_lock (ti_lock_addr t)
                          (lk\<lparr>lk_workset_count := lk_workset_count lk + 1,
                              lk_nest_av := update_avgs (lk_nest_av lk) (of_nat (length wl)) 1\<rparr>)
                          (set_worksets (ti_spid t) ((k, w) # wl) a), []))))"

definition get_lsit :: "spid_t \<Rightarrow> string \<Rightarrow> spid_t \<Rightarrow> as_data \<Rightarrow> (spid_t \<times> workset_list) option" where
  "get_lsit spid name spid_owner a =
     (let k = (if name = RUNQUEUE_NAME then spid_owner else spid) in
      map_option (\<lambda>wl. (k, wl)) (map_of (ad_locksetmap a) k))"

text \<open>The search loop of \<open>close_workset\<close>: the new list, and the working set that was closed.\<close>

fun ws_close :: "lock_it \<Rightarrow> workset_list \<Rightarrow> (workset_list \<times> WorkSet option) option" where
  "ws_close k [] = None"
| "ws_close k ((k', w) # wl) =
     (if k' = k
      then (let w' = w\<lparr>ws_cnt := ws_cnt w - 1\<rparr> in
            if ws_cnt w' \<le> 0 then Some (wl, Some w') else Some ((k', w') # wl, None))
      else map_option (\<lambda>(wl', r). ((k', w) # wl', r)) (ws_close k wl))"

definition rotate_asym :: "bool \<Rightarrow> spid_t \<Rightarrow> as_data \<Rightarrow> as_data \<times> ostream" where
  "rotate_asym logging spid a0 =
     (let a = a0\<lparr>ad_ad_count := ad_ad_count a0 + 1\<rparr> in
      if ad_ad_count a > AS_COUNT
      then (a\<lparr>ad_ad_count := 0,
              ad_asym := WorkSet_new (lock_addr (ws_id (ad_asym a))) spid 0 0xffffffff 0\<rparr>,
            if logging then logWorkset (ad_asym a) else [])
      else (a, []))"

definition close_workset :: "env \<Rightarrow> bool \<Rightarrow> transition_info \<Rightarrow> as_data \<Rightarrow> (as_data \<times> ostream) option" where
  "close_workset e logging t a =
     (case map_of (ad_lockmap a) (ti_lock_addr t) of
        None \<Rightarrow> None
      | Some lk \<Rightarrow>
          (case get_lsit (ti_spid t) (lk_name lk) (ti_spid_owner t) a of
             None \<Rightarrow> Some (a, print_log e ''XXX tried to close workset on non-existant spid'' 0 t)
           | Some (owner, wl) \<Rightarrow>
               (let (a1, out1) =
                  (case ws_close (ti_lock_addr t, lk_generation lk) wl of
                     None \<Rightarrow> (a, print_log e ''XXX unable to find workset to close'' 0 t)
                   | Some (wl', ended) \<Rightarrow>
                       (set_worksets owner wl' a,
                        (case ended of Some w \<Rightarrow> if logging then logWorkset w else [] | None \<Rightarrow> [])));
                    (a2, out2) = rotate_asym logging (ti_spid t) a1
                in Some (a2, out1 @ out2))))"

section \<open>Releasing a lock\<close>

text \<open>The search for another process that acquired the lock: count, cycle, return address, process.\<close>

definition find_acquirer :: "spid_t \<Rightarrow> (spid_t \<times> spid_info) list \<Rightarrow> nat \<times> cycles \<times> u32 \<times> spid_t
    \<Rightarrow> nat \<times> cycles \<times> u32 \<times> spid_t" where
  "find_acquirer spid acq start =
     foldl (\<lambda>acc x. if fst x \<noteq> spid \<and> si_acq_cyc (snd x) \<noteq> 0 \<and> si_acq_ra (snd x) \<noteq> 0
                 then (Suc (fst acc), si_acq_cyc (snd x), si_acq_ra (snd x), fst x) else acc) start acq"

text \<open>The owner, hold time and acquisition record of a released lock; returns the acquiring return address.\<close>

definition release_lock :: "env \<Rightarrow> transition_info \<Rightarrow> lock \<Rightarrow> lock \<times> u32 \<times> ostream" where
  "release_lock e t lk =
     (let spi = get_acq lk (ti_spid t);
          (nfound, acq_cyc, acq_ra, acq_spid) =
            (if si_acq_ra spi = 0
             then find_acquirer (ti_spid t) (lk_acq lk) (0, si_acq_cyc spi, si_acq_ra spi, NO_SPID)
             else (1, si_acq_cyc spi, si_acq_ra spi, NO_SPID));
          out1 = (if nfound \<noteq> 1 then print_log e ''XXX acq nfound '' (int nfound) t else []);
          out2 = (if lk_state lk \<noteq> LKST_OPEN \<and> \<not> (ti_old_state t = lk_state lk \<and> ti_old_state t = LKST_RLK)
                  then print_log e ''XXX nopen '' 0 t else []);
          (hold, out3) = update_cyc_avgs (ca_hold_av (get_caller lk acq_ra)) (ti_now_cyc t) acq_cyc;
          lk1 = upd_caller acq_ra (\<lambda>c. c\<lparr>ca_hold_av := hold\<rparr>) lk;
          t' = (if acq_spid \<noteq> NO_SPID then t\<lparr>ti_spid := acq_spid\<rparr> else t);
          (spi', out4) = unlock_spid_info e t' (get_acq lk1 (ti_spid t'));
          lk2 = upd_acq (ti_spid t') (\<lambda>_. spi') lk1;
          out5 = (if lk_state lk2 = LKST_OPEN \<and> si_cnt spi' > 0
                  then print_log e (if acq_spid \<noteq> NO_SPID then ''XXX Cnt Higha cnt '' else ''XXX Cnt High cnt '')
                         (si_cnt spi') t' else []);
          lk3 = (if lk_state lk2 = LKST_OPEN then lk2\<lparr>lk_spid_owner := NO_SPID\<rparr> else lk2)
      in (lk3, acq_ra, out1 @ out2 @ out3 @ out4 @ out5))"

fun ws_add_contended :: "u32 \<Rightarrow> WorksetID list \<Rightarrow> workset_list \<Rightarrow> workset_list option" where
  "ws_add_contended addr ids [] = None"
| "ws_add_contended addr ids ((k, w) # wl) =
     (if lock_addr (ws_id w) = addr then Some ((k, w\<lparr>ws_contended := ws_contended w @ ids\<rparr>) # wl)
      else map_option ((#) (k, w)) (ws_add_contended addr ids wl))"

text \<open>
  Handing the contended working sets over to the working set that is about to be closed.
  \<open>None\<close> in the second component: there is no working set list and \<open>process_unlock\<close> returns.
\<close>

definition hand_over_contention :: "env \<Rightarrow> transition_info \<Rightarrow> u32 \<Rightarrow> lock \<Rightarrow> as_data
    \<Rightarrow> as_data \<times> bool \<times> ostream" where
  "hand_over_contention e t acq_ra lk a =
     (let ids = ca_contended (get_caller lk acq_ra) in
      if ids = [] then (a, True, [])
      else (case get_lsit (ev_spid e) (lk_name lk) (ti_spid_owner t) a of
              None \<Rightarrow> (a, False, [Str (''XXX no open workset in process_unlock'' @ NL)])
            | Some (owner, wl) \<Rightarrow>
                (let matches = filter (\<lambda>x. lock_addr (ws_id (snd x)) = ti_lock_addr t) wl;
                     out1 = concat (replicate (length matches - 1)
                              [Str ''XXX More than one open ws for same lock!'', Endl]);
                     (a1, out2) = (case ws_add_contended (ti_lock_addr t) ids wl of
                         None \<Rightarrow> (a, [Str ''XXX No matching workset for lock being closed, '',
                                     Hex (ucast (ti_lock_addr t)), Endl])
                       | Some wl' \<Rightarrow> (set_worksets owner wl' a, []))
                 in (set_lock (ti_lock_addr t) (upd_caller acq_ra (\<lambda>c. c\<lparr>ca_contended := []\<rparr>) lk) a1,
                     True, out1 @ out2))))"

definition finish_unlock :: "env \<Rightarrow> syncchar \<Rightarrow> transition_info \<Rightarrow> lock \<Rightarrow> as_data
    \<Rightarrow> (as_data \<times> ostream) option" where
  "finish_unlock e s t lk a =
     (let (lk1, acq_ra, out1) = release_lock e t lk;
          a1 = set_lock (ti_lock_addr t) lk1 a;
          (a2, go_on, out2) = hand_over_contention e t acq_ra lk1 a1
      in if go_on \<and> sc_logWorksets s
         then map_option (\<lambda>(a3, out3). (a3, out1 @ out2 @ out3))
                (close_workset e (sc_logWorksets s \<and> sc_afterBoot s) t a2)
         else Some (a2, out1 @ out2))"

definition process_unlock :: "env \<Rightarrow> syncchar \<Rightarrow> transition_info \<Rightarrow> as_data \<Rightarrow> (as_data \<times> ostream) option" where
  "process_unlock e s t a =
     (case map_of (ad_lockmap a) (ti_lock_addr t) of
        None \<Rightarrow> None
      | Some lk \<Rightarrow>
          (if ti_old_state t = LKST_RLK then
             (case map_of (lk_readers lk) (ti_spid t) of
                None \<Rightarrow> map_option (\<lambda>(a', out). (a', print_log e ''XXX reader unlock missing reader lock '' 0 t @ out))
                          (finish_unlock e s t lk a)
              | Some n \<Rightarrow>
                  (if n > 1
                   then Some (set_lock (ti_lock_addr t)
                          (lk\<lparr>lk_readers := AList.update (ti_spid t) (n - 1) (lk_readers lk)\<rparr>) a, [])
                   else finish_unlock e s t
                          (lk\<lparr>lk_readers := AList.delete (ti_spid t) (lk_readers lk)\<rparr>) a))
           else finish_unlock e s t lk a))"

section \<open>Transitions\<close>

definition spcl_blank :: spcl_caller where
  "spcl_blank = \<lparr>sp_req_cyc = 0, sp_total_cyc = 0\<rparr>"

definition get_speculative_lock :: "int \<Rightarrow> u32 \<Rightarrow> u32 \<Rightarrow> spcl_map \<Rightarrow> spcl_caller" where
  "get_speculative_lock txid addr ra m =
     (case map_of m txid of None \<Rightarrow> spcl_blank
      | Some ls \<Rightarrow>
          (case map_of ls addr of None \<Rightarrow> spcl_blank
           | Some cs \<Rightarrow> (case map_of cs ra of None \<Rightarrow> spcl_blank | Some c \<Rightarrow> c)))"

definition put_speculative_lock :: "int \<Rightarrow> u32 \<Rightarrow> u32 \<Rightarrow> spcl_caller \<Rightarrow> spcl_map \<Rightarrow> spcl_map" where
  "put_speculative_lock txid addr ra c m =
     (let ls = (case map_of m txid of None \<Rightarrow> [] | Some ls \<Rightarrow> ls);
          cs = (case map_of ls addr of None \<Rightarrow> [] | Some cs \<Rightarrow> cs)
      in AList.update txid (AList.update addr (AList.update ra c cs) ls) m)"

text \<open>The part of the state a transition changes: address space, speculative times, output.\<close>

record tstate =
  ts_as :: as_data
  ts_spcl :: spcl_map
  ts_out :: ostream

definition ts_print :: "ostream \<Rightarrow> tstate \<Rightarrow> tstate" where
  "ts_print out x = x\<lparr>ts_out := ts_out x @ out\<rparr>"

definition ts_lock :: "u32 \<Rightarrow> lock \<Rightarrow> tstate \<Rightarrow> tstate" where
  "ts_lock addr lk x = x\<lparr>ts_as := set_lock addr lk (ts_as x)\<rparr>"

definition ts_run :: "(as_data \<Rightarrow> (as_data \<times> ostream) option) \<Rightarrow> tstate \<Rightarrow> tstate option" where
  "ts_run f x = map_option (\<lambda>(a, out). ts_print out (x\<lparr>ts_as := a\<rparr>)) (f (ts_as x))"

definition current_tx :: "env \<Rightarrow> syncchar \<Rightarrow> int" where
  "current_tx e s = (if sc_osatxm s then ev_txid e else 0)"

text \<open>
  Locked out, not in a transaction: remember the first attempt and record the contention.
  \<open>warn\<close> is the message for an attempt by a process that already holds the lock.
\<close>

definition locked_out :: "env \<Rightarrow> syncchar \<Rightarrow> transition_info \<Rightarrow> string option \<Rightarrow> lock \<Rightarrow> tstate \<Rightarrow> tstate option" where
  "locked_out e s t warn lk x =
     (if \<not> has (ti_flags t) F_TRYLOCK \<and> si_req_cyc (get_acq lk (ti_spid t)) = 0 then
        (let lk1 = upd_acq (ti_spid t) (\<lambda>i. i\<lparr>si_req_cyc := ti_bp_cyc t\<rparr>) lk;
             i = get_acq lk1 (ti_spid t);
             out = (case warn of
                      Some w \<Rightarrow>
                        (if si_acq_ra i \<noteq> 0
                         then [Str w, Hex (ucast (si_acq_ra i)), Str '' acq_cyc '', Dec (sint (si_acq_cyc i)), Endl]
                              @ print_log e [] 0 t else [])
                    | None \<Rightarrow> [])
         in map_option (\<lambda>(lk2, out2). ts_print (out @ out2) (ts_lock (ti_lock_addr t) lk2 x))
              (record_contention e s t lk1))
      else Some x)"

text \<open>The time to acquire the lock, charged to the caller or, in a transaction, kept speculatively.\<close>

definition charge_caller :: "transition_info \<Rightarrow> lock \<Rightarrow> lock \<times> ostream" where
  "charge_caller t lk =
     (let r = si_req_cyc (get_acq lk (ti_spid t));
          (av, out) = update_cyc_avgs (ca_acq_av (get_caller lk (ti_caller_ra t))) (ti_now_cyc t)
                        (if r \<noteq> 0 then r else ti_bp_cyc t)
      in (upd_caller (ti_caller_ra t) (\<lambda>c. c\<lparr>ca_acq_av := av\<rparr>) lk, out))"

definition charge_tx :: "int \<Rightarrow> transition_info \<Rightarrow> spcl_map \<Rightarrow> spcl_map" where
  "charge_tx txid t m =
     (let c = get_speculative_lock txid (ti_lock_addr t) (ti_caller_ra t) m;
          req_cyc = (if sp_req_cyc c \<noteq> 0 then sp_req_cyc c else ti_bp_cyc t)
      in put_speculative_lock txid (ti_lock_addr t) (ti_caller_ra t)
           \<lparr>sp_req_cyc = 0, sp_total_cyc = sp_total_cyc c + (ti_now_cyc t - req_cyc)\<rparr> m)"

definition add_reader :: "spid_t \<Rightarrow> lock \<Rightarrow> lock" where
  "add_reader spid lk = lk\<lparr>lk_readers := AList.update spid
     (case map_of (lk_readers lk) spid of None \<Rightarrow> 1 | Some n \<Rightarrow> n + 1) (lk_readers lk)\<rparr>"

definition is_reader :: "spid_t \<Rightarrow> lock \<Rightarrow> bool" where
  "is_reader spid lk \<longleftrightarrow> map_of (lk_readers lk) spid \<noteq> None"

text \<open>The owner or reader entry of a lock that was open.\<close>

definition take_lock :: "env \<Rightarrow> transition_info \<Rightarrow> lock \<Rightarrow> lock \<times> ostream" where
  "take_lock e t lk =
     (if lk_state lk = LKST_WRLK then
        (if lk_spid_owner lk = NO_SPID then (lk\<lparr>lk_spid_owner := ti_spid t\<rparr>, [])
         else (lk, print_log e ''XXX OWNER '' 0 t))
      else if lk_state lk = LKST_RLK then (add_reader (ti_spid t) lk, [])
      else (lk, []))"

definition reset_cxa :: "transition_info \<Rightarrow> tstate \<Rightarrow> tstate" where
  "reset_cxa t x =
     (case map_of (ad_lockmap (ts_as x)) (ti_lock_addr t) of
        Some lk \<Rightarrow> (if lk_state lk = LKST_CXA then ts_lock (ti_lock_addr t) (set_st (ti_old_state t) lk) x else x)
      | None \<Rightarrow> x)"

text \<open>Open to locked.\<close>

definition acquire :: "env \<Rightarrow> syncchar \<Rightarrow> transition_info \<Rightarrow> lock \<Rightarrow> tstate \<Rightarrow> tstate option" where
  "acquire e s t lk x =
     (let (lk1, out1) = take_lock e t lk; txid = current_tx e s in
      if lk_state lk = LKST_RLK \<and> is_reader (ti_spid t) lk then Some (ts_lock (ti_lock_addr t) lk1 x)
      else
        (let out2 = (if txid = 0 \<and> lk_state lk = LKST_CXA \<and> has (ti_flags t) F_LOCK
                     then print_log e ''XXX cx_atomic in a non-transaction?'' 0 t
                     else if txid \<noteq> 0 \<and> ti_lock_id t = L_CXE
                     then print_log e ''XXX cx_exclusive in a transaction?'' 0 t else []);
             (lk2, out3) = (if txid = 0 then charge_caller t lk1 else (lk1, []));
             spcl = (if txid = 0 then ts_spcl x else charge_tx txid t (ts_spcl x));
             lk3 = upd_acq (ti_spid t) (lock_spid_info t) lk2;
             x1 = ts_print (out1 @ out2 @ out3) (ts_lock (ti_lock_addr t) lk3 (x\<lparr>ts_spcl := spcl\<rparr>))
         in map_option (reset_cxa t)
              (if sc_logWorksets s then ts_run (open_workset e t) x1 else Some x1)))"

text \<open>Old state open, read-locked and write-locked.\<close>

definition from_open :: "env \<Rightarrow> syncchar \<Rightarrow> transition_info \<Rightarrow> lock \<Rightarrow> tstate \<Rightarrow> tstate option" where
  "from_open e s t lk x =
     (if lk_state lk = LKST_OPEN then
        (let cx = (ti_lock_id t = L_CXA \<or> ti_lock_id t = L_CXE) in
         if cx \<and> \<not> sc_osatxm s then None
         else if cx \<and> ev_txid e = 0 then locked_out e s t None lk x
         else Some (ts_print (print_log e ''XXX useless '' 0 t) (ts_lock (ti_lock_addr t)
                (upd_caller (ti_caller_ra t)
                  (\<lambda>c. c\<lparr>ca_useless_release := ca_useless_release c + 1\<rparr>) lk) x)))
      else acquire e s t lk x)"

definition from_read :: "env \<Rightarrow> syncchar \<Rightarrow> transition_info \<Rightarrow> lock \<Rightarrow> tstate \<Rightarrow> tstate option" where
  "from_read e s t lk x =
     (case lk_state lk of
        LKST_OPEN \<Rightarrow>
          ts_run (process_unlock e s t)
            (if ti_read_unlock t then x else ts_print (print_log e ''XXX RLK->OPEN read_unlock '' 0 t) x)
      | LKST_RLK \<Rightarrow>
          (if ti_read_lock t then
             (if is_reader (ti_spid t) lk then Some (ts_lock (ti_lock_addr t) (add_reader (ti_spid t) lk) x)
              else do {
                x1 \<leftarrow> ts_run (open_workset e t) (ts_lock (ti_lock_addr t) (add_reader (ti_spid t) lk) x);
                lk1 \<leftarrow> map_of (ad_lockmap (ts_as x1)) (ti_lock_addr t);
                let (lk2, out) = charge_caller t lk1 in
                Some (ts_print out (ts_lock (ti_lock_addr t) (upd_acq (ti_spid t) (lock_spid_info t) lk2) x1))
              })
           else if ti_read_unlock t then ts_run (process_unlock e s t) x
           else locked_out e s t (Some ''XXXr acq_ra '') lk x)
      | LKST_WRLK \<Rightarrow>
          Some (ts_print (print_log e ''XXX RLK->WRLK '' 0 t)
            (ts_lock (ti_lock_addr t) (upd_acq (ti_spid t) (lock_spid_info t) lk) x))
      | LKST_CXA \<Rightarrow> Some x)"

definition from_write :: "env \<Rightarrow> syncchar \<Rightarrow> transition_info \<Rightarrow> lock \<Rightarrow> tstate \<Rightarrow> tstate option" where
  "from_write e s t lk x =
     (case lk_state lk of
        LKST_OPEN \<Rightarrow> ts_run (process_unlock e s t) x
      | LKST_RLK \<Rightarrow> Some (ts_print (print_log e ''XXX WRLK->RLK '' 0 t) x)
      | LKST_WRLK \<Rightarrow>
          (let txid = current_tx e s in
           if txid = 0 then locked_out e s t (if lk_queue lk then None else Some ''XXXw acq_ra '') lk x
           else if \<not> has (ti_flags t) F_TRYLOCK then
             (let c = get_speculative_lock txid (ti_lock_addr t) (ti_caller_ra t) (ts_spcl x);
                  c' = (if sp_req_cyc c = 0 then c\<lparr>sp_req_cyc := ti_bp_cyc t\<rparr> else c)
              in Some (x\<lparr>ts_spcl := put_speculative_lock txid (ti_lock_addr t) (ti_caller_ra t) c' (ts_spcl x)\<rparr>))
           else Some x)
      | LKST_CXA \<Rightarrow> Some x)"

definition process_transition :: "env \<Rightarrow> syncchar \<Rightarrow> transition_info \<Rightarrow> tstate \<Rightarrow> tstate option" where
  "process_transition e s t x =
     (case map_of (ad_lockmap (ts_as x)) (ti_lock_addr t) of
        None \<Rightarrow> None
      | Some lk \<Rightarrow>
          (case ti_old_state t of
             LKST_OPEN \<Rightarrow> from_open e s t lk x
           | LKST_RLK \<Rightarrow> from_read e s t lk x
           | LKST_WRLK \<Rightarrow> from_write e s t lk x
           | LKST_CXA \<Rightarrow> Some x))"

text \<open>Counting a completed operation and following the state change.\<close>

definition count_only :: "caller \<Rightarrow> caller" where
  "count_only c = c\<lparr>ca_acq_av := (ca_acq_av c)[0 := (ca_acq_av c ! 0)\<lparr>av_cnt := av_cnt (ca_acq_av c ! 0) + 1\<rparr>,
     1 := (ca_acq_av c ! 1)\<lparr>av_cnt := av_cnt (ca_acq_av c ! 1) + 1\<rparr>]\<rparr>"

definition track :: "env \<Rightarrow> syncchar \<Rightarrow> transition_info \<Rightarrow> tstate \<Rightarrow> tstate option" where
  "track e s t x =
     (case map_of (ad_lockmap (ts_as x)) (ti_lock_addr t) of
        None \<Rightarrow> None
      | Some lk0 \<Rightarrow>
          (let lk = upd_caller (ti_caller_ra t) (\<lambda>c. c\<lparr>ca_count := ca_count c + 1\<rparr>) lk0 in
           if has (ti_flags t) F_NOADDR \<or> ti_lock_id t = L_COMPL
           then Some (ts_lock (ti_lock_addr t) (upd_caller (ti_caller_ra t) count_only lk) x)
           else (let (lk1, out) = update_current_lock_state e t lk;
                     t1 = detect_read_lock_unlock (t\<lparr>ti_new_state := Some (lk_state lk1)\<rparr>)
                 in process_transition e s t1 (ts_print out (ts_lock (ti_lock_addr t) lk1 x)))))"

definition lock_transition :: "env \<Rightarrow> bp_rec \<Rightarrow> syncchar \<Rightarrow> syncchar option" where
  "lock_transition e bp s = do {
     a \<leftarrow> as_at s (bp_as_data bp);
     (t, a1, out) \<leftarrow> initialize_transition e s bp a;
     let s1 = log_out out (set_as (bp_as_data bp) a1 s) in
     if ev_cpu e < length (sc_exception_addrs s) \<and> sc_exception_addrs s ! ev_cpu e = ti_lock_ra t then Some s1
     else map_option (\<lambda>x. log_out (ts_out x) (set_as (bp_as_data bp) (ts_as x) (s1\<lparr>sc_spcl := ts_spcl x\<rparr>)))
            (track e s1 t \<lparr>ts_as = a1, ts_spcl = sc_spcl s1, ts_out = []\<rparr>)
   }"

section \<open>Callbacks of the simulator\<close>

definition exception_callback :: "env \<Rightarrow> syncchar \<Rightarrow> syncchar" where
  "exception_callback e s = s\<lparr>sc_exception_addrs := (sc_exception_addrs s)[ev_cpu e := ev_reg e EIP]\<rparr>"

text \<open>A breakpoint before a lock instruction; the record that is posted to \<open>lock_transition\<close>, if any.\<close>

definition breakpoint_callback :: "env \<Rightarrow> int \<Rightarrow> u32 \<Rightarrow> syncchar \<Rightarrow> (syncchar \<times> bp_rec option) option" where
  "breakpoint_callback e break_number pc s =
     (let s1 = s\<lparr>sc_exception_addrs := (sc_exception_addrs s)[ev_cpu e := 0]\<rparr>;
          my_spid = (if pc < KERNEL_BASE then ev_spid e else 0)
      in case map_of (sc_as_map s) my_spid of
           None \<Rightarrow> Some (s1, None)
         | Some p \<Rightarrow>
             (case as_at s p of
                None \<Rightarrow> None
              | Some a \<Rightarrow>
                  (if break_number = sc_dbg_bp s then Some (s1, None)
                   else case map_of (ad_ramap a) pc of
                     None \<Rightarrow> Some (s1, None)
                   | Some r \<Rightarrow>
                       (let addr = get_lock_addr e r;
                            lkval = (if \<not> has (ra_flags r) F_NOADDR \<and> \<not> has (ra_flags r) F_EAX
                                        \<or> ra_lock_id r = L_CXA \<or> ra_lock_id r = L_CXE
                                     then read_4bytes e s DATA_SEGMENT (ucast addr) else 0);
                            caller_ra = (if has (ra_flags r) F_INLINED then pc
                                         else read_4bytes e s STACK_SEGMENT (ucast (ev_reg e EBP + 4)))
                        in Some (s1, Some \<lparr>bp_pc = pc, bp_caller_ra = caller_ra, bp_cyc = ev_now e,
                                      bp_lkval = lkval, bp_as_data = p\<rparr>)))))"

end
