(* ===== verification/SyncChar_Events.thy ===== *)
theory SyncChar_Events
  imports SyncChar
begin

text \<open>
  The remaining entry points of the lock tracker (\<^verbatim>\<open>sync_char/sync_char.cc\<close>): memory and device
  accesses, process creation, scheduling and exit, registration of locks and map files,
  transactions, statistics and attributes.
\<close>

section \<open>Memory accesses\<close>

record memop =
  mo_address :: logical_address
  mo_size :: u32
  mo_type :: memop_type
  mo_vanilla :: bool

text \<open>
  The loop of \<open>timing_operate\<close> over the open working sets of the process: each grows, and so does
  the aggregate working set of its lock.  A working set whose lock is not in the map makes the
  code dereference an end iterator.
\<close>

fun grow_worksets :: "memop \<Rightarrow> workset_list \<Rightarrow> (u32 \<times> lock) list
    \<Rightarrow> (workset_list \<times> (u32 \<times> lock) list) option" where
  "grow_worksets m [] locks = Some ([], locks)"
| "grow_worksets m ((k, w) # wl) locks =
     (if map_of locks (ucast (mo_address m)) = None then do {
        w' \<leftarrow> grow (mo_address m) (mo_size m) (mo_type m) w;
        lk \<leftarrow> map_of locks (lock_addr (ws_id w));
        g \<leftarrow> grow (mo_address m) (mo_size m) (mo_type m) (lk_aggregate lk);
        (wl', locks') \<leftarrow> grow_worksets m wl
           (AList.update (lock_addr (ws_id w)) (lk\<lparr>lk_aggregate := g\<rparr>) locks);
        Some ((k, w') # wl', locks')
      } else map_option (\<lambda>(wl', locks'). ((k, w) # wl', locks')) (grow_worksets m wl locks))"

definition access_as :: "memop \<Rightarrow> spid_t \<Rightarrow> as_data \<Rightarrow> as_data option" where
  "access_as m spid a =
     (case map_of (ad_locksetmap a) spid of
        Some (w # wl) \<Rightarrow>
          map_option (\<lambda>(wl', locks'). (set_worksets spid wl' a)\<lparr>ad_lockmap := locks'\<rparr>)
            (grow_worksets m (w # wl) (ad_lockmap a))
      | _ \<Rightarrow> map_option (\<lambda>d. a\<lparr>ad_asym := d\<rparr>) (grow (mo_address m) (mo_size m) (mo_type m) (ad_asym a)))"

definition in_kernel :: "env \<Rightarrow> bool" where
  "in_kernel e \<longleftrightarrow> ev_reg e EIP \<ge> KERNEL_BASE"

definition timing_operate :: "env \<Rightarrow> memop \<Rightarrow> syncchar \<Rightarrow> syncchar option" where
  "timing_operate e m s =
     (if (mo_address m > ucast (ev_reg e EBP) \<or> mo_address m < ucast (ev_reg e ESP))
         \<and> mo_vanilla m \<and> (mo_type m = Sim_Trans_Load \<or> mo_type m = Sim_Trans_Store)
      then (case map_of (sc_as_map s) (if in_kernel e then 0 else ev_spid e) of
              None \<Rightarrow> Some s
            | Some p \<Rightarrow> do { a \<leftarrow> as_at s p; a' \<leftarrow> access_as m (ev_spid e) a; Some (set_as p a' s) })
      else Some s)"

text \<open>Device access: every open working set of the process, and the aggregate of its lock, does I/O.\<close>

fun mark_io :: "workset_list \<Rightarrow> (u32 \<times> lock) list \<Rightarrow> (workset_list \<times> (u32 \<times> lock) list) option" where
  "mark_io [] locks = Some ([], locks)"
| "mark_io ((k, w) # wl) locks = do {
     lk \<leftarrow> map_of locks (lock_addr (ws_id w));
     (wl', locks') \<leftarrow> mark_io wl (AList.update (lock_addr (ws_id w))
        (lk\<lparr>lk_aggregate := (lk_aggregate lk)\<lparr>ws_IO := True\<rparr>\<rparr>) locks);
     Some ((k, w\<lparr>ws_IO := True\<rparr>) # wl', locks')
   }"

definition handle_device_access_memop :: "env \<Rightarrow> bool \<Rightarrow> syncchar \<Rightarrow> syncchar option" where
  "handle_device_access_memop e my_machine s =
     (if \<not> my_machine then Some s
      else case map_of (sc_as_map s) (if in_kernel e then 0 else ev_spid e) of
        None \<Rightarrow> Some s
      | Some p \<Rightarrow> do {
          a \<leftarrow> as_at s p;
          case map_of (ad_locksetmap a) (ev_spid e) of
            None \<Rightarrow> Some s
          | Some wl \<Rightarrow> map_option (\<lambda>(wl', locks').
              set_as p ((set_worksets (ev_spid e) wl' a)\<lparr>ad_lockmap := locks'\<rparr>) s) (mark_io wl (ad_lockmap a))
        })"

section \<open>Scheduling, fork and exit\<close>

definition change_owner :: "spid_t \<Rightarrow> spid_t \<Rightarrow> WorkSet \<Rightarrow> WorkSet" where
  "change_owner old_pid new_pid w = w\<lparr>ws_pid := new_pid, ws_old_pid := old_pid, ws_twoowners := True\<rparr>"

text \<open>
  The working sets of lock \<open>addr\<close> move from the list of \<open>old_pid\<close> to the front of the list of
  \<open>new_pid\<close>, one after the other.
\<close>

definition move_worksets :: "u32 \<Rightarrow> spid_t \<Rightarrow> spid_t \<Rightarrow> lock_it \<Rightarrow> as_data \<Rightarrow> as_data" where
  "move_worksets addr old_pid new_pid k a =
     (case map_of (ad_locksetmap a) old_pid of
        None \<Rightarrow> a
      | Some wl \<Rightarrow>
          (let mine = (\<lambda>x. lock_addr (ws_id (snd x)) = addr);
               moved = map (\<lambda>x. (k, change_owner old_pid new_pid (snd x))) (filter mine wl);
               a1 = set_worksets old_pid (filter (\<lambda>x. \<not> mine x) wl) a
           in if moved = [] then a
              else set_worksets new_pid
                (rev moved @ (case map_of (ad_locksetmap a1) new_pid of None \<Rightarrow> [] | Some wl2 \<Rightarrow> wl2)) a1))"

definition sched_lock :: "spid_t \<Rightarrow> spid_t \<Rightarrow> as_data \<Rightarrow> u32 \<times> lock \<Rightarrow> as_data" where
  "sched_lock old_pid new_pid a x =
     (case map_of (ad_lockmap a) (fst x) of
        None \<Rightarrow> a
      | Some lk \<Rightarrow>
          (if lk_spid_owner lk = old_pid \<and> lk_name lk = RUNQUEUE_NAME
           then move_worksets (fst x) old_pid new_pid (fst x, lk_generation lk)
                  (set_lock (fst x) (lk\<lparr>lk_spid_owner := new_pid\<rparr>) a)
           else a))"

definition osa_sched_callback :: "env \<Rightarrow> syncchar \<Rightarrow> syncchar option" where
  "osa_sched_callback e s = do {
     p \<leftarrow> map_of (sc_as_map s) 0;
     a \<leftarrow> as_at s p;
     Some (set_as p (foldl (sched_lock (ev_spid e) (ev_reg e ECX)) a (ad_lockmap a)) s)
   }"

definition osa_fork_callback :: "env \<Rightarrow> syncchar \<Rightarrow> syncchar option" where
  "osa_fork_callback e s =
     (if ev_spid e = 0 then Some s
      else case map_of (sc_as_map s) (ev_spid e) of
        None \<Rightarrow> Some s
      | Some p \<Rightarrow> do {
          a \<leftarrow> as_at s p;
          Some (set_as p (a\<lparr>ad_ref_count := ad_ref_count a + 1\<rparr>)
            (s\<lparr>sc_as_map := AList.update (ev_reg e EBX) p (sc_as_map s)\<rparr>))
        })"

text \<open>
  The loop over the locks erases the entry its iterator points to and then advances that iterator,
  so an address space with a lock cannot be freed.
\<close>

definition free_as_data :: "nat \<Rightarrow> syncchar \<Rightarrow> syncchar option" where
  "free_as_data p s =
     (case as_at s p of
        None \<Rightarrow> None
      | Some a \<Rightarrow> (if ad_lockmap a = [] then Some (s\<lparr>sc_heap := AList.delete p (sc_heap s)\<rparr>) else None))"

definition osa_exit_callback :: "env \<Rightarrow> syncchar \<Rightarrow> syncchar option" where
  "osa_exit_callback e s =
     (if ev_spid e = 0
      then Some (log_out [Str ''XXX: Attempt to free kernel as_data thwarted.'', Endl] s)
      else case map_of (sc_as_map s) (ev_spid e) of
        None \<Rightarrow> Some s
      | Some p \<Rightarrow> do {
          a \<leftarrow> as_at s p;
          let s1 = set_as p (a\<lparr>ad_ref_count := ad_ref_count a - 1\<rparr>) s in do {
            s2 \<leftarrow> (if ad_ref_count a - 1 = 0 then free_as_data p s1 else Some s1);
            Some (s2\<lparr>sc_as_map := AList.delete (ev_spid e) (sc_as_map s2)\<rparr>)
          }
        })"

definition syncchar_clear_map_callback :: "env \<Rightarrow> syncchar \<Rightarrow> syncchar option" where
  "syncchar_clear_map_callback e s =
     (case map_of (sc_as_map s) (ev_spid e) of None \<Rightarrow> Some s | Some p \<Rightarrow> free_as_data p s)"

definition osa_after_boot_callback :: "syncchar \<Rightarrow> syncchar" where
  "osa_after_boot_callback s = s\<lparr>sc_afterBoot := True\<rparr>"

text \<open>\<open>name\<close> is what \<^verbatim>\<open>read_string\<close> returns for the pointer and length in the registers.\<close>

definition osa_register_spinlock_callback :: "env \<Rightarrow> string \<Rightarrow> syncchar \<Rightarrow> syncchar option" where
  "osa_register_spinlock_callback e name s = do {
     p \<leftarrow> map_of (sc_as_map s) (if ev_reg e EDX \<ge> KERNEL_BASE then 0 else ev_spid e);
     a \<leftarrow> as_at s p;
     let (a', out) = allocate_lock L_SPIN (ev_reg e EDX)
                       (read_4bytes e s DATA_SEGMENT (ucast (ev_reg e EDX))) name a
     in Some (log_out out (set_as p a' s))
   }"

section \<open>Transactions\<close>

text \<open>
  Commit: \<^verbatim>\<open>if(!lk) *lk = ...\<close> assigns through the null pointer as soon as there is one
  speculative caller.
\<close>

definition handle_transaction_commit :: "int \<Rightarrow> syncchar \<Rightarrow> syncchar option" where
  "handle_transaction_commit txid s =
     (case map_of (sc_spcl s) txid of
        Some ls \<Rightarrow> (if list_ex (\<lambda>x. snd x \<noteq> []) ls then None
                   else Some (s\<lparr>sc_spcl := AList.delete txid (sc_spcl s)\<rparr>))
      | None \<Rightarrow> Some (s\<lparr>sc_spcl := AList.delete txid (sc_spcl s)\<rparr>))"

definition handle_transaction_abort :: "int \<Rightarrow> syncchar \<Rightarrow> syncchar" where
  "handle_transaction_abort txid s = s\<lparr>sc_spcl := AList.delete txid (sc_spcl s)\<rparr>"

section \<open>Map files\<close>

text \<open>
  A line of a map file: what the two \<^verbatim>\<open>sscanf\<close> calls of \<open>read_ra2sync\<close> make of it.
\<close>

datatype map_line =
    RaLine u32 u32 string u32 u32 string
  | LockLine u32 u32 u32 string
  | BadLine

definition insert_ra :: "u32 \<Rightarrow> u32 \<Rightarrow> u32 \<Rightarrow> u32 \<Rightarrow> u32 \<Rightarrow> string \<Rightarrow> (u32 \<times> ra) list \<Rightarrow> (u32 \<times> ra) list" where
  "insert_ra lock_ra lock_off lock_reg lock_id flags label ramap =
     AList.update lock_ra \<lparr>ra_lock_off = lock_off, ra_lock_reg = lock_reg, ra_lock_id = lock_id,
       ra_flags = flags, ra_label = label\<rparr> ramap"

definition read_line :: "(string \<Rightarrow> u32) \<Rightarrow> bool \<Rightarrow> as_data \<times> ostream \<Rightarrow> map_line \<Rightarrow> as_data \<times> ostream" where
  "read_line regnum first_time acc l =
     (case l of
        BadLine \<Rightarrow> acc
      | LockLine addr lock_id lkval label \<Rightarrow>
          (let (a, out) = allocate_lock lock_id addr lkval label (fst acc) in (a, snd acc @ out))
      | RaLine lock_ra lock_off lock_reg lock_id flags label \<Rightarrow>
          (if \<not> first_time \<or> (lock_id \<noteq> L_SPIN \<and> lock_id \<noteq> L_CXA \<and> lock_id \<noteq> L_CXE) then acc
           else ((fst acc)\<lparr>ad_ramap := insert_ra lock_ra lock_off
                   (if lock_reg = ''nil'' then - 1 else regnum lock_reg) lock_id flags label
                   (ad_ramap (fst acc))\<rparr>, snd acc)))"

definition read_ra2sync :: "(string \<Rightarrow> u32) \<Rightarrow> bool \<Rightarrow> map_line list \<Rightarrow> as_data \<Rightarrow> as_data \<times> ostream" where
  "read_ra2sync regnum first_time ls a = foldl (read_line regnum first_time) (a, []) ls"

text \<open>\<open>files\<close> gives the lines of a readable file; a file that cannot be opened changes nothing.\<close>

definition init_ras :: "(string \<Rightarrow> u32) \<Rightarrow> (string \<Rightarrow> map_line list option) \<Rightarrow> string \<Rightarrow> as_data
    \<Rightarrow> int \<times> as_data \<times> ostream" where
  "init_ras regnum files name a =
     (case files name of
        None \<Rightarrow> (- 1, a, [])
      | Some ls \<Rightarrow> (0, read_ra2sync regnum (length (ad_ramap a) = 0) ls a))"

text \<open>\<open>bpid\<close> is the identifier the simulator returns for a new breakpoint.\<close>

definition insert_bps :: "(u32 \<Rightarrow> int) \<Rightarrow> as_data \<Rightarrow> as_data" where
  "insert_bps bpid a = a\<lparr>ad_bps := ad_bps a @ map (\<lambda>(ra, _). bpid ra) (ad_ramap a)\<rparr>"

definition as_new :: "WorkSet \<Rightarrow> as_data" where
  "as_new w = \<lparr>ad_ramap = [], ad_map_file = None, ad_lockmap = [], ad_bps = [], ad_locksetmap = [],
     ad_asym = w, ad_ad_count = 0, ad_ref_count = 1\<rparr>"

definition set_mapfile :: "(string \<Rightarrow> u32) \<Rightarrow> (string \<Rightarrow> map_line list option) \<Rightarrow> (u32 \<Rightarrow> int) \<Rightarrow> string
    \<Rightarrow> syncchar \<Rightarrow> syncchar" where
  "set_mapfile regnum files bpid name s =
     (let p = sc_next s;
          a = (as_new (WorkSet_new 0xc0000000 0 0 0xffffffff 0))\<lparr>ad_map_file := Some name\<rparr>;
          (rv, a1, out) = init_ras regnum files name a
      in log_out out (set_as p (insert_bps bpid a1)
           (s\<lparr>sc_next := Suc p, sc_as_map := AList.update 0 p (sc_as_map s)\<rparr>)))"

text \<open>The assertion that the process is not the kernel does not stop the callback.\<close>

definition syncchar_load_map_callback :: "env \<Rightarrow> (string \<Rightarrow> u32) \<Rightarrow> (string \<Rightarrow> map_line list option)
    \<Rightarrow> (u32 \<Rightarrow> int) \<Rightarrow> string \<Rightarrow> syncchar \<Rightarrow> syncchar option" where
  "syncchar_load_map_callback e regnum files bpid name s =
     (case map_of (sc_as_map s) (ev_spid e) of
        None \<Rightarrow>
          (let p = sc_next s;
               a = (as_new (WorkSet_new 0 (ev_spid e) 0 0xffffffff (int (ev_cpu e))))\<lparr>ad_map_file := Some name\<rparr>;
               (rv, a1, out) = init_ras regnum files name a
           in Some (log_out out (set_as p (insert_bps bpid a1)
                (s\<lparr>sc_next := Suc p, sc_as_map := AList.update (ev_spid e) p (sc_as_map s)\<rparr>))))
      | Some p \<Rightarrow> do {
          a \<leftarrow> as_at s p;
          let (rv, a1, out) = init_ras regnum files name (a\<lparr>ad_map_file := Some name\<rparr>) in
          Some (log_out out (set_as p (insert_bps bpid a1) s))
        })"

end
