(* ===== verification/SyncChar_Stats.thy ===== *)
theory SyncChar_Stats
  imports SyncChar_Events
begin

text \<open>
  Statistics, attributes and the creation of an instance of the lock tracker
  (\<^verbatim>\<open>sync_char/sync_char.cc\<close>).  The text other modules contribute to the statistics (cache and
  kernel time statistics) is a parameter.
\<close>

section \<open>Statistics\<close>

definition reset_lock :: "u32 \<Rightarrow> lock \<Rightarrow> lock" where
  "reset_lock addr lk =
     lk\<lparr>lk_callers := map (\<lambda>(ra, c). (ra, caller_zero)) (lk_callers lk),
        lk_aggregate := WorkSet_new addr 0 (of_int (lk_generation lk)) 0xffffffff 0\<rparr>"

definition reset_as :: "as_data \<Rightarrow> as_data" where
  "reset_as a = a\<lparr>ad_lockmap := map (\<lambda>(addr, lk). (addr, reset_lock addr lk)) (ad_lockmap a)\<rparr>"

fun reset_all :: "nat list \<Rightarrow> syncchar \<Rightarrow> syncchar option" where
  "reset_all [] s = Some s"
| "reset_all (p # ps) s = (case as_at s p of None \<Rightarrow> None | Some a \<Rightarrow> reset_all ps (set_as p (reset_as a) s))"

definition reset_stats :: "syncchar \<Rightarrow> syncchar option" where
  "reset_stats s = map_option (log_out [Str ''RESET_STATS'', Endl]) (reset_all (map snd (sc_as_map s)) s)"

text \<open>Only the processes that hold a lock stay in its acquisition map.\<close>

definition reduce_acq :: "lock \<Rightarrow> lock" where
  "reduce_acq lk = lk\<lparr>lk_acq := filter (\<lambda>x. si_acq_cyc (snd x) \<noteq> 0) (lk_acq lk)\<rparr>"

definition print_locks :: "(u32 \<times> lock) list \<Rightarrow> (u32 \<times> ra) list \<Rightarrow> (u32 \<times> ra) list \<times> ostream" where
  "print_locks locks ramap = foldl (\<lambda>acc x.
     let (ramap', out) = print_lock (fst x) (snd x) (fst acc) in (ramap', snd acc @ out)) (ramap, []) locks"

definition stats_as :: "as_data \<Rightarrow> as_data \<times> ostream" where
  "stats_as a =
     (let (ramap, out) = print_locks (ad_lockmap a) (ad_ramap a) in
      (a\<lparr>ad_ramap := ramap, ad_lockmap := map (\<lambda>(addr, lk). (addr, reduce_acq lk)) (ad_lockmap a)\<rparr>, out))"

fun stats_all :: "nat list \<Rightarrow> nat list \<Rightarrow> syncchar \<Rightarrow> syncchar option" where
  "stats_all seen [] s = Some s"
| "stats_all seen (p # ps) s =
     (if p \<in> set seen then stats_all seen ps s
      else (case as_at s p of
              None \<Rightarrow> None
            | Some a \<Rightarrow> (let (a', out) = stats_as a in stats_all (p # seen) ps (log_out out (set_as p a' s)))))"

definition cycle_lines :: "cycles list \<Rightarrow> cycles list \<Rightarrow> ostream" where
  "cycle_lines now start = concat (map (\<lambda>i. [Str ''Cycles '', Dec (int i), Str '': '',
     Dec (sint (now ! i - start ! i)), Str NL]) [0..<length now])"

definition get_stats :: "ostream \<Rightarrow> ostream \<Rightarrow> cycles list \<Rightarrow> cycles list \<Rightarrow> syncchar \<Rightarrow> syncchar option" where
  "get_stats caches kstats now start s =
     map_option (log_out [Str ''SYNCCHAR: End of Stats'', Endl])
       (stats_all [] (map snd (sc_as_map s)) (log_out (caches @ kstats @ cycle_lines now start) s))"

section \<open>Attributes\<close>

definition state_name :: "lkst \<Rightarrow> string" where
  "state_name st = (case st of LKST_OPEN \<Rightarrow> ''LKST_OPEN'' | LKST_RLK \<Rightarrow> ''LKST_RLK''
     | LKST_WRLK \<Rightarrow> ''LKST_WRLK'' | LKST_CXA \<Rightarrow> ''Unknown State'')"

definition lock_id_name :: "u32 \<Rightarrow> string" where
  "lock_id_name i =
     (if i = L_SEMA then ''L_SEMA'' else if i = L_RSEMA then ''L_RSEMA''
      else if i = L_WSEMA then ''L_WSEMA'' else if i = L_SPIN then ''L_SPIN''
      else if i = L_RSPIN then ''L_RSPIN'' else if i = L_WSPIN then ''L_WSPIN''
      else if i = L_MUTEX then ''L_MUTEX'' else if i = L_COMPL then ''L_COMPL''
      else if i = L_RCU then ''L_RCU'' else if i = L_FUTEX then ''L_FUTEX''
      else if i = L_CXA then ''L_CXA'' else if i = L_CXE then ''L_CXE''
      else ''Unknown Lock ID'')"

text \<open>The value of the entry \<^verbatim>\<open>worksets\<close> is never assigned.\<close>

definition lock_attr :: "lock \<Rightarrow> attr_value" where
  "lock_attr lk = Sim_Val_Dict (map (\<lambda>(k, v). (Sim_Val_String k, v))
     [(''state'', Sim_Val_String (state_name (lk_state lk))),
      (''lkval'', Sim_Val_Integer (sint (lk_lkval lk))),
      (''queue'', Sim_Val_Boolean (lk_queue lk)),
      (''lock_id'', Sim_Val_String (lock_id_name (lk_lock_id lk))),
      (''spid_owner'', Sim_Val_Integer (uint (lk_spid_owner lk))),
      (''acq'', Sim_Val_Nil), (''callers'', Sim_Val_Nil),
      (''name'', Sim_Val_String (lk_name lk)),
      (''worksets'', Sim_Val_Invalid),
      (''depend_av'', Sim_Val_Nil), (''total_av'', Sim_Val_Nil), (''percent_av'', Sim_Val_Nil)])"

definition get_lockmap :: "syncchar \<Rightarrow> attr_value option" where
  "get_lockmap s = (case find_as s 0 of None \<Rightarrow> None
     | Some a \<Rightarrow> Some (Sim_Val_Dict (map (\<lambda>(addr, lk). (Sim_Val_Integer (uint addr), lock_attr lk)) (ad_lockmap a))))"

definition set_archived_worksets :: "int \<Rightarrow> syncchar \<Rightarrow> syncchar" where
  "set_archived_worksets n s = s\<lparr>sc_archived_worksets := n\<rparr>"

definition set_logWorksets :: "bool \<Rightarrow> syncchar \<Rightarrow> syncchar" where
  "set_logWorksets b s = s\<lparr>sc_logWorksets := b\<rparr>"

definition set_afterBoot :: "bool \<Rightarrow> syncchar \<Rightarrow> syncchar" where
  "set_afterBoot b s = s\<lparr>sc_afterBoot := b\<rparr>"

text \<open>
  A nil value clears the pointer of the module, not the one the tracker reads through.
  \<open>provides\<close> tells whether the object has the transactional memory interface.
\<close>

definition set_osatxm :: "(attr_value \<Rightarrow> bool) \<Rightarrow> attr_value \<Rightarrow> syncchar \<Rightarrow> syncchar \<times> set_error" where
  "set_osatxm provides v s =
     (if v = Sim_Val_Nil then (s, Sim_Set_Ok)
      else if provides v then (s\<lparr>sc_osatxm := True\<rparr>, Sim_Set_Ok)
      else (s\<lparr>sc_osatxm := False\<rparr>, Sim_Set_Interface_Not_Found))"

definition set_system_attribute :: "nat \<Rightarrow> syncchar \<Rightarrow> syncchar" where
  "set_system_attribute ncpus s = s\<lparr>sc_exception_addrs := replicate ncpus 0\<rparr>"

definition new_sync_char_instance :: "string \<Rightarrow> syncchar" where
  "new_sync_char_instance ctime =
     \<lparr>sc_as_map = [], sc_heap = [], sc_next = 0, sc_exception_addrs = [], sc_archived_worksets = 1,
      sc_dbg_bp = - 1, sc_osatxm = False, sc_logWorksets = True, sc_afterBoot = False, sc_spcl = [],
      sc_log = [Str ''Started simulation at '', Str ctime]\<rparr>"

end
