(* ===== verification/SyncChar_Inv.thy ===== *)
theory SyncChar_Inv
  imports SyncChar_Stats
begin

text \<open>
  Well-formed address spaces of the lock tracker and that every lock operation keeps them: each lock
  is stored under its address, each open working set belongs to a lock that is in the lock map, and
  all working sets are well formed.  The reference count of an address space is not touched.
\<close>

section \<open>Well-formed states\<close>

definition lk_good :: "u32 \<Rightarrow> lock \<Rightarrow> bool" where
  "lk_good addr lk \<longleftrightarrow> lk_addr lk = addr \<and> ws_ok (ws_set (lk_aggregate lk))"

definition entry_good :: "(u32 \<times> lock) list \<Rightarrow> lock_it \<times> WorkSet \<Rightarrow> bool" where
  "entry_good locks x \<longleftrightarrow> lock_addr (ws_id (snd x)) = fst (fst x) \<and> ws_ok (ws_set (snd x)) \<and>
     map_of locks (fst (fst x)) \<noteq> None"

definition as_ok :: "as_data \<Rightarrow> bool" where
  "as_ok a \<longleftrightarrow> (\<forall>addr lk. map_of (ad_lockmap a) addr = Some lk \<longrightarrow> lk_good addr lk) \<and>
     (\<forall>spid wl. map_of (ad_locksetmap a) spid = Some wl \<longrightarrow> list_all (entry_good (ad_lockmap a)) wl) \<and>
     ws_ok (ws_set (ad_asym a))"

named_theorems as_ok_intros \<open>operations that keep an address space well formed\<close>

lemma as_okD:
  "as_ok a \<Longrightarrow> map_of (ad_lockmap a) addr = Some lk \<Longrightarrow> lk_good addr lk"
  "as_ok a \<Longrightarrow> map_of (ad_locksetmap a) spid = Some wl \<Longrightarrow> list_all (entry_good (ad_lockmap a)) wl"
  "as_ok a \<Longrightarrow> ws_ok (ws_set (ad_asym a))"
  by (auto simp: as_ok_def)

lemma entry_good_update [simp]:
  "entry_good locks x \<Longrightarrow> entry_good (AList.update addr lk locks) x"
  by (auto simp: entry_good_def)

lemma entries_good_update [simp]:
  "list_all (entry_good locks) wl \<Longrightarrow> list_all (entry_good (AList.update addr lk locks)) wl"
  by (auto simp: list_all_iff)

lemma entries_good_mono:
  "list_all (entry_good locks) wl \<Longrightarrow> dom (map_of locks) \<subseteq> dom (map_of locks') \<Longrightarrow> list_all (entry_good locks') wl"
  by (auto simp: list_all_iff entry_good_def dom_def)

lemma as_ok_set_lock [as_ok_intros]: "as_ok a \<Longrightarrow> lk_good addr lk \<Longrightarrow> as_ok (set_lock addr lk a)"
  by (auto simp: as_ok_def set_lock_def)

lemma as_ok_set_worksets [as_ok_intros]:
  "as_ok a \<Longrightarrow> list_all (entry_good (ad_lockmap a)) wl \<Longrightarrow> as_ok (set_worksets spid wl a)"
  by (auto simp: as_ok_def set_worksets_def)

lemma set_as_fields [simp]:
  "ad_lockmap (set_worksets spid wl a) = ad_lockmap a"
  "ad_locksetmap (set_lock addr lk a) = ad_locksetmap a"
  "ad_lockmap (set_lock addr lk a) = AList.update addr lk (ad_lockmap a)"
  "ad_locksetmap (set_worksets spid wl a) = AList.update spid wl (ad_locksetmap a)"
  "ad_asym (set_lock addr lk a) = ad_asym a" "ad_asym (set_worksets spid wl a) = ad_asym a"
  "ad_ramap (set_lock addr lk a) = ad_ramap a" "ad_ramap (set_worksets spid wl a) = ad_ramap a"
  "ad_ref_count (set_lock addr lk a) = ad_ref_count a" "ad_ref_count (set_worksets spid wl a) = ad_ref_count a"
  "ad_ad_count (set_lock addr lk a) = ad_ad_count a" "ad_ad_count (set_worksets spid wl a) = ad_ad_count a"
  by (simp_all add: set_lock_def set_worksets_def)

section \<open>Locks\<close>

lemma lk_good_fields [simp]:
  "lk_good addr (upd_caller ra f lk) = lk_good addr lk"
  "lk_good addr (upd_acq spid g lk) = lk_good addr lk"
  "lk_good addr (set_st st lk) = lk_good addr lk"
  "lk_good addr (lk\<lparr>lk_lkval := v\<rparr>) = lk_good addr lk"
  "lk_good addr (lk\<lparr>lk_queue := q\<rparr>) = lk_good addr lk"
  "lk_good addr (lk\<lparr>lk_readers := rs\<rparr>) = lk_good addr lk"
  "lk_good addr (lk\<lparr>lk_spid_owner := ow\<rparr>) = lk_good addr lk"
  "lk_good addr (lk\<lparr>lk_callers := cs\<rparr>) = lk_good addr lk"
  "lk_good addr (lk\<lparr>lk_workset_count := n\<rparr>) = lk_good addr lk"
  "lk_good addr (lk\<lparr>lk_nest_av := av\<rparr>) = lk_good addr lk"
  "lk_good addr (lk\<lparr>lk_acq := acq\<rparr>) = lk_good addr lk"
  "lk_good addr (add_reader spid lk) = lk_good addr lk"
  by (simp_all add: lk_good_def upd_caller_def upd_acq_def set_st_def add_reader_def)

lemma lk_good_new [simp]: "lk_good addr (new_lock i addr v l g)"
  by (simp add: lk_good_def new_lock_def WorkSet_new_def ws_ok_def)

lemma lk_good_update_state [simp]: "lk_good addr (fst (update_current_lock_state e t lk)) = lk_good addr lk"
  by (simp add: update_current_lock_state_def sema_state_def rwsem_state_def spin_state_def rwspin_state_def
      cxa_state_def cxe_state_def Let_def)

lemma lk_good_contention_step:
  "lk_good addr (fst (snd (contention_step t acc w))) = lk_good addr (fst (snd acc))"
  by (cases acc) (auto simp: contention_step_def Let_def)

lemma lk_good_contention_fold:
  "lk_good addr (fst (snd (foldl (contention_step t) acc wl))) = lk_good addr (fst (snd acc))"
  by (induction wl arbitrary: acc) (simp_all add: lk_good_contention_step)

lemma lk_good_record1: "record_contention1 e s spid t lk = Some (lk', out) \<Longrightarrow> lk_good addr lk' = lk_good addr lk"
  using lk_good_contention_fold[of addr t "(0, lk, [])"]
  by (auto simp: record_contention1_def split: option.splits prod.splits) (metis fst_conv snd_conv)+

lemma lk_good_record_all:
  "record_contention_all e s rs t lk = Some (lk', out) \<Longrightarrow> lk_good addr lk' = lk_good addr lk"
  by (induction rs arbitrary: lk lk' out) (auto split: option.splits prod.splits dest: lk_good_record1)

lemma lk_good_record_contention:
  "record_contention e s t lk = Some (lk', out) \<Longrightarrow> lk_good addr lk' = lk_good addr lk"
  by (auto simp: record_contention_def split: if_splits dest: lk_good_record1 lk_good_record_all)

lemma lk_good_release: "release_lock e t lk = (lk', ra, out) \<Longrightarrow> lk_good addr lk' = lk_good addr lk"
  by (auto simp: release_lock_def Let_def split: prod.splits if_splits)

lemma lk_good_charge: "charge_caller t lk = (lk', out) \<Longrightarrow> lk_good addr lk' = lk_good addr lk"
  by (auto simp: charge_caller_def Let_def split: prod.splits)

lemma lk_good_take: "take_lock e t lk = (lk', out) \<Longrightarrow> lk_good addr lk' = lk_good addr lk"
  by (auto simp: take_lock_def split: if_splits)

section \<open>Address spaces\<close>

text \<open>\<open>keeps a a'\<close>: the operation keeps the address space well formed and its reference count.\<close>

definition keeps :: "as_data \<Rightarrow> as_data \<Rightarrow> bool" where
  "keeps a a' \<longleftrightarrow> (as_ok a \<longrightarrow> as_ok a') \<and> ad_ref_count a' = ad_ref_count a"

lemma keeps_refl [simp]: "keeps a a"
  by (simp add: keeps_def)

lemma keeps_trans: "keeps a b \<Longrightarrow> keeps b c \<Longrightarrow> keeps a c"
  by (simp add: keeps_def)

lemma keeps_set_lock: "(as_ok a \<Longrightarrow> lk_good addr lk) \<Longrightarrow> keeps a (set_lock addr lk a)"
  by (auto simp: keeps_def intro: as_ok_set_lock)

lemma keeps_same:
  "ad_lockmap a' = ad_lockmap a \<Longrightarrow> ad_locksetmap a' = ad_locksetmap a \<Longrightarrow> ad_asym a' = ad_asym a \<Longrightarrow>
   ad_ref_count a' = ad_ref_count a \<Longrightarrow> keeps a a'"
  by (simp add: keeps_def as_ok_def)

lemma keeps_allocate: "allocate_lock i addr v l a = (a', out) \<Longrightarrow> keeps a a'"
proof (cases "map_of (ad_lockmap a) addr")
  case (Some old)
  assume h: "allocate_lock i addr v l a = (a', out)"
  obtain ramap o1 where "print_lock addr old (ad_ramap a) = (ramap, o1)" by fastforce
  then have a': "a' = set_lock addr (new_lock i addr v l (lk_generation old + 1))
      (a\<lparr>ad_ramap := ramap, ad_lockmap := AList.delete addr (ad_lockmap a)\<rparr>)"
    using h Some by (simp add: allocate_lock_def)
  have m: "map_of (ad_lockmap a') = (map_of (ad_lockmap a))(addr \<mapsto> new_lock i addr v l (lk_generation old + 1))"
    by (simp add: a')
  have "as_ok a'" if ok: "as_ok a"
    unfolding as_ok_def
  proof (intro conjI allI impI)
    fix spid wl assume "map_of (ad_locksetmap a') spid = Some wl"
    then have "list_all (entry_good (ad_lockmap a)) wl" using ok a' by (auto dest: as_okD)
    then show "list_all (entry_good (ad_lockmap a')) wl"
      by (rule entries_good_mono) (auto simp: m)
  qed (use ok a' m in \<open>auto simp: as_ok_def split: if_splits\<close>)
  then show ?thesis by (simp add: keeps_def a')
qed (auto simp: allocate_lock_def intro!: keeps_set_lock)

lemma map_of_allocate: "map_of (ad_lockmap (fst (allocate_lock i addr v l a))) addr =
    Some (new_lock i addr v l (case map_of (ad_lockmap a) addr of None \<Rightarrow> 0 | Some old \<Rightarrow> lk_generation old + 1))"
  by (auto simp: allocate_lock_def Let_def split: option.splits prod.splits)

lemma keeps_find_or_allocate: "find_or_allocate e t a = (a', out) \<Longrightarrow> keeps a a'"
  by (auto simp: find_or_allocate_def Let_def split: option.splits prod.splits dest: keeps_allocate)

lemma keeps_initialize:
  assumes "initialize_transition e s bp a = Some (t, a', out)"
  shows "keeps a a'"
proof -
  obtain r a1 lk lk3 where a1: "find_or_allocate e (start_info e s bp r) a = (a1, out)"
      "map_of (ad_lockmap a1) (ti_lock_addr (start_info e s bp r)) = Some lk"
      "a' = set_lock (ti_lock_addr (start_info e s bp r)) lk3 a1"
      "\<And>addr. lk_good addr lk3 = lk_good addr lk"
    using assms by (fastforce simp: initialize_transition_def Let_def split: option.splits prod.splits)
  have "keeps a1 a'" unfolding a1(3) using a1(2,4) by (intro keeps_set_lock) (auto dest: as_okD)
  then show ?thesis using keeps_find_or_allocate[OF a1(1)] keeps_trans by blast
qed

lemma entries_good_reopen [simp]: "list_all (entry_good locks) (ws_reopen k wl) = list_all (entry_good locks) wl"
  by (induction k wl rule: ws_reopen.induct) (auto simp: entry_good_def)

lemma keeps_set_worksets:
  "(as_ok a \<Longrightarrow> list_all (entry_good (ad_lockmap a)) wl) \<Longrightarrow> keeps a (set_worksets spid wl a)"
  by (auto simp: keeps_def intro: as_ok_set_worksets)

lemma entry_good_new: "map_of locks addr \<noteq> None \<Longrightarrow> entry_good locks ((addr, g), WorkSet_new addr spid x y z)"
  by (simp add: entry_good_def WorkSet_new_def ws_ok_def)

lemma keeps_open_new:
  assumes "map_of (ad_lockmap a) addr = Some lk" "\<And>addr. lk_good addr lk' = lk_good addr lk"
    "as_ok a \<Longrightarrow> list_all (entry_good (ad_lockmap a)) wl"
  shows "keeps a (set_lock addr lk' (set_worksets spid (((addr, h), WorkSet_new addr spid g n c) # wl) a))"
proof (rule keeps_trans)
  show "keeps a (set_worksets spid (((addr, h), WorkSet_new addr spid g n c) # wl) a)"
    using assms by (intro keeps_set_worksets) (simp add: entry_good_new)
qed (use assms(1,2) in \<open>auto intro!: keeps_set_lock dest: as_okD\<close>)

lemma keeps_open: "open_workset e t a = Some (a', out) \<Longrightarrow> keeps a a'"
  by (auto simp: open_workset_def Let_def split: option.splits if_splits
      intro!: keeps_open_new keeps_set_worksets dest: as_okD)

lemma get_lsit_good: "get_lsit spid name ow a = Some (k, wl) \<Longrightarrow> as_ok a \<Longrightarrow> list_all (entry_good (ad_lockmap a)) wl"
  by (auto simp: get_lsit_def Let_def dest: as_okD)

lemma ws_close_good: "ws_close k wl = Some (wl', r) \<Longrightarrow> list_all (entry_good locks) wl \<Longrightarrow> list_all (entry_good locks) wl'"
  by (induction k wl arbitrary: wl' r rule: ws_close.induct)
    (auto simp: entry_good_def Let_def split: if_splits)

lemma keeps_rotate: "rotate_asym b spid a = (a', out) \<Longrightarrow> keeps a a'"
  by (auto simp: rotate_asym_def Let_def keeps_def as_ok_def WorkSet_new_def ws_ok_def split: if_splits)

lemma keeps_close: "close_workset e b t a = Some (a', out) \<Longrightarrow> keeps a a'"
proof -
  assume h: "close_workset e b t a = Some (a', out)"
  then obtain lk where lk: "map_of (ad_lockmap a) (ti_lock_addr t) = Some lk"
    by (auto simp: close_workset_def split: option.splits)
  show ?thesis
  proof (cases "get_lsit (ti_spid t) (lk_name lk) (ti_spid_owner t) a")
    case None then show ?thesis using h lk by (simp add: close_workset_def)
  next
    case (Some kwl)
    obtain k wl where kwl: "kwl = (k, wl)" by fastforce
    have good: "\<And>wl' r. ws_close (ti_lock_addr t, lk_generation lk) wl = Some (wl', r) \<Longrightarrow>
        keeps a (set_worksets k wl' a)"
      using get_lsit_good Some kwl ws_close_good by (blast intro: keeps_set_worksets)
    obtain a1 out2 where "rotate_asym b (ti_spid t) a1 = (a', out2)" "keeps a a1"
      using h lk Some kwl good by (auto simp: close_workset_def split: option.splits prod.splits)
    then show ?thesis using keeps_rotate keeps_trans by blast
  qed
qed

lemma ws_add_contended_good:
  "ws_add_contended addr ids wl = Some wl' \<Longrightarrow> list_all (entry_good locks) wl \<Longrightarrow> list_all (entry_good locks) wl'"
  by (induction addr ids wl arbitrary: wl' rule: ws_add_contended.induct)
    (auto simp: entry_good_def split: if_splits)


lemma keeps_hand_over:
  assumes "hand_over_contention e t ra lk a = (a', b, out)" "map_of (ad_lockmap a) (ti_lock_addr t) = Some lk"
  shows "keeps a a'"
proof (cases "get_lsit (ev_spid e) (lk_name lk) (ti_spid_owner t) a")
  case None then show ?thesis using assms by (auto simp: hand_over_contention_def Let_def split: if_splits)
next
  case (Some kwl)
  obtain k wl where kwl: "kwl = (k, wl)" by fastforce
  have w: "keeps a (set_worksets k wl' a)" if "ws_add_contended (ti_lock_addr t) ids wl = Some wl'" for ids wl'
    using get_lsit_good Some kwl ws_add_contended_good that by (blast intro: keeps_set_worksets)
  have l: "keeps b (set_lock (ti_lock_addr t) (upd_caller ra f lk) b)"
    if "map_of (ad_lockmap b) (ti_lock_addr t) = Some lk" for b f
    using that by (auto intro!: keeps_set_lock dest: as_okD)
  have "keeps a (set_lock (ti_lock_addr t) (upd_caller ra f lk) (set_worksets k wl' a))"
    if "ws_add_contended (ti_lock_addr t) ids wl = Some wl'" for ids wl' f
    using keeps_trans[OF w[OF that] l] assms(2) by simp
  then show ?thesis using assms Some kwl l[OF assms(2)]
    by (auto simp: hand_over_contention_def Let_def split: if_splits option.splits)
qed

lemma keeps_finish:
  assumes "finish_unlock e s t lk a = Some (a', out)" "as_ok a \<Longrightarrow> lk_good (ti_lock_addr t) lk"
  shows "keeps a a'"
proof -
  obtain lk1 ra out1 where r: "release_lock e t lk = (lk1, ra, out1)" by (rule prod_cases3)
  obtain a2 b out2 where h: "hand_over_contention e t ra lk1 (set_lock (ti_lock_addr t) lk1 a) = (a2, b, out2)"
    by (rule prod_cases3)
  have "keeps a (set_lock (ti_lock_addr t) lk1 a)"
    using assms(2) lk_good_release[OF r] by (intro keeps_set_lock) simp
  moreover have "keeps (set_lock (ti_lock_addr t) lk1 a) a2" by (rule keeps_hand_over[OF h]) simp
  ultimately have "keeps a a2" by (rule keeps_trans)
  then show ?thesis using assms(1) r h
    by (auto simp: finish_unlock_def split: if_splits intro: keeps_trans dest: keeps_close)
qed

lemma keeps_unlock: "process_unlock e s t a = Some (a', out) \<Longrightarrow> keeps a a'"
  by (auto simp: process_unlock_def split: option.splits if_splits
      intro!: keeps_set_lock elim!: keeps_finish dest: as_okD)

section \<open>Transitions\<close>

definition ts_keeps :: "tstate \<Rightarrow> tstate \<Rightarrow> bool" where
  "ts_keeps x y \<longleftrightarrow> keeps (ts_as x) (ts_as y)"

lemma ts_keeps_simps [simp]:
  "ts_keeps x x" "ts_keeps x (ts_print out y) = ts_keeps x y" "ts_keeps (ts_print out x) y = ts_keeps x y"
  "ts_keeps x (y\<lparr>ts_spcl := m\<rparr>) = ts_keeps x y"
  by (simp_all add: ts_keeps_def ts_print_def)

lemma ts_keeps_lock: "(as_ok (ts_as x) \<Longrightarrow> lk_good addr lk) \<Longrightarrow> ts_keeps x (ts_lock addr lk x)"
  by (simp add: ts_keeps_def ts_lock_def keeps_set_lock)

lemma ts_keeps_trans: "ts_keeps x y \<Longrightarrow> ts_keeps y z \<Longrightarrow> ts_keeps x z"
  by (auto simp: ts_keeps_def intro: keeps_trans)

lemma ts_keeps_run: "ts_run f x = Some y \<Longrightarrow> (\<And>a' out. f (ts_as x) = Some (a', out) \<Longrightarrow> keeps (ts_as x) a') \<Longrightarrow> ts_keeps x y"
  by (auto simp: ts_run_def ts_keeps_def ts_print_def)

lemma ts_keeps_locked_out:
  assumes "locked_out e s t w lk x = Some y" "as_ok (ts_as x) \<Longrightarrow> lk_good (ti_lock_addr t) lk"
  shows "ts_keeps x y"
proof (cases "\<not> has (ti_flags t) F_TRYLOCK \<and> si_req_cyc (get_acq lk (ti_spid t)) = 0")
  case True
  obtain lk2 out2 out where r: "record_contention e s t (upd_acq (ti_spid t) (\<lambda>i. i\<lparr>si_req_cyc := ti_bp_cyc t\<rparr>) lk) = Some (lk2, out2)"
      "y = ts_print out (ts_lock (ti_lock_addr t) lk2 x)"
    using assms(1) True by (auto simp: locked_out_def Let_def)
  then show ?thesis using assms(2) lk_good_record_contention[OF r(1), of "ti_lock_addr t"]
    by (simp add: ts_keeps_lock)
qed (use assms(1) in \<open>auto simp: locked_out_def\<close>)

lemma ts_keeps_reset_cxa: "ts_keeps x (reset_cxa t x)"
  by (auto simp: reset_cxa_def ts_keeps_def ts_lock_def split: option.splits intro!: keeps_set_lock dest: as_okD)


lemma ts_keeps_acquire:
  assumes "acquire e s t lk x = Some y" "as_ok (ts_as x) \<Longrightarrow> lk_good (ti_lock_addr t) lk"
  shows "ts_keeps x y"
proof -
  obtain lk1 out1 where t: "take_lock e t lk = (lk1, out1)" by fastforce
  show ?thesis
  proof (cases "lk_state lk = LKST_RLK \<and> is_reader (ti_spid t) lk")
    case True
    then show ?thesis using assms t lk_good_take[OF t]
      by (auto simp: acquire_def Let_def intro!: ts_keeps_lock)
  next
    case False
    obtain lk2 out3 where c: "(if current_tx e s = 0 then charge_caller t lk1 else (lk1, [])) = (lk2, out3)" by fastforce
    then have g: "lk_good addr lk2 = lk_good addr lk" for addr
      using lk_good_charge lk_good_take[OF t] by (auto split: if_splits)
    obtain out m where x1: "map_option (reset_cxa t) (let x1 = ts_print out (ts_lock (ti_lock_addr t)
        (upd_acq (ti_spid t) (lock_spid_info t) lk2) (x\<lparr>ts_spcl := m\<rparr>)) in
        if sc_logWorksets s then ts_run (open_workset e t) x1 else Some x1) = Some y"
      using assms(1) t c False by (simp add: acquire_def Let_def)
    let ?x1 = "ts_print out (ts_lock (ti_lock_addr t) (upd_acq (ti_spid t) (lock_spid_info t) lk2) (x\<lparr>ts_spcl := m\<rparr>))"
    have k1: "ts_keeps x ?x1"
      using ts_keeps_lock[of "x\<lparr>ts_spcl := m\<rparr>" "ti_lock_addr t" "upd_acq (ti_spid t) (lock_spid_info t) lk2"] g assms(2)
      by (simp add: ts_keeps_def ts_print_def)
    obtain z where z: "y = reset_cxa t z" "(if sc_logWorksets s then ts_run (open_workset e t) ?x1 else Some ?x1) = Some z"
      using x1 by (auto simp: Let_def)
    have "ts_keeps ?x1 z" using z(2) ts_keeps_run[of "open_workset e t" ?x1 z] keeps_open by (auto split: if_splits)
    then show ?thesis unfolding z(1) using k1 ts_keeps_trans ts_keeps_reset_cxa by blast
  qed
qed

lemma ts_keeps_from_open:
  assumes "from_open e s t lk x = Some y" "as_ok (ts_as x) \<Longrightarrow> lk_good (ti_lock_addr t) lk"
  shows "ts_keeps x y"
  using assms by (auto simp: from_open_def Let_def split: if_splits
      elim: ts_keeps_locked_out ts_keeps_acquire intro!: ts_keeps_lock)

lemma ts_keeps_from_write:
  assumes "from_write e s t lk x = Some y" "as_ok (ts_as x) \<Longrightarrow> lk_good (ti_lock_addr t) lk"
  shows "ts_keeps x y"
  using assms by (auto simp: from_write_def Let_def split: if_splits lkst.splits
      elim: ts_keeps_locked_out ts_keeps_run dest: keeps_unlock)

lemma ts_keeps_from_read:
  assumes "from_read e s t lk x = Some y" "as_ok (ts_as x) \<Longrightarrow> lk_good (ti_lock_addr t) lk"
  shows "ts_keeps x y"
proof (cases "lk_state lk")
  case LKST_OPEN
  then show ?thesis using assms(1) ts_keeps_run[of "process_unlock e s t"] keeps_unlock
    by (auto simp: from_read_def split: if_splits) (metis ts_keeps_simps(3))
next
  case LKST_RLK
  show ?thesis
  proof (cases "ti_read_lock t \<and> \<not> is_reader (ti_spid t) lk")
    case True
    then obtain x1 lk1 lk2 out where x1: "ts_run (open_workset e t) (ts_lock (ti_lock_addr t) (add_reader (ti_spid t) lk) x) = Some x1"
        "map_of (ad_lockmap (ts_as x1)) (ti_lock_addr t) = Some lk1" "charge_caller t lk1 = (lk2, out)"
        "y = ts_print out (ts_lock (ti_lock_addr t) (upd_acq (ti_spid t) (lock_spid_info t) lk2) x1)"
      using assms(1) LKST_RLK by (auto simp: from_read_def Let_def split: prod.splits elim!: bind_eq_Some_conv[THEN iffD1, elim_format])
    have "ts_keeps x (ts_lock (ti_lock_addr t) (add_reader (ti_spid t) lk) x)"
      using assms(2) by (intro ts_keeps_lock) simp
    moreover have "ts_keeps (ts_lock (ti_lock_addr t) (add_reader (ti_spid t) lk) x) x1"
      using x1(1) by (rule ts_keeps_run) (rule keeps_open)
    moreover have "ts_keeps x1 y" unfolding x1(4) using x1(2) lk_good_charge[OF x1(3)]
      by (auto intro!: ts_keeps_lock dest: as_okD)
    ultimately show ?thesis using ts_keeps_trans by blast
  next
    case False
    then show ?thesis using assms LKST_RLK
      by (auto simp: from_read_def split: if_splits intro!: ts_keeps_lock
          elim: ts_keeps_locked_out ts_keeps_run dest: keeps_unlock)
  qed
qed (use assms in \<open>auto simp: from_read_def intro!: ts_keeps_lock\<close>)

lemma ts_keeps_transition: "process_transition e s t x = Some y \<Longrightarrow> ts_keeps x y"
  by (auto simp: process_transition_def split: option.splits lkst.splits
      elim!: ts_keeps_from_open ts_keeps_from_read ts_keeps_from_write dest: as_okD)

lemma ts_keeps_track:
  assumes "track e s t x = Some y"
  shows "ts_keeps x y"
proof -
  obtain lk0 where lk0: "map_of (ad_lockmap (ts_as x)) (ti_lock_addr t) = Some lk0"
    using assms by (auto simp: track_def split: option.splits)
  have good: "as_ok (ts_as x) \<Longrightarrow> lk_good (ti_lock_addr t) lk0" using lk0 by (auto dest: as_okD)
  define lk where "lk = upd_caller (ti_caller_ra t) (\<lambda>c. c\<lparr>ca_count := ca_count c + 1\<rparr>) lk0"
  obtain lk1 out where u: "update_current_lock_state e t lk = (lk1, out)" by fastforce
  have "lk_good addr lk1 = lk_good addr lk0" for addr
    using lk_good_update_state[of addr e t lk, unfolded u] by (simp add: lk_def)
  then have k: "ts_keeps x (ts_print out (ts_lock (ti_lock_addr t) lk1 x))"
    using good by (auto intro!: ts_keeps_lock)
  show ?thesis
  proof (cases "has (ti_flags t) F_NOADDR \<or> ti_lock_id t = L_COMPL")
    case True
    then show ?thesis using assms lk0 good by (auto simp: track_def Let_def intro!: ts_keeps_lock)
  next
    case False
    then obtain t1 where "process_transition e s t1 (ts_print out (ts_lock (ti_lock_addr t) lk1 x)) = Some y"
      using assms lk0 u by (auto simp: track_def Let_def lk_def)
    then show ?thesis using k ts_keeps_transition ts_keeps_trans by blast
  qed
qed
end
