(* ===== verification/SyncChar_Access.thy ===== *)
theory SyncChar_Access
  imports SyncChar_Inv
begin

text \<open>
  What memory accesses, device accesses, scheduling and statistics do to a well-formed address
  space: they return, keep it well formed, and an access grows the open working sets of the process
  and the aggregate working sets of their locks by exactly its bytes.
\<close>

section \<open>Memory accesses\<close>

definition mo_access :: "memop \<Rightarrow> access" where
  "mo_access m = (mo_address m, mo_size m, mo_type m)"

text \<open>\<open>grown L S w w'\<close>: \<open>w'\<close> is \<open>w\<close> with the reads \<open>L\<close> and the writes \<open>S\<close> added.\<close>

definition grown :: "logical_address set \<Rightarrow> logical_address set \<Rightarrow> WorkSet \<Rightarrow> WorkSet \<Rightarrow> bool" where
  "grown L S w w' \<longleftrightarrow> w' = w\<lparr>ws_set := ws_set w'\<rparr> \<and> ws_ok (ws_set w') \<and>
     read_set w' = read_set w \<union> L \<and> write_set w' = write_set w \<union> S"

lemma grow_grown:
  assumes "fits (mo_access m)" "ws_ok (ws_set w)"
  obtains w' where "grow (mo_address m) (mo_size m) (mo_type m) w = Some w'"
    "grown (loads (mo_access m)) (stores (mo_access m)) w w'"
proof -
  obtain w' where w': "grow (mo_address m) (mo_size m) (mo_type m) w = Some w'" "ws_ok (ws_set w')"
      "read_set w' = read_set w \<union> loads (mo_access m)" "write_set w' = write_set w \<union> stores (mo_access m)"
    using ws_recorder.record_one_ok[OF assms] by (auto simp: grow_access_def mo_access_def)
  moreover have "w' = w\<lparr>ws_set := ws_set w'\<rparr>" using w'(1) by (auto simp: grow_def)
  ultimately show thesis using that by (simp add: grown_def)
qed

lemma grown_id [simp]: "grown L S w w' \<Longrightarrow> ws_id w' = ws_id w"
  unfolding grown_def by (metis WorkSet.select_convs(2) WorkSet.surjective WorkSet.update_convs(9))

lemma grown_ok: "grown L S w w' \<Longrightarrow> ws_ok (ws_set w')"
  by (simp add: grown_def)

lemma grown_refl: "ws_ok (ws_set w) \<Longrightarrow> grown {} {} w w"
  by (simp add: grown_def)

lemma grown_again: "grown L S w w' \<Longrightarrow> grown L S w' w'' \<Longrightarrow> grown L S w w''"
  unfolding grown_def by (metis (no_types, lifting) WorkSet.surjective WorkSet.update_convs(9) sup_assoc sup_idem)

definition entry_grown :: "logical_address set \<Rightarrow> logical_address set \<Rightarrow> lock_it \<times> WorkSet \<Rightarrow> lock_it \<times> WorkSet \<Rightarrow> bool" where
  "entry_grown L S x y \<longleftrightarrow> fst y = fst x \<and> grown L S (snd x) (snd y)"

definition lock_grown :: "logical_address set \<Rightarrow> logical_address set \<Rightarrow> lock \<Rightarrow> lock \<Rightarrow> bool" where
  "lock_grown L S lk lk' \<longleftrightarrow> lk' = lk\<lparr>lk_aggregate := lk_aggregate lk'\<rparr> \<and> grown L S (lk_aggregate lk) (lk_aggregate lk')"

lemma lock_grown_good:
  assumes "lock_grown L S lk lk'" "lk_good addr lk"
  shows "lk_good addr lk'"
proof -
  have "lk' = lk\<lparr>lk_aggregate := lk_aggregate lk'\<rparr>" using assms(1) by (simp add: lock_grown_def)
  from arg_cong[OF this, of lk_addr] have "lk_addr lk' = lk_addr lk" by simp
  then show ?thesis using assms by (auto simp: lk_good_def lock_grown_def dest: grown_ok)
qed

lemma grow_worksets_all:
  assumes "fits (mo_access m)" "map_of locks (ucast (mo_address m)) = None" "list_all (entry_good locks) wl"
    "\<And>addr lk. map_of locks addr = Some lk \<Longrightarrow> lk_good addr lk"
  shows "\<exists>wl' locks'. grow_worksets m wl locks = Some (wl', locks') \<and>
    list_all2 (entry_grown (loads (mo_access m)) (stores (mo_access m))) wl wl' \<and>
    (\<forall>addr. rel_option (if addr \<in> (fst \<circ> fst) ` set wl then lock_grown (loads (mo_access m)) (stores (mo_access m)) else (=))
       (map_of locks addr) (map_of locks' addr))"
  using assms(2-4)
proof (induction wl arbitrary: locks)
  case Nil
  then show ?case by (simp add: option.rel_eq)
next
  case (Cons x wl)
  let ?L = "loads (mo_access m)" and ?S = "stores (mo_access m)"
  obtain k w where x: "x = (k, w)" by fastforce
  have w: "lock_addr (ws_id w) = fst k" "ws_ok (ws_set w)" using Cons.prems(2) x by (auto simp: entry_good_def)
  obtain lk where lk: "map_of locks (fst k) = Some lk" using Cons.prems(2) x by (auto simp: entry_good_def)
  then have "ws_ok (ws_set (lk_aggregate lk))" using Cons.prems(3) by (auto simp: lk_good_def)
  then obtain g where g: "grow (mo_address m) (mo_size m) (mo_type m) (lk_aggregate lk) = Some g" "grown ?L ?S (lk_aggregate lk) g"
    using grow_grown[OF assms(1)] by blast
  obtain w' where w': "grow (mo_address m) (mo_size m) (mo_type m) w = Some w'" "grown ?L ?S w w'"
    using grow_grown[OF assms(1) w(2)] by blast
  let ?lk = "lk\<lparr>lk_aggregate := g\<rparr>" let ?locks = "AList.update (fst k) (lk\<lparr>lk_aggregate := g\<rparr>) locks"
  have f: "map_of ?locks (ucast (mo_address m)) = None" using Cons.prems(1) lk by auto
  have gd: "\<And>addr lk. map_of ?locks addr = Some lk \<Longrightarrow> lk_good addr lk"
    using Cons.prems(3) lk g(2) by (auto simp: lk_good_def grown_ok split: if_splits)
  obtain wl' locks' where r: "grow_worksets m wl ?locks = Some (wl', locks')" "list_all2 (entry_grown ?L ?S) wl wl'"
     "\<forall>addr. rel_option (if addr \<in> (fst \<circ> fst) ` set wl then lock_grown ?L ?S else (=)) (map_of ?locks addr) (map_of locks' addr)"
    using Cons.IH[OF f _ gd] Cons.prems(2) by (auto simp: list_all_iff)
  have "grow_worksets m (x # wl) locks = Some ((k, w') # wl', locks')"
    using Cons.prems(1) x w w' lk g r(1) by simp
  moreover have "list_all2 (entry_grown ?L ?S) (x # wl) ((k, w') # wl')"
    using r(2) w'(2) x by (simp add: entry_grown_def)
  moreover have "rel_option (if addr \<in> (fst \<circ> fst) ` set (x # wl) then lock_grown ?L ?S else (=))
      (map_of locks addr) (map_of locks' addr)" for addr
  proof (cases "addr = fst k")
    case True
    have l: "lock_grown ?L ?S lk ?lk" using g(2) by (simp add: lock_grown_def)
    have "rel_option (if addr \<in> (fst \<circ> fst) ` set wl then lock_grown ?L ?S else (=)) (Some ?lk) (map_of locks' addr)"
      using r(3)[rule_format, of addr] True by simp
    then obtain lk' where lk': "map_of locks' addr = Some lk'" "lock_grown ?L ?S ?lk lk' \<or> ?lk = lk'"
      by (auto split: if_splits simp: option_rel_Some1)
    then have "lock_grown ?L ?S lk lk'"
      using l grown_again[OF g(2)] by (cases lk; cases lk') (auto simp: lock_grown_def)
    then show ?thesis using True lk lk'(1) x by simp
  next
    case False
    then show ?thesis using r(3)[rule_format, of addr] x by auto
  qed
  ultimately show ?case by blast
qed

lemma grow_worksets_filtered:
  "map_of locks (ucast (mo_address m)) \<noteq> None \<Longrightarrow> grow_worksets m wl locks = Some (wl, locks)"
  by (induction wl) auto

lemma access_as_keeps:
  assumes "fits (mo_access m)" "as_ok a"
  shows "\<exists>a'. access_as m spid a = Some a' \<and> keeps a a'"
proof (cases "\<exists>w wl. map_of (ad_locksetmap a) spid = Some (w # wl)")
  case False
  obtain d where "grow (mo_address m) (mo_size m) (mo_type m) (ad_asym a) = Some d" "ws_ok (ws_set d)"
    using grow_grown[OF assms(1) as_okD(3)[OF assms(2)]] by (metis grown_ok)
  then show ?thesis using False assms(2)
    by (auto simp: access_as_def keeps_def as_ok_def split: option.splits list.splits)
next
  case True
  then obtain w wl where wl: "map_of (ad_locksetmap a) spid = Some (w # wl)" by blast
  have good: "list_all (entry_good (ad_lockmap a)) (w # wl)" by (rule as_okD(2)[OF assms(2) wl])
  show ?thesis
  proof (cases "map_of (ad_lockmap a) (ucast (mo_address m))")
    case (Some lk)
    then have "grow_worksets m (w # wl) (ad_lockmap a) = Some (w # wl, ad_lockmap a)"
      by (intro grow_worksets_filtered) simp
    then show ?thesis using wl good assms(2)
      by (auto simp: access_as_def set_worksets_def keeps_def as_ok_def)
  next
    case None
    obtain wl' locks' where g: "grow_worksets m (w # wl) (ad_lockmap a) = Some (wl', locks')"
        "list_all2 (entry_grown (loads (mo_access m)) (stores (mo_access m))) (w # wl) wl'"
        "\<forall>addr. rel_option (if addr \<in> (fst \<circ> fst) ` set (w # wl) then lock_grown (loads (mo_access m)) (stores (mo_access m)) else (=))
          (map_of (ad_lockmap a) addr) (map_of locks' addr)"
      using grow_worksets_all[OF assms(1) None good] as_okD(1)[OF assms(2)] by blast
    have d: "dom (map_of locks') = dom (map_of (ad_lockmap a))"
    proof -
      have "map_of (ad_lockmap a) addr = None \<longleftrightarrow> map_of locks' addr = None" for addr
        using g(3)[rule_format, of addr] by (cases "map_of (ad_lockmap a) addr"; cases "map_of locks' addr") auto
      then show ?thesis by (auto simp: dom_def)
    qed
    have lk: "lk_good addr lk'" if l: "map_of locks' addr = Some lk'" for addr lk'
    proof -
      obtain lk where "map_of (ad_lockmap a) addr = Some lk"
          "lock_grown (loads (mo_access m)) (stores (mo_access m)) lk lk' \<or> lk = lk'"
        using g(3)[rule_format, of addr] l
        by (cases "map_of (ad_lockmap a) addr") (auto split: if_splits)
      then show ?thesis using as_okD(1)[OF assms(2)] lock_grown_good by blast
    qed
    have e: "list_all (entry_good locks') wl'"
      unfolding list_all_iff
    proof
      fix y assume "y \<in> set wl'"
      then obtain x where "x \<in> set (w # wl)" "entry_grown (loads (mo_access m)) (stores (mo_access m)) x y"
        using g(2) by (metis in_set_conv_nth list_all2_conv_all_nth)
      then show "entry_good locks' y" using good d
        by (auto simp: entry_grown_def entry_good_def list_all_iff grown_ok dom_def)
    qed
    have mono: "list_all (entry_good (ad_lockmap a)) ws \<Longrightarrow> list_all (entry_good locks') ws" for ws
      by (rule entries_good_mono) (auto simp: d)
    have "as_ok ((set_worksets spid wl' a)\<lparr>ad_lockmap := locks'\<rparr>)"
      unfolding as_ok_def using lk e assms(2) mono by (auto simp: as_ok_def)
    then show ?thesis using wl g(1) by (simp add: access_as_def keeps_def)
  qed
qed

section \<open>Device accesses and scheduling\<close>

lemma mark_io_ok:
  assumes "list_all (entry_good locks) wl" "\<And>addr lk. map_of locks addr = Some lk \<Longrightarrow> lk_good addr lk"
  shows "\<exists>wl' locks'. mark_io wl locks = Some (wl', locks') \<and> list_all (entry_good locks) wl' \<and>
    dom (map_of locks') = dom (map_of locks) \<and> (\<forall>addr lk. map_of locks' addr = Some lk \<longrightarrow> lk_good addr lk) \<and>
    map fst wl' = map fst wl \<and> list_all (\<lambda>x. ws_IO (snd x)) wl'"
  using assms
proof (induction wl arbitrary: locks)
  case (Cons x wl)
  obtain k w where x: "x = (k, w)" by fastforce
  obtain lk where lk: "map_of locks (lock_addr (ws_id w)) = Some lk" "lock_addr (ws_id w) = fst k"
    using Cons.prems(1) x by (auto simp: entry_good_def)
  let ?locks = "AList.update (lock_addr (ws_id w)) (lk\<lparr>lk_aggregate := (lk_aggregate lk)\<lparr>ws_IO := True\<rparr>\<rparr>) locks"
  have dm: "dom (map_of ?locks) = dom (map_of locks)" using lk by auto
  have gd: "\<And>addr lk. map_of ?locks addr = Some lk \<Longrightarrow> lk_good addr lk"
    using Cons.prems(2) lk by (auto simp: lk_good_def split: if_splits)
  have ent: "list_all (entry_good ?locks) wl" using Cons.prems(1) by (simp add: entries_good_update)
  obtain wl' locks' where r: "mark_io wl ?locks = Some (wl', locks')" "list_all (entry_good ?locks) wl'"
     "dom (map_of locks') = dom (map_of ?locks)" "\<forall>addr lk. map_of locks' addr = Some lk \<longrightarrow> lk_good addr lk"
     "map fst wl' = map fst wl" "list_all (\<lambda>x. ws_IO (snd x)) wl'"
    using Cons.IH[OF ent gd] by blast
  have "list_all (entry_good locks) wl'" using dm by (intro entries_good_mono[OF r(2)]) simp
  moreover have "entry_good locks (k, w\<lparr>ws_IO := True\<rparr>)" using Cons.prems(1) x by (simp add: entry_good_def)
  ultimately show ?case using r lk x dm by simp
qed simp

lemma keeps_move: "keeps a (move_worksets addr old new (addr, g) a)"
proof (cases "map_of (ad_locksetmap a) old")
  case (Some wl)
  let ?mine = "\<lambda>x. lock_addr (ws_id (snd x)) = addr"
  let ?moved = "map (\<lambda>x. ((addr, g), change_owner old new (snd x))) (filter ?mine wl)"
  let ?a1 = "set_worksets old (filter (\<lambda>x. \<not> ?mine x) wl) a"
  let ?wl2 = "case map_of (ad_locksetmap ?a1) new of None \<Rightarrow> [] | Some wl2 \<Rightarrow> wl2"
  have "as_ok (set_worksets new (rev ?moved @ ?wl2) ?a1)" if ok: "as_ok a"
  proof (rule as_ok_set_worksets)
    have good: "list_all (entry_good (ad_lockmap a)) wl" using Some ok by (auto dest: as_okD)
    then show ok1: "as_ok ?a1" using ok by (intro as_ok_set_worksets) (auto simp: list_all_iff)
    have "list_all (entry_good (ad_lockmap a)) ?wl2"
    proof (cases "map_of (ad_locksetmap ?a1) new")
      case (Some wl2) then show ?thesis using as_okD(2)[OF ok1 Some] by (simp only: option.case set_as_fields)
    qed (simp only: option.case list.pred_inject)
    moreover have "list_all (entry_good (ad_lockmap a)) ?moved"
      using good by (auto simp: list_all_iff entry_good_def change_owner_def)
    ultimately show "list_all (entry_good (ad_lockmap ?a1)) (rev ?moved @ ?wl2)" by simp
  qed
  then show ?thesis using Some by (simp add: keeps_def move_worksets_def Let_def)
qed (simp add: move_worksets_def)


lemma keeps_sched_lock: "keeps a (sched_lock old new a x)"
proof (cases "map_of (ad_lockmap a) (fst x)")
  case (Some lk)
  have "keeps a (set_lock (fst x) (lk\<lparr>lk_spid_owner := new\<rparr>) a)"
    using Some by (auto intro!: keeps_set_lock dest: as_okD)
  then show ?thesis using Some keeps_move keeps_trans by (auto simp: sched_lock_def)
qed (simp add: sched_lock_def)

lemma keeps_sched: "keeps a (foldl (sched_lock old new) a xs)"
  by (induction xs arbitrary: a) (auto intro: keeps_trans[OF keeps_sched_lock])

lemma map_of_map_key: "map_of (map (\<lambda>(k, v). (k, f k v)) xs) k = map_option (f k) (map_of xs k)"
  by (induction xs) auto

lemma keeps_map_locks:
  assumes "\<And>addr lk. lk_good addr lk \<Longrightarrow> lk_good addr (f addr lk)"
  shows "keeps a (a\<lparr>ad_ramap := r, ad_lockmap := map (\<lambda>(addr, lk). (addr, f addr lk)) (ad_lockmap a)\<rparr>)"
proof -
  let ?locks = "map (\<lambda>(addr, lk). (addr, f addr lk)) (ad_lockmap a)"
  have mono: "list_all (entry_good (ad_lockmap a)) ws \<Longrightarrow> list_all (entry_good ?locks) ws" for ws
    by (rule entries_good_mono) (auto simp: map_of_map_key)
  show ?thesis using assms mono by (auto simp: keeps_def as_ok_def map_of_map_key)
qed

lemma keeps_reset: "keeps a (reset_as a)"
  using keeps_map_locks[of reset_lock a "ad_ramap a"]
  by (auto simp: reset_as_def reset_lock_def lk_good_def WorkSet_new_def ws_ok_def)

lemma keeps_stats: "stats_as a = (a', out) \<Longrightarrow> keeps a a'"
  using keeps_map_locks[of "\<lambda>_. reduce_acq" a]
  by (auto simp: stats_as_def reduce_acq_def Let_def split: prod.splits)

end
