(* ===== verification/SyncChar_System.thy ===== *)
theory SyncChar_System
  imports SyncChar_Access
begin

text \<open>
  The whole lock tracker as a transition system: every callback keeps the process map, the heap of
  address spaces, their reference counts and the open working sets consistent.
\<close>

section \<open>Well-formed trackers\<close>

definition users :: "syncchar \<Rightarrow> nat \<Rightarrow> spid_t set" where
  "users s p = {spid. map_of (sc_as_map s) spid = Some p}"

text \<open>
  The process map points into the heap, every address space is well formed, and its reference
  count is the number of processes that use it.
\<close>

definition sc_ok :: "syncchar \<Rightarrow> bool" where
  "sc_ok s \<longleftrightarrow> distinct (map fst (sc_as_map s)) \<and> (\<forall>spid p. map_of (sc_as_map s) spid = Some p \<longrightarrow> as_at s p \<noteq> None) \<and>
     (\<forall>p a. as_at s p = Some a \<longrightarrow> as_ok a \<and> ad_ref_count a = int (card (users s p)) \<and> p < sc_next s)"

lemma finite_users [simp]: "finite (users s p)"
  by simp

lemma sc_ok_as: "sc_ok s \<Longrightarrow> map_of (sc_as_map s) spid = Some p \<Longrightarrow> \<exists>a. as_at s p = Some a \<and> as_ok a"
  by (fastforce simp: sc_ok_def)

lemma sc_okI:
  assumes "distinct (map fst (sc_as_map s))" "\<And>spid p. spid \<in> users s p \<Longrightarrow> as_at s p \<noteq> None"
    "\<And>p a. as_at s p = Some a \<Longrightarrow> as_ok a \<and> ad_ref_count a = int (card (users s p)) \<and> p < sc_next s"
  shows "sc_ok s"
  using assms unfolding sc_ok_def users_def by blast

lemma sc_okD:
  assumes "sc_ok s"
  shows "spid \<in> users s p \<Longrightarrow> as_at s p \<noteq> None" "as_at s p = Some a \<Longrightarrow> as_ok a"
    "as_at s p = Some a \<Longrightarrow> ad_ref_count a = int (card (users s p))" "as_at s p = Some a \<Longrightarrow> p < sc_next s"
  using assms unfolding sc_ok_def users_def by blast+

lemma as_at_set_as [simp]: "as_at (set_as p a s) q = (if q = p then Some a else as_at s q)"
  by (simp add: as_at_def set_as_def)

lemma set_as_others [simp]:
  "sc_as_map (set_as p a s) = sc_as_map s" "sc_next (set_as p a s) = sc_next s"
  "sc_as_map (log_out out s) = sc_as_map s" "sc_next (log_out out s) = sc_next s"
  "as_at (log_out out s) q = as_at s q"
  "sc_as_map (s\<lparr>sc_spcl := m\<rparr>) = sc_as_map s" "as_at (s\<lparr>sc_spcl := m\<rparr>) q = as_at s q"
  "users (set_as p a s) q = users s q" "users (log_out out s) q = users s q"
  by (simp_all add: set_as_def log_out_def as_at_def users_def)

lemma sc_ok_same:
  "sc_as_map s' = sc_as_map s \<Longrightarrow> sc_heap s' = sc_heap s \<Longrightarrow> sc_next s' = sc_next s \<Longrightarrow> sc_ok s' = sc_ok s"
  by (simp add: sc_ok_def as_at_def users_def)

lemma sc_ok_log [simp]: "sc_ok (log_out out s) = sc_ok s"
  by (rule sc_ok_same) (simp_all add: log_out_def)

lemma sc_ok_spcl [simp]: "sc_ok (s\<lparr>sc_spcl := m\<rparr>) = sc_ok s"
  by (rule sc_ok_same) simp_all

lemma sc_ok_set_as: "sc_ok s \<Longrightarrow> as_at s p = Some a \<Longrightarrow> keeps a a' \<Longrightarrow> sc_ok (set_as p a' s)"
  by (auto simp: sc_ok_def keeps_def)

section \<open>Every callback keeps the tracker well formed\<close>

lemma sc_ok_lock_transition:
  assumes "sc_ok s" "lock_transition e bp s = Some s'"
  shows "sc_ok s'"
proof -
  obtain a t a1 out where i: "as_at s (bp_as_data bp) = Some a" "initialize_transition e s bp a = Some (t, a1, out)"
    using assms(2) by (auto simp: lock_transition_def split: bind_splits)
  define s1 where "s1 = log_out out (set_as (bp_as_data bp) a1 s)"
  have s1: "sc_ok s1" "as_at s1 (bp_as_data bp) = Some a1"
    using sc_ok_set_as[OF assms(1) i(1) keeps_initialize[OF i(2)]] by (simp_all add: s1_def)
  show ?thesis
  proof (cases "s' = s1")
    case False
    then obtain x where x: "track e s1 t \<lparr>ts_as = a1, ts_spcl = sc_spcl s1, ts_out = []\<rparr> = Some x"
        "s' = log_out (ts_out x) (set_as (bp_as_data bp) (ts_as x) (s1\<lparr>sc_spcl := ts_spcl x\<rparr>))"
      using assms(2) i by (auto simp: lock_transition_def s1_def[symmetric] Let_def split: if_splits)
    have "keeps a1 (ts_as x)" using ts_keeps_track[OF x(1)] by (simp add: ts_keeps_def)
    then show ?thesis unfolding x(2) using sc_ok_set_as[of "s1\<lparr>sc_spcl := ts_spcl x\<rparr>"] s1 by simp
  qed (simp add: s1)
qed

lemma sc_ok_timing:
  assumes "sc_ok s" "fits (mo_access m)"
  shows "\<exists>s'. timing_operate e m s = Some s' \<and> sc_ok s'"
proof (cases "map_of (sc_as_map s) (if in_kernel e then 0 else ev_spid e)")
  case (Some p)
  then obtain a where a: "as_at s p = Some a" "as_ok a" using sc_ok_as[OF assms(1)] by blast
  obtain a' where "access_as m (ev_spid e) a = Some a'" "keeps a a'"
    using access_as_keeps[OF assms(2) a(2)] by blast
  then show ?thesis using Some a assms(1) sc_ok_set_as[OF assms(1) a(1)] by (auto simp: timing_operate_def)
qed (use assms(1) in \<open>auto simp: timing_operate_def\<close>)

lemma sc_ok_device:
  assumes "sc_ok s"
  shows "\<exists>s'. handle_device_access_memop e b s = Some s' \<and> sc_ok s'"
proof (cases "map_of (sc_as_map s) (if in_kernel e then 0 else ev_spid e)")
  case (Some p)
  then obtain a where a: "as_at s p = Some a" "as_ok a" using sc_ok_as[OF assms(1)] by blast
  show ?thesis
  proof (cases "map_of (ad_locksetmap a) (ev_spid e)")
    case None
    then show ?thesis using Some a assms by (auto simp: handle_device_access_memop_def)
  next
    case wl: (Some wl)
    obtain wl' locks' where m: "mark_io wl (ad_lockmap a) = Some (wl', locks')" "list_all (entry_good (ad_lockmap a)) wl'"
      "dom (map_of locks') = dom (map_of (ad_lockmap a))" "\<forall>addr lk. map_of locks' addr = Some lk \<longrightarrow> lk_good addr lk"
      using mark_io_ok[OF as_okD(2)[OF a(2) wl] as_okD(1)[OF a(2)]] by blast
    have mono: "list_all (entry_good (ad_lockmap a)) ws \<Longrightarrow> list_all (entry_good locks') ws" for ws
      by (rule entries_good_mono) (auto simp: m(3))
    have "keeps a ((set_worksets (ev_spid e) wl' a)\<lparr>ad_lockmap := locks'\<rparr>)"
      using m(2,4) mono a(2) by (auto simp: keeps_def as_ok_def)
    then show ?thesis using Some a wl m(1) assms sc_ok_set_as[OF assms a(1)]
      by (auto simp: handle_device_access_memop_def)
  qed
qed (use assms(1) in \<open>auto simp: handle_device_access_memop_def\<close>)

lemma sc_ok_sched: "sc_ok s \<Longrightarrow> osa_sched_callback e s = Some s' \<Longrightarrow> sc_ok s'"
  by (auto simp: osa_sched_callback_def split: bind_splits intro: sc_ok_set_as keeps_sched)

lemma sc_ok_register: "sc_ok s \<Longrightarrow> osa_register_spinlock_callback e n s = Some s' \<Longrightarrow> sc_ok s'"
  by (auto simp: osa_register_spinlock_callback_def Let_def split: bind_splits prod.splits
      intro!: sc_ok_set_as keeps_allocate)

lemma sc_ok_reset_all: "sc_ok s \<Longrightarrow> \<forall>p \<in> set ps. as_at s p \<noteq> None \<Longrightarrow> \<exists>s'. reset_all ps s = Some s' \<and> sc_ok s'"
proof (induction ps arbitrary: s)
  case (Cons p ps)
  then obtain a where a: "as_at s p = Some a" by auto
  then show ?case using Cons sc_ok_set_as[OF Cons.prems(1) a keeps_reset] by simp
qed simp

lemma sc_ok_map_values: "sc_ok s \<Longrightarrow> p \<in> set (map snd (sc_as_map s)) \<Longrightarrow> as_at s p \<noteq> None"
  by (auto simp: sc_ok_def)

lemma sc_ok_reset: "sc_ok s \<Longrightarrow> \<exists>s'. reset_stats s = Some s' \<and> sc_ok s'"
  using sc_ok_reset_all[of s "map snd (sc_as_map s)"] sc_ok_map_values[of s] by (auto simp: reset_stats_def)

lemma sc_ok_stats_all:
  "sc_ok s \<Longrightarrow> list_all (\<lambda>p. as_at s p \<noteq> None) ps \<Longrightarrow> \<exists>s'. stats_all seen ps s = Some s' \<and> sc_ok s'"
proof (induction ps arbitrary: s seen)
  case (Cons p ps)
  then obtain a where a: "as_at s p = Some a" by auto
  obtain a' out where st: "stats_as a = (a', out)" by fastforce
  have "sc_ok (log_out out (set_as p a' s))" using sc_ok_set_as[OF Cons.prems(1) a keeps_stats[OF st]] by simp
  moreover have "list_all (\<lambda>q. as_at (log_out out (set_as p a' s)) q \<noteq> None) ps"
    using Cons.prems(2) by (auto simp: list_all_iff)
  ultimately show ?case using Cons.IH Cons.prems a st by auto
qed simp

lemma sc_ok_get_stats: "sc_ok s \<Longrightarrow> \<exists>s'. get_stats c k now start s = Some s' \<and> sc_ok s'"
proof -
  assume ok: "sc_ok s"
  let ?s = "log_out (c @ k @ cycle_lines now start) s"
  have "list_all (\<lambda>p. as_at ?s p \<noteq> None) (map snd (sc_as_map s))"
    unfolding list_all_iff using sc_ok_map_values[OF ok] by simp
  then obtain s' where "stats_all [] (map snd (sc_as_map s)) ?s = Some s'" "sc_ok s'"
    using sc_ok_stats_all[of ?s] ok by auto
  then show ?thesis by (simp add: get_stats_def)
qed

section \<open>Processes come and go\<close>

lemma users_update: "users (s\<lparr>sc_as_map := AList.update spid p (sc_as_map s)\<rparr>) q =
    (if q = p then insert spid (users s q) else users s q - {spid})"
  by (auto simp: users_def split: if_splits)

lemma users_delete: "users (s\<lparr>sc_as_map := AList.delete spid (sc_as_map s)\<rparr>) q = users s q - {spid}"
  by (auto simp: users_def AList.delete_conv' split: if_splits)

lemma as_at_map [simp]: "as_at (s\<lparr>sc_as_map := m\<rparr>) p = as_at s p" "as_at (s\<lparr>sc_next := n\<rparr>) p = as_at s p"
  by (simp_all add: as_at_def)

lemma free_effect:
  assumes "free_as_data p s = Some s'"
  shows "as_at s' q = (if q = p then None else as_at s q)" "sc_as_map s' = sc_as_map s" "sc_next s' = sc_next s" "users s' = users s"
  using assms by (auto simp: as_at_def free_as_data_def AList.delete_conv' users_def split: option.splits if_splits)

lemma free_returns: "free_as_data p (set_as p a s) \<noteq> None \<longleftrightarrow> ad_lockmap a = []"
  by (simp add: free_as_data_def)

lemma sc_ok_add:
  assumes "sc_ok s" "map_of (sc_as_map s) spid = None" "as_at s p = Some a"
  shows "sc_ok (set_as p (a\<lparr>ad_ref_count := ad_ref_count a + 1\<rparr>) (s\<lparr>sc_as_map := AList.update spid p (sc_as_map s)\<rparr>))"
proof -
  have f: "spid \<notin> users s q" for q using assms(2) by (simp add: users_def)
  then have "users s q - {spid} = users s q" for q by blast
  then show ?thesis using assms f
    by (auto simp: sc_ok_def users_update distinct_update as_ok_def split: if_splits)
qed

lemma sc_ok_fork: "sc_ok s \<Longrightarrow> map_of (sc_as_map s) (ev_reg e EBX) = None \<Longrightarrow> \<exists>s'. osa_fork_callback e s = Some s' \<and> sc_ok s'"
  using sc_ok_add[of s "ev_reg e EBX"] sc_ok_as[of s "ev_spid e"]
  by (auto simp: osa_fork_callback_def split: option.splits)

lemma sc_ok_remove:
  assumes ok: "sc_ok s" and "map_of (sc_as_map s) spid = Some p" "as_at s p = Some a"
  defines "s1 \<equiv> set_as p (a\<lparr>ad_ref_count := ad_ref_count a - 1\<rparr>) s"
  assumes "(if ad_ref_count a - 1 = 0 then free_as_data p s1 else Some s1) = Some s2"
  shows "sc_ok (s2\<lparr>sc_as_map := AList.delete spid (sc_as_map s2)\<rparr>)"
proof -
  have u: "spid \<in> users s p" "q \<noteq> p \<Longrightarrow> users s q - {spid} = users s q" for q using assms(2) by (auto simp: users_def)
  have c: "ad_ref_count a = int (card (users s p))" using ok assms(3) by (simp add: sc_ok_def)
  have c1: "int (card (users s p - {spid})) = ad_ref_count a - 1"
    using u(1) c by (simp add: card_Diff_singleton_if) (metis Suc_pred card_gt_0_iff empty_iff finite_users of_nat_Suc add_diff_cancel_left')
  have m: "sc_as_map s2 = sc_as_map s" "sc_next s2 = sc_next s" "users s2 = users s"
    using assms(5) by (auto simp: s1_def fun_eq_iff free_effect(2-4) split: if_splits)
  have last: "q \<notin> users s p - {spid}" if "ad_ref_count a - 1 = 0" for q using c1 that by auto
  have at: "as_at s2 q = (if q = p then (if ad_ref_count a - 1 = 0 then None else Some (a\<lparr>ad_ref_count := ad_ref_count a - 1\<rparr>)) else as_at s q)" for q
    using assms(5) by (auto simp: s1_def free_effect(1) split: if_splits)
  have us: "users (s2\<lparr>sc_as_map := AList.delete spid (sc_as_map s2)\<rparr>) q = users s q - {spid}" for q
    unfolding users_delete by (simp add: m)
  show ?thesis
  proof (rule sc_okI)
    show "distinct (map fst (sc_as_map (s2\<lparr>sc_as_map := AList.delete spid (sc_as_map s2)\<rparr>)))"
      using ok m by (simp add: sc_ok_def distinct_delete)
    show "as_at (s2\<lparr>sc_as_map := AList.delete spid (sc_as_map s2)\<rparr>) q \<noteq> None"
      if "x \<in> users (s2\<lparr>sc_as_map := AList.delete spid (sc_as_map s2)\<rparr>) q" for x q
      using that last sc_okD(1)[OF ok, of x q] by (auto simp: us[unfolded m(1)] m at)
    show "as_ok b \<and> ad_ref_count b = int (card (users (s2\<lparr>sc_as_map := AList.delete spid (sc_as_map s2)\<rparr>) q)) \<and>
        q < sc_next (s2\<lparr>sc_as_map := AList.delete spid (sc_as_map s2)\<rparr>)"
      if "as_at (s2\<lparr>sc_as_map := AList.delete spid (sc_as_map s2)\<rparr>) q = Some b" for q b
      using that sc_okD(2-4)[OF ok, of q] assms(3) u(2)[of q] c1 by (auto simp: us[unfolded m(1)] at m as_ok_def split: if_splits)
  qed
qed

lemma sc_ok_exit:
  assumes "sc_ok s" "osa_exit_callback e s = Some s'"
  shows "sc_ok s'"
proof (cases "ev_spid e = 0 \<or> map_of (sc_as_map s) (ev_spid e) = None")
  case True then show ?thesis using assms by (auto simp: osa_exit_callback_def split: if_splits)
next
  case False
  then obtain p where p: "ev_spid e \<noteq> 0" "map_of (sc_as_map s) (ev_spid e) = Some p" by auto
  then obtain a s2 where "as_at s p = Some a"
      "(if ad_ref_count a - 1 = 0 then free_as_data p (set_as p (a\<lparr>ad_ref_count := ad_ref_count a - 1\<rparr>) s)
        else Some (set_as p (a\<lparr>ad_ref_count := ad_ref_count a - 1\<rparr>) s)) = Some s2"
      "s' = s2\<lparr>sc_as_map := AList.delete (ev_spid e) (sc_as_map s2)\<rparr>"
    using assms(2) by (auto simp: osa_exit_callback_def Let_def simp del: diff_eq_eq eq_iff_diff_eq_0 split: bind_splits)
  then show ?thesis using sc_ok_remove[OF assms(1) p(2)] by blast
qed

section \<open>Map files\<close>

lemma keeps_read_line: "keeps (fst acc) (fst (read_line regnum first acc l))"
proof (cases l)
  case (LockLine addr lock_id lkval label)
  obtain a out where "allocate_lock lock_id addr lkval label (fst acc) = (a, out)" by fastforce
  then show ?thesis using LockLine keeps_allocate by (fastforce simp: read_line_def)
qed (auto simp: read_line_def keeps_def as_ok_def)

lemma keeps_read_lines: "keeps (fst acc) (fst (foldl (read_line regnum first) acc ls))"
  by (induction ls arbitrary: acc) (simp, metis foldl_Cons keeps_trans keeps_read_line)

lemma keeps_init_ras: "init_ras regnum files name a = (rv, a', out) \<Longrightarrow> keeps a a'"
  using keeps_read_lines[of "(a, [])"] by (auto simp: init_ras_def read_ra2sync_def split: option.splits) (metis fst_conv)

lemma keeps_insert_bps: "keeps a (insert_bps bpid a)"
  by (simp add: keeps_def as_ok_def insert_bps_def)

lemma sc_ok_new_as:
  assumes ok: "sc_ok s" and f: "map_of (sc_as_map s) spid = None" and a: "as_ok a" "ad_ref_count a = 1"
  shows "sc_ok (set_as (sc_next s) a (s\<lparr>sc_next := Suc (sc_next s), sc_as_map := AList.update spid (sc_next s) (sc_as_map s)\<rparr>))"
    (is "sc_ok ?t")
proof (rule sc_okI)
  have n: "users s (sc_next s) = {}" using sc_okD(1,4)[OF ok] by fastforce
  have us: "users ?t q = (if q = sc_next s then {spid} else users s q)" for q
    using f n by (auto simp: users_def split: if_splits)
  note us = us[unfolded set_as_others]
  have at: "as_at ?t q = (if q = sc_next s then Some a else as_at s q)" for q
    by (simp add: as_at_def set_as_def)
  show "distinct (map fst (sc_as_map ?t))" using ok by (simp add: sc_ok_def distinct_update)
  show "as_at ?t q \<noteq> None" if "x \<in> users ?t q" for x q
    using that sc_okD(1)[OF ok, of x q] by (auto simp: us at)
  show "as_ok b \<and> ad_ref_count b = int (card (users ?t q)) \<and> q < sc_next ?t" if "as_at ?t q = Some b" for q b
    using that sc_okD(2-4)[OF ok, of q] a by (auto simp: us at split: if_splits)
qed

lemma as_new_ok: "ws_ok (ws_set w) \<Longrightarrow> as_ok ((as_new w)\<lparr>ad_map_file := n\<rparr>)"
  by (simp add: as_ok_def as_new_def)

lemma new_ws_ok [simp]: "ws_ok (ws_set (WorkSet_new addr pid g c cpu))"
  by (simp add: WorkSet_new_def ws_ok_def)

lemma sc_ok_load_new:
  assumes "sc_ok s" "map_of (sc_as_map s) spid = None" "ws_ok (ws_set w)"
    "init_ras regnum files name ((as_new w)\<lparr>ad_map_file := Some name\<rparr>) = (rv, a1, out)"
  shows "sc_ok (log_out out (set_as (sc_next s) (insert_bps bpid a1)
    (s\<lparr>sc_next := Suc (sc_next s), sc_as_map := AList.update spid (sc_next s) (sc_as_map s)\<rparr>)))"
proof -
  have "keeps ((as_new w)\<lparr>ad_map_file := Some name\<rparr>) (insert_bps bpid a1)"
    using keeps_trans[OF keeps_init_ras[OF assms(4)] keeps_insert_bps] .
  then have "as_ok (insert_bps bpid a1)" "ad_ref_count (insert_bps bpid a1) = 1"
    using as_new_ok[OF assms(3)] by (simp_all add: keeps_def as_new_def)
  then show ?thesis using sc_ok_new_as[OF assms(1,2)] by simp
qed

lemma sc_ok_set_mapfile:
  assumes "sc_ok s" "map_of (sc_as_map s) 0 = None"
  shows "sc_ok (set_mapfile regnum files bpid name s)"
proof -
  obtain rv a1 out where i: "init_ras regnum files name
      ((as_new (WorkSet_new 0xc0000000 0 0 0xffffffff 0))\<lparr>ad_map_file := Some name\<rparr>) = (rv, a1, out)"
    by (rule prod_cases3)
  show ?thesis using sc_ok_load_new[OF assms new_ws_ok i] by (simp add: set_mapfile_def Let_def i)
qed

lemma sc_ok_load_map:
  assumes "sc_ok s"
  shows "\<exists>s'. syncchar_load_map_callback e regnum files bpid name s = Some s' \<and> sc_ok s'"
proof (cases "map_of (sc_as_map s) (ev_spid e)")
  case None
  obtain rv a1 out where i: "init_ras regnum files name
      ((as_new (WorkSet_new 0 (ev_spid e) 0 0xffffffff (int (ev_cpu e))))\<lparr>ad_map_file := Some name\<rparr>) = (rv, a1, out)"
    by (rule prod_cases3)
  show ?thesis using sc_ok_load_new[OF assms None new_ws_ok i] None
    by (simp add: syncchar_load_map_callback_def Let_def i)
next
  case (Some p)
  then obtain a where a: "as_at s p = Some a" using sc_ok_as[OF assms] by blast
  obtain rv a1 out where i: "init_ras regnum files name (a\<lparr>ad_map_file := Some name\<rparr>) = (rv, a1, out)"
    by (rule prod_cases3)
  have "keeps a (a\<lparr>ad_map_file := Some name\<rparr>)" by (simp add: keeps_def as_ok_def)
  then have "keeps a (insert_bps bpid a1)"
    using keeps_trans keeps_init_ras[OF i] keeps_insert_bps by blast
  then show ?thesis using sc_ok_set_as[OF assms a] Some a i by (simp add: syncchar_load_map_callback_def)
qed


section \<open>The tracker as a transition system\<close>

text \<open>
  One step is one callback of the simulator, the operating system or the command line.  Memory
  accesses do not wrap around the address space, a forked process is new, and the kernel's map
  is loaded once.  A step that would use an invalid pointer is not a step.
\<close>

inductive sc_step :: "syncchar \<Rightarrow> syncchar \<Rightarrow> bool" where
  step_breakpoint: "breakpoint_callback e n pc s = Some (s', bp) \<Longrightarrow> sc_step s s'"
| step_exception: "sc_step s (exception_callback e s)"
| step_transition: "lock_transition e bp s = Some s' \<Longrightarrow> sc_step s s'"
| step_access: "fits (mo_access m) \<Longrightarrow> timing_operate e m s = Some s' \<Longrightarrow> sc_step s s'"
| step_device: "handle_device_access_memop e b s = Some s' \<Longrightarrow> sc_step s s'"
| step_sched: "osa_sched_callback e s = Some s' \<Longrightarrow> sc_step s s'"
| step_fork: "map_of (sc_as_map s) (ev_reg e EBX) = None \<Longrightarrow> osa_fork_callback e s = Some s' \<Longrightarrow> sc_step s s'"
| step_exit: "osa_exit_callback e s = Some s' \<Longrightarrow> sc_step s s'"
| step_register: "osa_register_spinlock_callback e name s = Some s' \<Longrightarrow> sc_step s s'"
| step_mapfile: "map_of (sc_as_map s) 0 = None \<Longrightarrow> sc_step s (set_mapfile regnum files bpid name s)"
| step_load_map: "syncchar_load_map_callback e regnum files bpid name s = Some s' \<Longrightarrow> sc_step s s'"
| step_boot: "sc_step s (osa_after_boot_callback s)"
| step_commit: "handle_transaction_commit txid s = Some s' \<Longrightarrow> sc_step s s'"
| step_abort: "sc_step s (handle_transaction_abort txid s)"
| step_reset: "reset_stats s = Some s' \<Longrightarrow> sc_step s s'"
| step_stats: "get_stats c k now start s = Some s' \<Longrightarrow> sc_step s s'"
| step_archived: "sc_step s (set_archived_worksets i s)"
| step_logging: "sc_step s (set_logWorksets b s)"
| step_set_boot: "sc_step s (set_afterBoot b s)"
| step_osatxm: "sc_step s (fst (set_osatxm provides v s))"
| step_system: "sc_step s (set_system_attribute ncpus s)"

definition sc_initial :: "syncchar \<Rightarrow> bool" where
  "sc_initial s \<longleftrightarrow> (\<exists>ctime. s = new_sync_char_instance ctime)"

lemma sc_ok_others:
  "sc_ok (s\<lparr>sc_exception_addrs := xs\<rparr>) = sc_ok s" "sc_ok (s\<lparr>sc_afterBoot := b\<rparr>) = sc_ok s"
  "sc_ok (s\<lparr>sc_archived_worksets := i\<rparr>) = sc_ok s" "sc_ok (s\<lparr>sc_logWorksets := b\<rparr>) = sc_ok s"
  "sc_ok (s\<lparr>sc_osatxm := b\<rparr>) = sc_ok s"
  by (rule sc_ok_same; simp)+

lemma some_ok: "\<exists>s'. r = Some s' \<and> sc_ok s' \<Longrightarrow> r = Some s \<Longrightarrow> sc_ok s"
  by simp

lemmas plain_callbacks = exception_callback_def osa_after_boot_callback_def handle_transaction_abort_def
  set_archived_worksets_def set_logWorksets_def set_afterBoot_def set_osatxm_def set_system_attribute_def

interpretation tracker: transition_system sc_initial sc_step sc_ok
proof
  show "sc_ok s" if "sc_initial s" for s
    using that by (auto simp: sc_initial_def new_sync_char_instance_def sc_ok_def as_at_def)
  show "sc_ok t" if ok: "sc_ok s" and st: "sc_step s t" for s t
    using st ok
  proof cases
    case (step_breakpoint e n pc bp)
    then show ?thesis using ok
      by (auto simp: breakpoint_callback_def Let_def sc_ok_others split: option.splits if_splits)
  next
    case (step_access m e)
    then show ?thesis using sc_ok_timing[OF ok, of m e] by simp
  next
    case (step_commit txid)
    then show ?thesis using ok by (auto simp: handle_transaction_commit_def split: option.splits if_splits)
  next
    case (step_load_map e regnum files bpid name)
    then show ?thesis using sc_ok_load_map[OF ok, of e regnum files bpid name] by simp
  next
    case (step_stats c k now start)
    then show ?thesis using sc_ok_get_stats[OF ok, of c k now start] by simp
  qed (auto simp: plain_callbacks sc_ok_others intro: sc_ok_set_mapfile
      dest: sc_ok_lock_transition sc_ok_sched sc_ok_register sc_ok_exit some_ok[OF sc_ok_device[OF ok]]
        some_ok[OF sc_ok_fork[OF ok]] some_ok[OF sc_ok_reset[OF ok]])
qed

end
