(* ===== verification/LockWords.thy ===== *)
theory LockWords
  imports SyncChar
begin

text \<open>
  Properties of the functions on one lock: the averages hold exact counts and sums, and the
  classification follows the contents of reader/writer spin locks, reader/writer semaphores and
  spin locks.  The interface of a kind of lock is the locale \<open>lock_word\<close>: an encoding of contents
  as words that the classification reads back.
\<close>

section \<open>Averages\<close>

definition av_of :: "ldouble list \<Rightarrow> avg_var" where
  "av_of vs = \<lparr>av_cnt = of_nat (length vs), av_sum = sum_list vs, av_xsqr = sum_list (map (\<lambda>v. v * v) vs)\<rparr>"

lemma av_add_av_of: "av_add v (av_of vs) = av_of (vs @ [v])"
  by (simp add: av_add_def av_of_def)

lemma update_avgs_split:
  "update_avgs [av_of xs, av_of ys, av_of zs] v split =
     (if v < split then [av_of (xs @ [v]), av_of (ys @ [v]), av_of zs]
      else [av_of (xs @ [v]), av_of ys, av_of (zs @ [v])])"
  by (simp add: update_avgs_def Let_def av_add_av_of numeral_2_eq_2)

lemma foldl_update_avgs:
  "foldl (\<lambda>av v. update_avgs av v split) [av_of xs, av_of ys, av_of zs] vs =
     [av_of (xs @ vs), av_of (ys @ filter (\<lambda>v. v < split) vs), av_of (zs @ filter (\<lambda>v. \<not> v < split) vs)]"
  by (induction vs arbitrary: xs ys zs) (simp_all add: update_avgs_split)

lemma zero_av_av_of: "zero_av = [av_of [], av_of [], av_of []]"
  by (simp add: zero_av_def av_zero_def av_of_def)

lemma sum_list_square_bound: "(sum_list vs)\<^sup>2 \<le> real (length vs) * sum_list (map (\<lambda>v. v * v) vs)"
proof (induction vs)
  case (Cons v vs)
  let ?n = "real (length vs)" and ?s = "sum_list vs" and ?q = "sum_list (map (\<lambda>v. v * v) vs)"
  have q: "0 \<le> ?q" by (induction vs) auto
  have "2 * ?s * v \<le> ?n * v\<^sup>2 + ?q"
  proof (cases "vs = []")
    case False
    then have n: "0 < ?n" by simp
    have "0 \<le> (?n * v - ?s)\<^sup>2" by simp
    then have "2 * ?n * v * ?s \<le> ?n\<^sup>2 * v\<^sup>2 + ?s\<^sup>2" by (simp add: power2_eq_square algebra_simps)
    also have "\<dots> \<le> ?n\<^sup>2 * v\<^sup>2 + ?n * ?q" using Cons.IH by simp
    finally have "?n * (2 * ?s * v) \<le> ?n * (?n * v\<^sup>2 + ?q)" by (simp add: power2_eq_square algebra_simps)
    with n show ?thesis by simp
  qed simp
  then show ?case using Cons.IH q by (simp add: power2_eq_square algebra_simps)
qed simp

text \<open>
  C39. Folding samples into zeroed averages keeps, in the entries for all samples, for the samples
  below the split and for the others, their number, sum and sum of squares; the variance that the
  sums give is never negative.
\<close>

theorem averages_exact:
  "foldl (\<lambda>av v. update_avgs av v sp) zero_av vs =
     map (\<lambda>ws. \<lparr>av_cnt = of_nat (length ws), av_sum = sum_list ws, av_xsqr = sum_list (map (\<lambda>v. v * v) ws)\<rparr>)
       [vs, filter (\<lambda>v. v < sp) vs, filter (\<lambda>v. \<not> v < sp) vs]
   \<and> 0 \<le> real (length vs) * av_xsqr (foldl (\<lambda>av v. update_avgs av v sp) zero_av vs ! 0)
        - (av_sum (foldl (\<lambda>av v. update_avgs av v sp) zero_av vs ! 0))\<^sup>2"
proof -
  have "foldl (\<lambda>av v. update_avgs av v sp) zero_av vs = map av_of [vs, filter (\<lambda>v. v < sp) vs, filter (\<lambda>v. \<not> v < sp) vs]"
    using foldl_update_avgs[of sp "[]" "[]" "[]" vs] by (simp add: zero_av_av_of)
  then show ?thesis using sum_list_square_bound[of vs] by (simp add: av_of_def)
qed

section \<open>Lock words\<close>

lemma sint_small: "- (2 ^ 31) \<le> i \<Longrightarrow> i < 2 ^ 31 \<Longrightarrow> sint (word_of_int i :: u32) = i"
  by (simp add: sint_sbintrunc' signed_take_bit_int_eq_self)

lemmas lock_ids = L_SEMA_def L_RSEMA_def L_WSEMA_def L_SPIN_def L_RSPIN_def L_WSPIN_def L_MUTEX_def
  L_COMPL_def L_RCU_def L_FUTEX_def L_CXA_def L_CXE_def

lemma set_st_state [simp]: "lk_state (set_st s lk) = s"
  by (simp add: set_st_def)

text \<open>
  What the tracker relies on of a kind of lock: an encoding of the lock's contents as a word that
  the classification reads back, for the operations the kernel performs on it.
\<close>

locale lock_word =
  fixes enc :: "'c \<Rightarrow> u32" and ok :: "'c \<Rightarrow> bool" and st :: "'c \<Rightarrow> lkst"
    and op_ok :: "transition_info \<Rightarrow> 'c \<Rightarrow> bool"
  assumes classify: "ok c \<Longrightarrow> op_ok t c \<Longrightarrow> ti_lkval t = enc c \<Longrightarrow>
    lk_state (fst (update_current_lock_state e t lk)) = st c"
begin

lemma follow:
  "ops \<noteq> [] \<Longrightarrow> \<forall>x \<in> set ops. ok (snd x) \<and> op_ok (fst x) (snd x) \<and> ti_lkval (fst x) = enc (snd x) \<Longrightarrow>
     lk_state (foldl (\<lambda>lk x. fst (update_current_lock_state e (fst x) lk)) lk ops) = st (snd (last ops))"
  by (induction ops arbitrary: lk rule: rev_induct) (auto simp: classify)

end

datatype rwlock = Free | Readers nat | Writer

primrec rw_state :: "rwlock \<Rightarrow> lkst" where
  "rw_state Free = LKST_OPEN"
| "rw_state (Readers n) = LKST_RLK"
| "rw_state Writer = LKST_WRLK"

text \<open>A reader/writer spin lock counts down from \<^verbatim>\<open>0x01000000\<close>, a semaphore counts up from 0.\<close>

primrec rwspin_word :: "rwlock \<Rightarrow> u32" where
  "rwspin_word Free = 0x01000000"
| "rwspin_word (Readers n) = 0x01000000 - of_nat n"
| "rwspin_word Writer = 0"

primrec rwsem_word :: "rwlock \<Rightarrow> u32" where
  "rwsem_word Free = 0"
| "rwsem_word (Readers n) = of_nat n"
| "rwsem_word Writer = 0xFFFF0001"

primrec rw_ok :: "nat \<Rightarrow> rwlock \<Rightarrow> bool" where
  "rw_ok m Free = True"
| "rw_ok m (Readers n) = (0 < n \<and> n < m)"
| "rw_ok m Writer = True"

text \<open>A release by a reader does not leave a writer, a release by the writer leaves the lock free.\<close>

definition rwspin_op :: "transition_info \<Rightarrow> rwlock \<Rightarrow> bool" where
  "rwspin_op t c \<longleftrightarrow> (if has (ti_flags t) F_UNLOCK
     then ti_lock_id t = L_RSPIN \<and> c \<noteq> Writer \<or> ti_lock_id t = L_WSPIN \<and> c = Free
     else ti_lock_id t = L_RSPIN \<or> ti_lock_id t = L_WSPIN)"

definition rwsem_op :: "transition_info \<Rightarrow> rwlock \<Rightarrow> bool" where
  "rwsem_op t c \<longleftrightarrow> ti_lock_id t = L_RSEMA \<or> ti_lock_id t = L_WSEMA"

definition spin_word :: "bool \<Rightarrow> u32" where
  "spin_word held = (if held then 0 else 1)"

definition held_state :: "bool \<Rightarrow> lkst" where
  "held_state held = (if held then LKST_WRLK else LKST_OPEN)"

definition spin_op :: "transition_info \<Rightarrow> bool \<Rightarrow> bool" where
  "spin_op t c \<longleftrightarrow> ti_lock_id t = L_SPIN"

lemma sint_rwspin: "n < 0x01000000 \<Longrightarrow> sint (0x01000000 - of_nat n :: u32) = 0x01000000 - int n"
proof -
  assume n: "n < 0x01000000"
  have "0x01000000 - of_nat n = (word_of_int (0x01000000 - int n) :: u32)" by simp
  then show ?thesis using n sint_small[of "0x01000000 - int n"] by (simp only:) simp
qed

lemma sint_rwsem: "n < 2 ^ 16 \<Longrightarrow> sint (of_nat n :: u32) = int n"
  using sint_small[of "int n"] by simp

interpretation rwspin: lock_word rwspin_word "rw_ok 0x01000000" rw_state rwspin_op
proof unfold_locales
  fix c t e lk assume c: "rw_ok 0x01000000 c" "rwspin_op t c" "ti_lkval t = rwspin_word c"
  then have "ti_lock_id t = L_RSPIN \<or> ti_lock_id t = L_WSPIN" by (auto simp: rwspin_op_def split: if_splits)
  then have u: "update_current_lock_state e t lk = rwspin_state e t (lk\<lparr>lk_queue := False\<rparr>)"
    by (auto simp: update_current_lock_state_def Let_def lock_ids)
  show "lk_state (fst (update_current_lock_state e t lk)) = rw_state c"
  proof (cases c)
    case (Readers n)
    have "0 < n" "n < 0x01000000" using c(1) Readers by auto
    moreover have "(0x01000000 - int n) mod 0x01000000 = 0x01000000 - int n"
      using calculation by (intro mod_pos_pos_trivial) auto
    ultimately show ?thesis using c(2,3) Readers unfolding u
      by (auto simp: rwspin_state_def Let_def rwspin_op_def sint_rwspin lock_ids split: if_splits)
  qed (use c in \<open>auto simp: u rwspin_state_def Let_def rwspin_op_def lock_ids split: if_splits\<close>)
qed

interpretation rwsem: lock_word rwsem_word "rw_ok (2 ^ 16)" rw_state rwsem_op
proof unfold_locales
  fix c t e lk assume c: "rw_ok (2 ^ 16) c" "rwsem_op t c" "ti_lkval t = rwsem_word c"
  have u: "update_current_lock_state e t lk = (rwsem_state t (lk\<lparr>lk_queue := False\<rparr>), [])"
    using c(2) by (auto simp: update_current_lock_state_def rwsem_op_def Let_def lock_ids)
  show "lk_state (fst (update_current_lock_state e t lk)) = rw_state c"
  proof (cases c)
    case (Readers n)
    then have n: "0 < n" "n < 2 ^ 16" using c(1) by auto
    have s: "sint (of_nat n :: u32) = int n" using sint_rwsem[OF n(2)] .
    have "of_nat n \<noteq> (0 :: u32)" using s n by (metis of_nat_0_less_iff less_irrefl signed_0)
    moreover have "of_nat n \<noteq> (0xFFFF0001 :: u32)" using s n by force
    ultimately show ?thesis using c(3) Readers n s by (simp add: u rwsem_state_def)
  qed (use c(3) in \<open>simp_all add: u rwsem_state_def\<close>)
qed

interpretation spin: lock_word spin_word "\<lambda>_. True" held_state spin_op
  by unfold_locales
    (auto simp: spin_op_def update_current_lock_state_def Let_def lock_ids spin_state_def spin_word_def held_state_def)

text \<open>A transition record and a machine for the examples below.\<close>

definition ti_demo :: transition_info where
  "ti_demo = \<lparr>ti_spid = 7, ti_lkval = 0, ti_old_lkval = 1, ti_lock_ra = 0xc0100000, ti_caller_ra = 0xc0100000,
     ti_lock_addr = 0xc0300000, ti_lock_id = L_SPIN, ti_old_state = LKST_OPEN, ti_new_state = Some LKST_WRLK,
     ti_spid_owner = NO_SPID, ti_flags = F_LOCK, ti_read_lock = False, ti_read_unlock = False,
     ti_now_cyc = 100, ti_bp_cyc = 90, ti_bp_lkval = 1\<rparr>"

definition ev_demo :: env where
  "ev_demo = \<lparr>ev_cpu = 0, ev_processor = 0, ev_now = 100, ev_spid = 7, ev_reg = (\<lambda>_. 0), ev_regnum = (\<lambda>_. 0),
     ev_mem = (\<lambda>_ _. 0), ev_txmem = (\<lambda>_ _. 0), ev_txid = 0, ev_stack = []\<rparr>"

definition lk_demo :: lock where
  "lk_demo = new_lock L_SPIN 0xc0300000 1 ''demo'' 0"





text \<open>
  On a reader/writer semaphore that stays read-locked or becomes free, a step from \<open>n\<close> to
  \<open>n + 1\<close> readers is detected as a read lock and a step from \<open>n + 1\<close> to \<open>n\<close> as a read unlock,
  and never as both.
\<close>

theorem semaphore_readers_detected:
  assumes "0 < n" "n < 2 ^ 16 - 1" "rwsem_op t c" "ti_old_state t = LKST_RLK"
    "ti_new_state t = Some (rw_state c)"
    "ti_old_lkval t = of_nat n" "ti_lkval t = rwsem_word c" "c \<in> {Readers (n + 1), if n = 1 then Free else Readers (n - 1)}"
  shows "ti_read_lock (detect_read_lock_unlock t) = (c = Readers (n + 1)) \<and>
    ti_read_unlock (detect_read_lock_unlock t) = (c \<noteq> Readers (n + 1))"
proof -
  have one: "rwsem_word c - of_nat n = (if c = Readers (n + 1) then 1 else - 1)"
    using assms(1,8) by (auto simp: of_nat_diff)
  have r: "rw_state c = LKST_OPEN \<or> rw_state c = LKST_RLK" using assms(8) by (cases "n = 1") auto
  have ne: "(1 :: u32) \<noteq> - 1" by simp
  show ?thesis using assms(3-7) one r ne
    by (cases "c = Readers (n + 1)") (auto simp: detect_read_lock_unlock_def Let_def rwsem_op_def lock_ids)
qed

theorem semaphore_readers_detected_witness:
  "ti_read_unlock (detect_read_lock_unlock (ti_demo\<lparr>ti_lock_id := L_RSEMA, ti_old_state := LKST_RLK,
     ti_new_state := Some LKST_OPEN, ti_old_lkval := 1, ti_lkval := 0\<rparr>))"
  using semaphore_readers_detected[of 1 "ti_demo\<lparr>ti_lock_id := L_RSEMA, ti_old_state := LKST_RLK,
     ti_new_state := Some LKST_OPEN, ti_old_lkval := 1, ti_lkval := 0\<rparr>" Free]
  by (simp add: rwsem_op_def lock_ids)

end
