(* ===== verification/SyncChar_Locking.thy ===== *)
theory SyncChar_Locking
  imports SyncChar_System LockWords
begin

text \<open>
  Acquiring and releasing a lock: who owns it, and the hold time charged to the caller.
\<close>

section \<open>Lock and unlock\<close>

definition lock_in :: "tstate \<Rightarrow> transition_info \<Rightarrow> lock option" where
  "lock_in x t = map_of (ad_lockmap (ts_as x)) (ti_lock_addr t)"

lemma get_caller_upd [simp]: "get_caller (upd_caller ra f lk) ra' = (if ra' = ra then f (get_caller lk ra) else get_caller lk ra')"
  by (simp add: get_caller_def upd_caller_def)

lemma get_acq_upd [simp]: "get_acq (upd_acq spid f lk) spid' = (if spid' = spid then f (get_acq lk spid) else get_acq lk spid')"
  by (simp add: get_acq_def upd_acq_def)

lemma upd_others [simp]:
  "get_acq (upd_caller ra f lk) spid = get_acq lk spid" "get_caller (upd_acq spid g lk) ra = get_caller lk ra"
  "lk_state (upd_caller ra f lk) = lk_state lk" "lk_state (upd_acq spid g lk) = lk_state lk"
  "lk_spid_owner (upd_caller ra f lk) = lk_spid_owner lk" "lk_spid_owner (upd_acq spid g lk) = lk_spid_owner lk"
  "lk_acq (upd_caller ra f lk) = lk_acq lk" "lk_callers (upd_acq spid g lk) = lk_callers lk"
  "lk_readers (upd_caller ra f lk) = lk_readers lk" "lk_readers (upd_acq spid g lk) = lk_readers lk"
  "lk_name (upd_caller ra f lk) = lk_name lk" "lk_name (upd_acq spid g lk) = lk_name lk"
  "get_acq (lk\<lparr>lk_spid_owner := o'\<rparr>) = get_acq lk" "get_caller (lk\<lparr>lk_spid_owner := o'\<rparr>) = get_caller lk"
  by (simp_all add: get_acq_def get_caller_def upd_caller_def upd_acq_def fun_eq_iff)

lemma get_cong: "lk_acq lk' = lk_acq lk \<Longrightarrow> get_acq lk' = get_acq lk" "lk_callers lk' = lk_callers lk \<Longrightarrow> get_caller lk' = get_caller lk"
  by (simp_all add: get_acq_def get_caller_def fun_eq_iff)

text \<open>Opening a working set changes two counters of the lock, closing one changes no lock.\<close>

definition same_holder :: "lock \<Rightarrow> lock \<Rightarrow> bool" where
  "same_holder lk lk' \<longleftrightarrow> lk_state lk' = lk_state lk \<and> lk_spid_owner lk' = lk_spid_owner lk \<and> lk_acq lk' = lk_acq lk \<and>
     lk_readers lk' = lk_readers lk \<and> (\<forall>ra. ca_hold_av (get_caller lk' ra) = ca_hold_av (get_caller lk ra))"

lemma same_holder_refl [simp]: "same_holder lk lk"
  by (simp add: same_holder_def)

lemma open_returns:
  assumes "map_of (ad_lockmap a) (ti_lock_addr t) = Some lk"
  obtains a' out lk' where "open_workset e t a = Some (a', out)" "map_of (ad_lockmap a') (ti_lock_addr t) = Some lk'" "same_holder lk lk'"
proof -
  have "\<exists>a' out lk'. open_workset e t a = Some (a', out) \<and> map_of (ad_lockmap a') (ti_lock_addr t) = Some lk' \<and> same_holder lk lk'"
    using assms by (auto simp: open_workset_def Let_def same_holder_def get_caller_def split: option.splits)
  then show thesis using that by blast
qed

lemma close_returns:
  assumes "map_of (ad_lockmap a) (ti_lock_addr t) = Some lk"
  obtains a' out where "close_workset e b t a = Some (a', out)" "ad_lockmap a' = ad_lockmap a"
proof -
  have "\<exists>a' out. close_workset e b t a = Some (a', out) \<and> ad_lockmap a' = ad_lockmap a"
    using assms
    by (auto simp: close_workset_def rotate_asym_def Let_def split: option.splits prod.splits if_splits)
  then show thesis using that by blast
qed

lemma hand_over_lock:
  assumes "hand_over_contention e t ra lk a = (a', go, out)" "map_of (ad_lockmap a) (ti_lock_addr t) = Some lk"
  obtains lk' where "map_of (ad_lockmap a') (ti_lock_addr t) = Some lk'" "same_holder lk lk'"
proof -
  have "\<exists>lk'. map_of (ad_lockmap a') (ti_lock_addr t) = Some lk' \<and> same_holder lk lk'"
    using assms
    by (auto simp: hand_over_contention_def Let_def same_holder_def upd_caller_def get_caller_def split: option.splits if_splits prod.splits)
  then show thesis using that by blast
qed

lemma finish_returns:
  assumes "release_lock e t lk = (lk1, acq_ra, out1)"
  obtains a' out lk' where "finish_unlock e s t lk a = Some (a', out)" "map_of (ad_lockmap a') (ti_lock_addr t) = Some lk'" "same_holder lk1 lk'"
proof -
  let ?a1 = "set_lock (ti_lock_addr t) lk1 a"
  obtain a2 go out2 where h: "hand_over_contention e t acq_ra lk1 ?a1 = (a2, go, out2)" by (rule prod_cases3)
  obtain lk' where lk': "map_of (ad_lockmap a2) (ti_lock_addr t) = Some lk'" "same_holder lk1 lk'"
    using hand_over_lock[OF h] by auto
  obtain a3 out3 where c: "close_workset e (sc_logWorksets s \<and> sc_afterBoot s) t a2 = Some (a3, out3)" "ad_lockmap a3 = ad_lockmap a2"
    using close_returns[OF lk'(1)] by metis
  show thesis
  proof (cases "go \<and> sc_logWorksets s")
    case True
    then have "finish_unlock e s t lk a = Some (a3, out1 @ out2 @ out3)" using h c assms by (simp add: finish_unlock_def)
    then show thesis using that lk' c(2) by simp
  next
    case False
    then have "finish_unlock e s t lk a = Some (a2, out1 @ out2)" using h assms by (auto simp: finish_unlock_def)
    then show thesis using that lk' by simp
  qed
qed

section \<open>Spin locks\<close>

lemma spin_states:
  "ti_lock_id t = L_SPIN \<Longrightarrow> ti_lkval t = 0 \<Longrightarrow> update_current_lock_state e t lk = (lk\<lparr>lk_queue := False, lk_state := LKST_WRLK\<rparr>, [])"
  "ti_lock_id t = L_SPIN \<Longrightarrow> ti_lkval t = 1 \<Longrightarrow> update_current_lock_state e t lk = (lk\<lparr>lk_queue := False, lk_state := LKST_OPEN\<rparr>, [])"
  by (simp_all add: update_current_lock_state_def spin_state_def set_st_def lock_ids)

lemma detect_fields [simp]:
  "ti_lock_addr (detect_read_lock_unlock t) = ti_lock_addr t" "ti_spid (detect_read_lock_unlock t) = ti_spid t"
  "ti_old_state (detect_read_lock_unlock t) = ti_old_state t" "ti_new_state (detect_read_lock_unlock t) = ti_new_state t"
  "ti_lock_id (detect_read_lock_unlock t) = ti_lock_id t" "ti_caller_ra (detect_read_lock_unlock t) = ti_caller_ra t"
  "ti_now_cyc (detect_read_lock_unlock t) = ti_now_cyc t" "ti_flags (detect_read_lock_unlock t) = ti_flags t"
  "ti_bp_cyc (detect_read_lock_unlock t) = ti_bp_cyc t"
  by (simp_all add: detect_read_lock_unlock_def Let_def)

lemma ts_fields [simp]: "ts_as (ts_print out x) = ts_as x" "ts_as (ts_lock addr lk x) = set_lock addr lk (ts_as x)"
  by (simp_all add: ts_print_def ts_lock_def)

lemma charge_fields:
  assumes "charge_caller t lk = (lk', out)"
  shows "lk_state lk' = lk_state lk" "lk_spid_owner lk' = lk_spid_owner lk" "lk_acq lk' = lk_acq lk"
    "ca_hold_av (get_caller lk' ra) = ca_hold_av (get_caller lk ra)"
  using assms by (auto simp: charge_caller_def Let_def split: prod.splits)

text \<open>Taking an open spin lock, outside transactions.\<close>

lemma spin_acquired:
  assumes "lock_in x t = Some lk" "lk_state lk = LKST_OPEN" "lk_spid_owner lk = NO_SPID" "si_cnt (get_acq lk (ti_spid t)) = 0"
    "ti_lock_id t = L_SPIN" "ti_lkval t = 0" "ti_old_state t = LKST_OPEN" "\<not> has (ti_flags t) F_NOADDR" "current_tx e s = 0"
  obtains y lk' where "track e s t x = Some y" "lock_in y t = Some lk'" "lk_state lk' = LKST_WRLK" "lk_spid_owner lk' = ti_spid t"
    "get_acq lk' (ti_spid t) = \<lparr>si_req_cyc = 0, si_acq_cyc = ti_now_cyc t, si_acq_ra = ti_caller_ra t, si_cnt = 1\<rparr>"
    "\<forall>ra. ca_hold_av (get_caller lk' ra) = ca_hold_av (get_caller lk ra)"
proof -
  define t1 where "t1 = detect_read_lock_unlock (t\<lparr>ti_new_state := Some LKST_WRLK\<rparr>)"
  define lk1 where "lk1 = (upd_caller (ti_caller_ra t) (\<lambda>c. c\<lparr>ca_count := ca_count c + 1\<rparr>) lk)\<lparr>lk_queue := False, lk_state := LKST_WRLK\<rparr>"
  have acq1: "get_acq lk1 = get_acq lk" by (simp add: lk1_def get_acq_def upd_caller_def fun_eq_iff)
  have call1: "ca_hold_av (get_caller lk1 ra) = ca_hold_av (get_caller lk ra)" for ra
    by (simp add: lk1_def get_caller_def upd_caller_def)
  have o1: "lk_spid_owner lk1 = NO_SPID" "lk_state lk1 = LKST_WRLK" using assms(3) by (simp_all add: lk1_def)
  have f1: "ti_lock_addr t1 = ti_lock_addr t" "ti_spid t1 = ti_spid t" "ti_old_state t1 = LKST_OPEN" "ti_lock_id t1 = L_SPIN"
    "ti_caller_ra t1 = ti_caller_ra t" "ti_now_cyc t1 = ti_now_cyc t" "ti_new_state t1 = Some LKST_WRLK"
    using assms(5,7) by (simp_all add: t1_def)
  let ?x1 = "ts_print [] (ts_lock (ti_lock_addr t) lk1 x)"
  have tr: "track e s t x = acquire e s t1 lk1 ?x1"
    using assms(1,5,6,7,8) spin_states(1)[of t]
    by (simp add: track_def lock_in_def Let_def lk1_def[symmetric] t1_def[symmetric] lock_ids process_transition_def f1 from_open_def o1)
  obtain lk2 out where ch: "charge_caller t1 (lk1\<lparr>lk_spid_owner := ti_spid t\<rparr>) = (lk2, out)" by fastforce
  have "get_acq lk2 = get_acq lk1" by (rule get_cong) (simp add: charge_fields(3)[OF ch])
  moreover have "get_caller (lk1\<lparr>lk_spid_owner := ti_spid t\<rparr>) = get_caller lk1" by (rule get_cong) simp
  ultimately have h2: "lk_state lk2 = LKST_WRLK" "lk_spid_owner lk2 = ti_spid t" "get_acq lk2 = get_acq lk"
     "ca_hold_av (get_caller lk2 ra) = ca_hold_av (get_caller lk ra)" for ra
    using o1 acq1 call1 by (simp_all add: charge_fields[OF ch])
  define lk3 where "lk3 = upd_acq (ti_spid t) (lock_spid_info t1) lk2"
  have h3: "lk_state lk3 = LKST_WRLK" "lk_spid_owner lk3 = ti_spid t"
      "get_acq lk3 (ti_spid t) = \<lparr>si_req_cyc = 0, si_acq_cyc = ti_now_cyc t, si_acq_ra = ti_caller_ra t, si_cnt = 1\<rparr>"
      "ca_hold_av (get_caller lk3 ra) = ca_hold_av (get_caller lk ra)" for ra
    using assms(4) by (simp_all add: lk3_def h2 lock_spid_info_def Let_def f1)
  define x2 where "x2 = ts_print out (ts_lock (ti_lock_addr t) lk3 ?x1)"
  have ac: "acquire e s t1 lk1 ?x1 = map_option (reset_cxa t1)
      (if sc_logWorksets s then ts_run (open_workset e t1) x2 else Some x2)"
    using o1 ch assms(9) by (simp add: acquire_def take_lock_def f1 Let_def lk3_def x2_def)
  have x2: "map_of (ad_lockmap (ts_as x2)) (ti_lock_addr t1) = Some lk3" by (simp add: x2_def f1)
  obtain z lk' where z: "(if sc_logWorksets s then ts_run (open_workset e t1) x2 else Some x2) = Some z"
      "map_of (ad_lockmap (ts_as z)) (ti_lock_addr t1) = Some lk'" "same_holder lk3 lk'"
  proof (cases "sc_logWorksets s")
    case True
    obtain a' out' lk' where "open_workset e t1 (ts_as x2) = Some (a', out')" "map_of (ad_lockmap a') (ti_lock_addr t1) = Some lk'" "same_holder lk3 lk'"
      by (rule open_returns[OF x2])
    then show thesis using True that by (simp add: ts_run_def)
  qed (use that x2 in simp)
  have "reset_cxa t1 z = z" using z(2,3) h3(1) by (simp add: reset_cxa_def same_holder_def)
  then have "track e s t x = Some z" using tr ac z(1) by simp
  moreover have "get_acq lk' = get_acq lk3" using z(3) by (intro get_cong) (simp add: same_holder_def)
  ultimately show thesis using that[of z lk'] z(2,3) h3 by (simp add: lock_in_def f1 same_holder_def)
qed

text \<open>Releasing a spin lock by the process that took it.\<close>

lemma spin_released:
  assumes "lock_in x t = Some lk" "lk_state lk = LKST_WRLK"
    "get_acq lk (ti_spid t) = \<lparr>si_req_cyc = r, si_acq_cyc = c, si_acq_ra = ra, si_cnt = 1\<rparr>" "ra \<noteq> 0"
    "ti_lock_id t = L_SPIN" "ti_lkval t = 1" "ti_old_state t = LKST_WRLK" "\<not> has (ti_flags t) F_NOADDR"
  obtains y lk' where "track e s t x = Some y" "lock_in y t = Some lk'" "lk_state lk' = LKST_OPEN" "lk_spid_owner lk' = NO_SPID"
    "get_acq lk' (ti_spid t) = \<lparr>si_req_cyc = r, si_acq_cyc = 0, si_acq_ra = 0, si_cnt = 0\<rparr>"
    "ca_hold_av (get_caller lk' ra) = fst (update_cyc_avgs (ca_hold_av (get_caller lk ra)) (ti_now_cyc t) c)"
proof -
  define t1 where "t1 = detect_read_lock_unlock (t\<lparr>ti_new_state := Some LKST_OPEN\<rparr>)"
  define lk1 where "lk1 = (upd_caller (ti_caller_ra t) (\<lambda>c. c\<lparr>ca_count := ca_count c + 1\<rparr>) lk)\<lparr>lk_queue := False, lk_state := LKST_OPEN\<rparr>"
  have acq1: "get_acq lk1 = get_acq lk" by (simp add: lk1_def get_acq_def upd_caller_def fun_eq_iff)
  have call1: "ca_hold_av (get_caller lk1 ra) = ca_hold_av (get_caller lk ra)"
    by (simp add: lk1_def get_caller_def upd_caller_def)
  have f1: "ti_lock_addr t1 = ti_lock_addr t" "ti_spid t1 = ti_spid t" "ti_old_state t1 = LKST_WRLK" "ti_now_cyc t1 = ti_now_cyc t"
    using assms(7) by (simp_all add: t1_def)
  have o1: "lk_state lk1 = LKST_OPEN" by (simp add: lk1_def)
  let ?x1 = "ts_print [] (ts_lock (ti_lock_addr t) lk1 x)"
  have tr: "track e s t x = ts_run (process_unlock e s t1) ?x1"
    using assms(1,5,6,7,8) spin_states(2)[of t]
    by (simp add: track_def lock_in_def Let_def lk1_def[symmetric] t1_def[symmetric] lock_ids process_transition_def f1 from_write_def o1)
  obtain lk2 acq_ra out where rl: "release_lock e t1 lk1 = (lk2, acq_ra, out)" by (rule prod_cases3)
  have h2: "lk_state lk2 = LKST_OPEN" "lk_spid_owner lk2 = NO_SPID"
    "get_acq lk2 (ti_spid t) = \<lparr>si_req_cyc = r, si_acq_cyc = 0, si_acq_ra = 0, si_cnt = 0\<rparr>"
    "ca_hold_av (get_caller lk2 ra) = fst (update_cyc_avgs (ca_hold_av (get_caller lk ra)) (ti_now_cyc t) c)"
    using rl o1 assms(3,4) acq1 call1
    by (auto simp: release_lock_def Let_def f1 unlock_spid_info_def split: prod.splits)
  have "process_unlock e s t1 (ts_as ?x1) = finish_unlock e s t1 lk1 (ts_as ?x1)" by (simp add: process_unlock_def f1)
  then obtain a' out' lk' where "process_unlock e s t1 (ts_as ?x1) = Some (a', out')" "map_of (ad_lockmap a') (ti_lock_addr t1) = Some lk'" "same_holder lk2 lk'"
    using finish_returns[OF rl, of s "ts_as ?x1"] by metis
  moreover have "get_acq lk' = get_acq lk2" using calculation(3) by (intro get_cong) (simp add: same_holder_def)
  ultimately show thesis using that[of "ts_print out' (?x1\<lparr>ts_as := a'\<rparr>)" lk'] tr h2
    by (simp add: ts_run_def lock_in_def f1 same_holder_def)
qed

definition as_demo :: as_data where
  "as_demo = (as_new (WorkSet_new 0 0 0 0xffffffff 0))\<lparr>ad_lockmap := [(0xc0300000, lk_demo)], ad_ramap := [(0xc0100000,
     \<lparr>ra_lock_off = 0xc0300000, ra_lock_reg = - 1, ra_lock_id = L_SPIN, ra_flags = F_LOCK, ra_label = ''demo''\<rparr>)]\<rparr>"

definition sc_demo :: syncchar where
  "sc_demo = (new_sync_char_instance ''now'')\<lparr>sc_as_map := [(0, 0)], sc_heap := [(0, as_demo)], sc_next := 1,
     sc_exception_addrs := [0]\<rparr>"

definition ts_demo :: tstate where
  "ts_demo = \<lparr>ts_as = as_demo, ts_spcl = [], ts_out = []\<rparr>"

text \<open>
  C6. Acquiring an open spin lock and releasing it by the same process, whatever else happens to
  its working sets and contention records, makes that process the owner in between, leaves the lock
  open and without owner, and charges the cycles between the two operations exactly once to the
  hold time of the return address that acquired it.
\<close>

theorem spinlock_hold_time:
  assumes "lock_in x t = Some lk" "lk_state lk = LKST_OPEN" "lk_spid_owner lk = NO_SPID" "si_cnt (get_acq lk (ti_spid t)) = 0"
    "ti_lock_id t = L_SPIN" "ti_lkval t = 0" "ti_old_state t = LKST_OPEN" "\<not> has (ti_flags t) F_NOADDR"
    "ti_caller_ra t \<noteq> 0" "current_tx e s = 0"
    "u = t\<lparr>ti_lkval := 1, ti_old_state := LKST_WRLK, ti_spid_owner := ti_spid t, ti_old_lkval := 0, ti_now_cyc := now, ti_bp_cyc := bp, ti_flags := fl, ti_caller_ra := ra\<rparr>"
    "\<not> has fl F_NOADDR"
  shows "\<exists>y lk1 z lk2. track e s t x = Some y \<and> lock_in y t = Some lk1 \<and> lk_state lk1 = LKST_WRLK \<and> lk_spid_owner lk1 = ti_spid t \<and>
     track e' s' u y = Some z \<and> lock_in z t = Some lk2 \<and> lk_state lk2 = LKST_OPEN \<and> lk_spid_owner lk2 = NO_SPID \<and>
     si_cnt (get_acq lk2 (ti_spid t)) = 0 \<and>
     ca_hold_av (get_caller lk2 (ti_caller_ra t)) =
       fst (update_cyc_avgs (ca_hold_av (get_caller lk (ti_caller_ra t))) now (ti_now_cyc t))"
proof -
  obtain y lk1 where y: "track e s t x = Some y" "lock_in y t = Some lk1" "lk_state lk1 = LKST_WRLK" "lk_spid_owner lk1 = ti_spid t"
    "get_acq lk1 (ti_spid t) = \<lparr>si_req_cyc = 0, si_acq_cyc = ti_now_cyc t, si_acq_ra = ti_caller_ra t, si_cnt = 1\<rparr>"
    "\<forall>ra. ca_hold_av (get_caller lk1 ra) = ca_hold_av (get_caller lk ra)"
    by (rule spin_acquired[OF assms(1-8,10)])
  have u: "lock_in y u = Some lk1" "get_acq lk1 (ti_spid u) = \<lparr>si_req_cyc = 0, si_acq_cyc = ti_now_cyc t, si_acq_ra = ti_caller_ra t, si_cnt = 1\<rparr>"
      "ti_lock_id u = L_SPIN" "ti_lkval u = 1" "ti_old_state u = LKST_WRLK" "\<not> has (ti_flags u) F_NOADDR" "ti_now_cyc u = now"
      "ti_spid u = ti_spid t" "\<And>w. lock_in w u = lock_in w t"
    using y(2,5) assms(5,11,12) by (simp_all add: lock_in_def)
  obtain z lk2 where "track e' s' u y = Some z" "lock_in z u = Some lk2" "lk_state lk2 = LKST_OPEN" "lk_spid_owner lk2 = NO_SPID"
    "get_acq lk2 (ti_spid u) = \<lparr>si_req_cyc = 0, si_acq_cyc = 0, si_acq_ra = 0, si_cnt = 0\<rparr>"
    "ca_hold_av (get_caller lk2 (ti_caller_ra t)) = fst (update_cyc_avgs (ca_hold_av (get_caller lk1 (ti_caller_ra t))) (ti_now_cyc u) (ti_now_cyc t))"
    by (rule spin_released[OF u(1) y(3) u(2) assms(9) u(3-6)])
  then show ?thesis using y u(7-9) by (intro exI[of _ y] exI[of _ lk1] exI[of _ z] exI[of _ lk2]) simp
qed

theorem spinlock_hold_time_witness:
  "\<exists>y lk1 z lk2. track ev_demo sc_demo ti_demo ts_demo = Some y \<and> lock_in y ti_demo = Some lk1 \<and>
     lk_state lk1 = LKST_WRLK \<and> lk_spid_owner lk1 = 7 \<and>
     track ev_demo sc_demo (ti_demo\<lparr>ti_lkval := 1, ti_old_state := LKST_WRLK, ti_spid_owner := 7, ti_old_lkval := 0,
       ti_now_cyc := 350, ti_bp_cyc := 340, ti_flags := F_UNLOCK, ti_caller_ra := 5\<rparr>) y = Some z \<and>
     lock_in z ti_demo = Some lk2 \<and> lk_state lk2 = LKST_OPEN \<and> lk_spid_owner lk2 = NO_SPID \<and>
     ca_hold_av (get_caller lk2 0xc0100000) = [av_add 250 av_zero, av_add 250 av_zero, av_zero]"
proof -
  have f: "ti_spid ti_demo = 7" "ti_caller_ra ti_demo = 0xc0100000" "ti_now_cyc ti_demo = 100" "ti_lock_id ti_demo = L_SPIN"
      "ti_lkval ti_demo = 0" "ti_old_state ti_demo = LKST_OPEN" "ti_lock_addr ti_demo = 0xc0300000" "ti_flags ti_demo = F_LOCK"
    by (simp_all add: ti_demo_def)
  have av: "fst (update_cyc_avgs (ca_hold_av (get_caller lk_demo 0xc0100000)) 350 100) = [av_add 250 av_zero, av_add 250 av_zero, av_zero]"
    by (simp add: lk_demo_def new_lock_def get_caller_def caller_zero_def update_cyc_avgs_def update_avgs_def zero_av_def)
  have "lock_in ts_demo ti_demo = Some lk_demo" by (simp add: lock_in_def ts_demo_def as_demo_def f)
  moreover have "lk_state lk_demo = LKST_OPEN" "lk_spid_owner lk_demo = NO_SPID" "si_cnt (get_acq lk_demo 7) = 0"
    by (simp_all add: lk_demo_def new_lock_def get_acq_def zero_spid_info_def)
  moreover have "\<not> has F_LOCK F_NOADDR" "\<not> has F_UNLOCK F_NOADDR" by (simp_all add: has_def F_LOCK_def F_UNLOCK_def F_NOADDR_def)
  moreover have "(0xc0100000 :: u32) \<noteq> 0" by simp
  moreover have "current_tx ev_demo sc_demo = 0" by (simp add: current_tx_def ev_demo_def)
  ultimately show ?thesis
    using spinlock_hold_time[where x = ts_demo and t = ti_demo and lk = lk_demo and e = ev_demo and s = sc_demo and now = 350
      and bp = 340 and fl = F_UNLOCK and ra = 5 and e' = ev_demo and s' = sc_demo, OF _ _ _ _ _ _ _ _ _ _ refl] av
    by (simp only: f simp_thms) blast
qed

end
