(* ===== verification/SyncChar_Section.thy ===== *)
theory SyncChar_Section
  imports SyncChar_Locking
begin

text \<open>
  A critical section from the opening of its working set to the log entry.
\<close>

section \<open>One critical section\<close>

definition open_of :: "as_data \<Rightarrow> spid_t \<Rightarrow> workset_list" where
  "open_of a spid = (case map_of (ad_locksetmap a) spid of None \<Rightarrow> [] | Some wl \<Rightarrow> wl)"

text \<open>A sequence of memory accesses of one process.\<close>

fun access_all :: "memop list \<Rightarrow> spid_t \<Rightarrow> as_data \<Rightarrow> as_data option" where
  "access_all [] spid a = Some a"
| "access_all (m # ms) spid a = Option.bind (access_as m spid a) (access_all ms spid)"

lemma grown_sets: "grown L S w w' \<Longrightarrow> read_set w' = read_set w \<union> L" "grown L S w w' \<Longrightarrow> write_set w' = write_set w \<union> S"
  by (simp_all only: grown_def)

lemma grown_trans: "grown L S w w' \<Longrightarrow> grown L' S' w' w'' \<Longrightarrow> grown (L \<union> L') (S \<union> S') w w''"
  unfolding grown_def by (metis (no_types, lifting) WorkSet.surjective WorkSet.update_convs(9) sup_assoc)

lemma entry_grown_trans: "entry_grown L S x y \<Longrightarrow> entry_grown L' S' y z \<Longrightarrow> entry_grown (L \<union> L') (S \<union> S') x z"
  by (auto simp: entry_grown_def intro: grown_trans)

lemma entries_grown_trans:
  "list_all2 (entry_grown L S) xs ys \<Longrightarrow> list_all2 (entry_grown L' S') ys zs \<Longrightarrow> list_all2 (entry_grown (L \<union> L') (S \<union> S')) xs zs"
  by (rule list_all2_trans[OF entry_grown_trans])

lemma entries_grown_keys: "list_all2 (entry_grown L S) xs ys \<Longrightarrow> map fst ys = map fst xs"
  by (induction rule: list_all2_induct) (auto simp: entry_grown_def)

lemma access_open:
  assumes "fits (mo_access m)" "as_ok a" "map_of (ad_locksetmap a) spid = Some (x # wl)"
    "map_of (ad_lockmap a) (ucast (mo_address m)) = None"
  obtains wl' locks' where "access_as m spid a = Some ((set_worksets spid wl' a)\<lparr>ad_lockmap := locks'\<rparr>)"
    "list_all2 (entry_grown (loads (mo_access m)) (stores (mo_access m))) (x # wl) wl'"
    "\<forall>addr. rel_option (if addr \<in> (fst \<circ> fst) ` set (x # wl) then lock_grown (loads (mo_access m)) (stores (mo_access m)) else (=))
       (map_of (ad_lockmap a) addr) (map_of locks' addr)"
proof -
  have "list_all (entry_good (ad_lockmap a)) (x # wl)" using assms(2,3) by (rule as_okD)
  then show thesis using grow_worksets_all[OF assms(1,4), of "x # wl"] as_okD(1)[OF assms(2)] assms(3) that
    by (auto simp: access_as_def)
qed

lemma lock_grown_fields:
  assumes "lock_grown L S lk lk'"
  shows "lk_name lk' = lk_name lk" "lk_generation lk' = lk_generation lk"
proof -
  have e: "lk' = lk\<lparr>lk_aggregate := lk_aggregate lk'\<rparr>" using assms by (simp add: lock_grown_def)
  show "lk_name lk' = lk_name lk" using arg_cong[OF e, of lk_name] by simp
  show "lk_generation lk' = lk_generation lk" using arg_cong[OF e, of lk_generation] by simp
qed

text \<open>The name and generation of every lock.\<close>

definition lock_ids_of :: "as_data \<Rightarrow> u32 \<Rightarrow> (string \<times> int) option" where
  "lock_ids_of a addr = map_option (\<lambda>lk. (lk_name lk, lk_generation lk)) (map_of (ad_lockmap a) addr)"

lemma lock_ids_None:
  assumes "lock_ids_of a = lock_ids_of b"
  shows "map_of (ad_lockmap a) addr = None \<longleftrightarrow> map_of (ad_lockmap b) addr = None"
  using fun_cong[OF assms, of addr]
  by (cases "map_of (ad_lockmap a) addr"; cases "map_of (ad_lockmap b) addr") (simp_all add: lock_ids_of_def)

lemma access_all_open:
  assumes "as_ok a" "map_of (ad_locksetmap a) spid = Some (x # wl)"
    "\<forall>m \<in> set ms. fits (mo_access m) \<and> map_of (ad_lockmap a) (ucast (mo_address m)) = None"
  shows "\<exists>a' ys. access_all ms spid a = Some a' \<and> as_ok a' \<and> map_of (ad_locksetmap a') spid = Some ys \<and>
    list_all2 (entry_grown (\<Union>m \<in> set ms. loads (mo_access m)) (\<Union>m \<in> set ms. stores (mo_access m))) (x # wl) ys \<and>
    lock_ids_of a' = lock_ids_of a"
  using assms
proof (induction ms arbitrary: a x wl)
  case Nil
  have "list_all (entry_good (ad_lockmap a)) (x # wl)" using Nil.prems(1,2) by (rule as_okD)
  then have "list_all2 (entry_grown {} {}) (x # wl) (x # wl)"
    by (intro list.rel_refl_strong) (auto simp: entry_grown_def entry_good_def list_all_iff intro: grown_refl)
  then show ?case using Nil.prems(1,2) by (intro exI[of _ a] exI[of _ "x # wl"]) simp
next
  case (Cons m ms)
  have fm: "fits (mo_access m)" "map_of (ad_lockmap a) (ucast (mo_address m)) = None" using Cons.prems(3) by auto
  obtain wl' locks' where a1: "access_as m spid a = Some ((set_worksets spid wl' a)\<lparr>ad_lockmap := locks'\<rparr>)"
    and g: "list_all2 (entry_grown (loads (mo_access m)) (stores (mo_access m))) (x # wl) wl'"
    and r: "\<forall>addr. rel_option (if addr \<in> (fst \<circ> fst) ` set (x # wl) then lock_grown (loads (mo_access m)) (stores (mo_access m)) else (=))
       (map_of (ad_lockmap a) addr) (map_of locks' addr)"
    by (rule access_open[OF fm(1) Cons.prems(1,2) fm(2)])
  let ?a1 = "(set_worksets spid wl' a)\<lparr>ad_lockmap := locks'\<rparr>"
  have ok: "as_ok ?a1" using access_as_keeps[OF fm(1) Cons.prems(1), of spid] a1 Cons.prems(1) by (auto simp: keeps_def)
  have ids: "lock_ids_of ?a1 = lock_ids_of a"
  proof
    fix addr show "lock_ids_of ?a1 addr = lock_ids_of a addr"
      using r[rule_format, of addr] by (cases "map_of (ad_lockmap a) addr"; cases "map_of locks' addr")
        (auto simp: lock_ids_of_def lock_grown_fields split: if_splits)
  qed
  have dom: "map_of locks' addr = None \<longleftrightarrow> map_of (ad_lockmap a) addr = None" for addr
    using lock_ids_None[OF ids, of addr] by simp
  obtain y ys where y: "wl' = y # ys" using g by (auto simp: list_all2_Cons1)
  obtain a' zs where z: "access_all ms spid ?a1 = Some a'" "as_ok a'" "map_of (ad_locksetmap a') spid = Some zs"
     "list_all2 (entry_grown (\<Union>m \<in> set ms. loads (mo_access m)) (\<Union>m \<in> set ms. stores (mo_access m))) (y # ys) zs"
     "lock_ids_of a' = lock_ids_of ?a1"
    using Cons.IH[OF ok, of y ys] Cons.prems(3) y dom by auto
  have "list_all2 (entry_grown (\<Union>m \<in> set (m # ms). loads (mo_access m)) (\<Union>m \<in> set (m # ms). stores (mo_access m))) (x # wl) zs"
    using entries_grown_trans[OF g z(4)[folded y]] by simp
  then show ?case using z ids a1 by (intro exI[of _ a'] exI[of _ zs]) simp
qed

lemma open_fresh:
  assumes "map_of (ad_lockmap a) (ti_lock_addr t) = Some lk"
    "\<forall>x \<in> set (open_of a (ti_spid t)). fst x \<noteq> (ti_lock_addr t, lk_generation lk)"
  obtains a1 where "open_workset e t a = Some (a1, [])"
    "map_of (ad_locksetmap a1) (ti_spid t) = Some (((ti_lock_addr t, lk_generation lk),
       WorkSet_new (ti_lock_addr t) (ti_spid t) (of_int (lk_generation lk)) (of_int (lk_workset_count lk)) (ev_processor e))
       # open_of a (ti_spid t))"
    "lock_ids_of a1 = lock_ids_of a"
    "\<And>spid. spid \<noteq> ti_spid t \<Longrightarrow> open_of a1 spid = open_of a spid"
proof -
  have n: "\<not> list_ex (\<lambda>x. fst x = (ti_lock_addr t, lk_generation lk)) (open_of a (ti_spid t))"
    using assms(2) by (auto simp: list_ex_iff)
  have "\<exists>a1. open_workset e t a = Some (a1, []) \<and> map_of (ad_locksetmap a1) (ti_spid t) = Some (((ti_lock_addr t, lk_generation lk),
       WorkSet_new (ti_lock_addr t) (ti_spid t) (of_int (lk_generation lk)) (of_int (lk_workset_count lk)) (ev_processor e))
       # open_of a (ti_spid t)) \<and> lock_ids_of a1 = lock_ids_of a \<and> (\<forall>spid. spid \<noteq> ti_spid t \<longrightarrow> open_of a1 spid = open_of a spid)"
    using assms(1) n by (cases "map_of (ad_locksetmap a) (ti_spid t)")
      (auto simp: open_workset_def Let_def open_of_def lock_ids_of_def fun_eq_iff)
  then show thesis using that by blast
qed

lemma rotate_fields: "rotate_asym b spid a = (a', out) \<Longrightarrow> ad_locksetmap a' = ad_locksetmap a \<and> ad_lockmap a' = ad_lockmap a"
  by (auto simp: rotate_asym_def Let_def split: if_splits)

text \<open>
  C2. A critical section is recorded exactly: opening the working set of a lock, any sequence of
  accesses of the process that are not to lock words, and closing it, returns, and logs a working
  set that belongs to the lock and holds exactly the bytes the process loaded and stored in
  between.  The working sets the process had open before stay open.
\<close>

theorem critical_section_logged:
  assumes "as_ok a" "map_of (ad_lockmap a) (ti_lock_addr t) = Some lk" "lk_name lk \<noteq> RUNQUEUE_NAME"
    "\<forall>x \<in> set (open_of a (ti_spid t)). fst x \<noteq> (ti_lock_addr t, lk_generation lk)"
    "\<forall>m \<in> set ms. fits (mo_access m) \<and> map_of (ad_lockmap a) (ucast (mo_address m)) = None"
    "ti_lock_addr u = ti_lock_addr t" "ti_spid u = ti_spid t"
  shows "\<exists>a1 a2 a3 w out. open_workset e t a = Some (a1, []) \<and> access_all ms (ti_spid t) a1 = Some a2 \<and>
    close_workset e' True u a2 = Some (a3, logWorkset w @ out) \<and>
    lock_addr (ws_id w) = ti_lock_addr t \<and> ws_pid w = ti_spid t \<and>
    read_set w = (\<Union>m \<in> set ms. loads (mo_access m)) \<and> write_set w = (\<Union>m \<in> set ms. stores (mo_access m)) \<and>
    map fst (open_of a3 (ti_spid t)) = map fst (open_of a (ti_spid t))"
proof -
  let ?k = "(ti_lock_addr t, lk_generation lk)"
  let ?w = "WorkSet_new (ti_lock_addr t) (ti_spid t) (of_int (lk_generation lk)) (of_int (lk_workset_count lk)) (ev_processor e)"
  let ?L = "\<Union>m \<in> set ms. loads (mo_access m)" and ?S = "\<Union>m \<in> set ms. stores (mo_access m)"
  obtain a1 where a1: "open_workset e t a = Some (a1, [])"
      "map_of (ad_locksetmap a1) (ti_spid t) = Some ((?k, ?w) # open_of a (ti_spid t))" "lock_ids_of a1 = lock_ids_of a"
    using open_fresh[OF assms(2,4)] by metis
  have "as_ok a1" using keeps_open[OF a1(1)] assms(1) by (simp add: keeps_def)
  moreover have "\<forall>m \<in> set ms. fits (mo_access m) \<and> map_of (ad_lockmap a1) (ucast (mo_address m)) = None"
    using assms(5) lock_ids_None[OF a1(3)] by simp
  ultimately obtain a2 ys where a2: "access_all ms (ti_spid t) a1 = Some a2" "map_of (ad_locksetmap a2) (ti_spid t) = Some ys"
      "list_all2 (entry_grown ?L ?S) ((?k, ?w) # open_of a (ti_spid t)) ys" "lock_ids_of a2 = lock_ids_of a1"
    using access_all_open[OF _ a1(2)] by blast
  obtain w' wl' where y: "ys = (?k, w') # wl'" "grown ?L ?S ?w w'" "list_all2 (entry_grown ?L ?S) (open_of a (ti_spid t)) wl'"
    using a2(3) by (auto simp: list_all2_Cons1 entry_grown_def)
  obtain lk2 where lk2: "map_of (ad_lockmap a2) (ti_lock_addr t) = Some lk2" "lk_name lk2 = lk_name lk" "lk_generation lk2 = lk_generation lk"
    using fun_cong[OF a2(4)[unfolded a1(3)], of "ti_lock_addr t"] assms(2) unfolding lock_ids_of_def
    by (cases "map_of (ad_lockmap a2) (ti_lock_addr t)") simp_all
  let ?w' = "w'\<lparr>ws_cnt := ws_cnt w' - 1\<rparr>"
  have e: "w' = ?w\<lparr>ws_set := ws_set w'\<rparr>" using y(2) by (simp add: grown_def)
  have f: "ws_cnt w' = 0" "ws_pid w' = ti_spid t" using arg_cong[OF e, of ws_cnt] arg_cong[OF e, of ws_pid]
    by (simp_all add: WorkSet_new_def)
  obtain a3 out where r: "rotate_asym True (ti_spid t) (set_worksets (ti_spid t) wl' a2) = (a3, out)" by fastforce
  have "close_workset e' True u a2 = Some (a3, logWorkset ?w' @ out)"
    using lk2 assms(3,6,7) a2(2) y(1) f r by (simp add: close_workset_def get_lsit_def)
  moreover have "map fst (open_of a3 (ti_spid t)) = map fst (open_of a (ti_spid t))"
    using rotate_fields[OF r] entries_grown_keys[OF y(3)] by (simp add: open_of_def)
  moreover have "read_set ?w' = ?L" "write_set ?w' = ?S"
    using grown_sets[OF y(2)] by (simp_all add: read_set_def write_set_def WorkSet_new_def touched_def)
  moreover have "lock_addr (ws_id ?w') = ti_lock_addr t" using grown_id[OF y(2)] by (simp add: WorkSet_new_def)
  ultimately show ?thesis using a1(1) a2(1) f(2)
    by (intro exI[of _ a1] exI[of _ a2] exI[of _ a3] exI[of _ ?w'] exI[of _ out] conjI) simp_all
qed

lemma as_demo_ok: "as_ok as_demo"
  by (auto simp: as_ok_def as_demo_def as_new_def lk_good_def lk_demo_def new_lock_def WorkSet_new_def ws_ok_def)

theorem critical_section_logged_witness:
  "\<exists>a1 a2 a3 w out. open_workset ev_demo ti_demo as_demo = Some (a1, []) \<and>
    access_all [\<lparr>mo_address = 0xc0400000, mo_size = 4, mo_type = Sim_Trans_Store, mo_vanilla = True\<rparr>] 7 a1 = Some a2 \<and>
    close_workset ev_demo True ti_demo a2 = Some (a3, logWorkset w @ out) \<and>
    read_set w = {} \<and> write_set w = access_bytes (0xc0400000, 4, Sim_Trans_Store)"
proof -
  let ?m = "\<lparr>mo_address = 0xc0400000, mo_size = 4, mo_type = Sim_Trans_Store, mo_vanilla = True\<rparr>"
  have f: "ti_spid ti_demo = 7" "ti_lock_addr ti_demo = 0xc0300000" by (simp_all add: ti_demo_def)
  have "map_of (ad_lockmap as_demo) (ti_lock_addr ti_demo) = Some lk_demo" "lk_name lk_demo \<noteq> RUNQUEUE_NAME"
    "\<forall>x \<in> set (open_of as_demo (ti_spid ti_demo)). fst x \<noteq> (ti_lock_addr ti_demo, lk_generation lk_demo)"
    "\<forall>m \<in> set [?m]. fits (mo_access m) \<and> map_of (ad_lockmap as_demo) (ucast (mo_address m)) = None"
    by (simp_all add: as_demo_def as_new_def f lk_demo_def new_lock_def RUNQUEUE_NAME_def open_of_def mo_access_def fits_def)
  from critical_section_logged[OF as_demo_ok this refl refl, of ev_demo ev_demo] show ?thesis
    unfolding f by (simp add: mo_access_def loads_def stores_def) blast
qed

lemma demo_with_ok:
  assumes "as_ok a" "ad_ref_count a = 1"
  shows "sc_ok (sc_demo\<lparr>sc_as_map := [(q, 0)], sc_heap := [(0, a)]\<rparr>)" (is "sc_ok ?s")
proof (rule sc_okI)
  have u: "users ?s p = (if p = 0 then {q} else {})" for p by (auto simp: users_def)
  have at: "as_at ?s p = (if p = 0 then Some a else None)" for p by (simp add: as_at_def)
  show "as_at ?s p \<noteq> None" if "spid \<in> users ?s p" for spid p
    using that unfolding u at by (simp split: if_splits)
  show "as_ok b \<and> ad_ref_count b = int (card (users ?s p)) \<and> p < sc_next ?s" if "as_at ?s p = Some b" for p b
    using that assms unfolding u at by (auto simp: sc_demo_def split: if_splits)
qed simp

lemma as_demo_ref: "ad_ref_count as_demo = 1"
  by (simp add: as_demo_def as_new_def)

lemma as_at_heap: "as_at (s\<lparr>sc_as_map := m, sc_heap := h\<rparr>) p = map_of h p"
  by (simp add: as_at_def)

end
