(* ===== verification/SyncChar_Runs.thy ===== *)
theory SyncChar_Runs
  imports SyncChar_Section "HOL-Library.Multiset"
begin

text \<open>
  Properties of whole runs of the lock tracker: safety of every callback, reference counts,
  recording of accesses, nested working sets, contention and context switches.
\<close>

section \<open>Properties of runs\<close>




definition sc_booted :: syncchar where
  "sc_booted = set_mapfile (\<lambda>_. 0) (\<lambda>_. None) (\<lambda>_. 0) ''kernel.map'' (new_sync_char_instance ''now'')"


definition last_user :: "env \<Rightarrow> syncchar \<Rightarrow> nat \<Rightarrow> bool" where
  "last_user e s p \<longleftrightarrow> (\<forall>spid. map_of (sc_as_map s) spid = Some p \<longrightarrow> spid = ev_spid e)"

text \<open>
  C13. When a process exits, its address space is freed exactly when no other process uses it, and
  every other address space stays as it was.  The exit of the last user fails if and only if the
  address space still has a lock: freeing it advances an iterator that was just erased.
\<close>

theorem exit_frees_last_user:
  assumes "sc_ok s" "ev_spid e \<noteq> 0" "map_of (sc_as_map s) (ev_spid e) = Some p" "as_at s p = Some a"
  shows "(osa_exit_callback e s = None \<longleftrightarrow> last_user e s p \<and> ad_lockmap a \<noteq> []) \<and>
    (\<forall>s'. osa_exit_callback e s = Some s' \<longrightarrow> map_of (sc_as_map s') (ev_spid e) = None \<and>
      (as_at s' p = None \<longleftrightarrow> last_user e s p) \<and> (\<forall>q. q \<noteq> p \<longrightarrow> as_at s' q = as_at s q))"
proof -
  have c: "ad_ref_count a = int (card (users s p))" by (rule sc_okD(3)[OF assms(1,4)])
  have mem: "ev_spid e \<in> users s p" using assms(3) by (simp add: users_def)
  have "card (users s p) = 1 \<longleftrightarrow> users s p = {ev_spid e}" using mem by (auto simp: card_1_singleton_iff)
  then have last: "ad_ref_count a - 1 = 0 \<longleftrightarrow> last_user e s p"
    using c mem by (auto simp: users_def last_user_def)
  let ?s1 = "set_as p (a\<lparr>ad_ref_count := ad_ref_count a - 1\<rparr>) s"
  have ex: "osa_exit_callback e s = Option.bind (if last_user e s p then free_as_data p ?s1 else Some ?s1)
      (\<lambda>s2. Some (s2\<lparr>sc_as_map := AList.delete (ev_spid e) (sc_as_map s2)\<rparr>))"
    using assms(2-4) last by (simp add: osa_exit_callback_def Let_def)
  have "free_as_data p ?s1 = None \<longleftrightarrow> ad_lockmap a \<noteq> []" using free_returns[of p "a\<lparr>ad_ref_count := ad_ref_count a - 1\<rparr>" s] by auto
  then have "osa_exit_callback e s = None \<longleftrightarrow> last_user e s p \<and> ad_lockmap a \<noteq> []" by (auto simp: ex bind_eq_None_conv)
  then show ?thesis by (auto simp: ex AList.delete_conv' free_effect split: if_splits bind_splits)
qed

theorem exit_frees_last_user_witness:
  "\<exists>s'. osa_exit_callback ev_demo (sc_demo\<lparr>sc_as_map := [(7, 0)], sc_heap := [(0, as_demo\<lparr>ad_lockmap := []\<rparr>)]\<rparr>) = Some s' \<and> as_at s' 0 = None"
proof -
  let ?s = "sc_demo\<lparr>sc_as_map := [(7, 0)], sc_heap := [(0, as_demo\<lparr>ad_lockmap := []\<rparr>)]\<rparr>"
  have ok: "sc_ok ?s" by (rule demo_with_ok) (simp_all add: as_ok_def as_demo_def as_new_def WorkSet_new_def ws_ok_def)
  have "ev_spid ev_demo \<noteq> 0" "map_of (sc_as_map ?s) (ev_spid ev_demo) = Some 0" "as_at ?s 0 = Some (as_demo\<lparr>ad_lockmap := []\<rparr>)"
    by (simp_all add: ev_demo_def as_at_heap)
  from exit_frees_last_user[OF ok this] show ?thesis by (auto simp: ev_demo_def last_user_def split: if_splits)
qed

text \<open>
  C9. A load or store outside the current stack frame and not to a lock word, by a process with
  open working sets, grows each of them and the aggregate working set of each of their locks by
  exactly the accessed bytes; other locks and the working sets of other processes stay as they are.
\<close>

theorem access_grows_open_worksets:
  assumes "sc_ok s" "fits (mo_access m)" "mo_vanilla m" "mo_type m = Sim_Trans_Load \<or> mo_type m = Sim_Trans_Store"
    "mo_address m > ucast (ev_reg e EBP) \<or> mo_address m < ucast (ev_reg e ESP)"
    "map_of (sc_as_map s) (if in_kernel e then 0 else ev_spid e) = Some p" "as_at s p = Some a"
    "open_of a (ev_spid e) \<noteq> []" "map_of (ad_lockmap a) (ucast (mo_address m)) = None"
  shows "\<exists>a'. timing_operate e m s = Some (set_as p a' s) \<and>
    list_all2 (entry_grown (loads (mo_access m)) (stores (mo_access m))) (open_of a (ev_spid e)) (open_of a' (ev_spid e)) \<and>
    (\<forall>spid. spid \<noteq> ev_spid e \<longrightarrow> open_of a' spid = open_of a spid) \<and>
    (\<forall>addr. rel_option (if addr \<in> (fst \<circ> fst) ` set (open_of a (ev_spid e))
       then lock_grown (loads (mo_access m)) (stores (mo_access m)) else (=)) (map_of (ad_lockmap a) addr) (map_of (ad_lockmap a') addr))"
proof -
  obtain x wl where wl: "map_of (ad_locksetmap a) (ev_spid e) = Some (x # wl)"
    using assms(8) by (cases "map_of (ad_locksetmap a) (ev_spid e)"; cases "open_of a (ev_spid e)") (auto simp: open_of_def)
  have ok: "as_ok a" by (rule sc_okD(2)[OF assms(1,7)])
  obtain wl' locks' where g: "access_as m (ev_spid e) a = Some ((set_worksets (ev_spid e) wl' a)\<lparr>ad_lockmap := locks'\<rparr>)"
    "list_all2 (entry_grown (loads (mo_access m)) (stores (mo_access m))) (x # wl) wl'"
    "\<forall>addr. rel_option (if addr \<in> (fst \<circ> fst) ` set (x # wl) then lock_grown (loads (mo_access m)) (stores (mo_access m)) else (=))
       (map_of (ad_lockmap a) addr) (map_of locks' addr)"
    by (rule access_open[OF assms(2) ok wl assms(9)])
  have op: "open_of a (ev_spid e) = x # wl" using wl by (simp add: open_of_def)
  have "timing_operate e m s = Some (set_as p ((set_worksets (ev_spid e) wl' a)\<lparr>ad_lockmap := locks'\<rparr>) s)"
    using assms(3-7) g(1) by (simp add: timing_operate_def)
  then show ?thesis using g(2,3) unfolding op
    by (intro exI[of _ "(set_worksets (ev_spid e) wl' a)\<lparr>ad_lockmap := locks'\<rparr>"]) (simp add: open_of_def)
qed

definition as_locked :: as_data where
  "as_locked = set_worksets 7 [((0xc0300000, 0), WorkSet_new 0xc0300000 7 0 0 0)] as_demo"

lemma as_locked_ok: "as_ok as_locked" "ad_ref_count as_locked = 1" "open_of as_locked 7 = [((0xc0300000, 0), WorkSet_new 0xc0300000 7 0 0 0)]"
proof -
  show "as_ok as_locked" unfolding as_locked_def
    by (rule as_ok_set_worksets[OF as_demo_ok]) (simp add: entry_good_def WorkSet_new_def ws_ok_def as_demo_def)
qed (simp_all add: as_locked_def as_demo_ref open_of_def)

definition ev_kernel :: env where
  "ev_kernel = ev_demo\<lparr>ev_reg := \<lambda>r. if r = EIP then 0xc0100000 else 0\<rparr>"

theorem access_grows_open_worksets_witness:
  "\<exists>a' w. timing_operate ev_kernel \<lparr>mo_address = 0xc0400000, mo_size = 4, mo_type = Sim_Trans_Load, mo_vanilla = True\<rparr>
       (sc_demo\<lparr>sc_as_map := [(0, 0)], sc_heap := [(0, as_locked)]\<rparr>) =
     Some (set_as 0 a' (sc_demo\<lparr>sc_as_map := [(0, 0)], sc_heap := [(0, as_locked)]\<rparr>)) \<and>
     open_of a' 7 = [((0xc0300000, 0), w)] \<and> read_set w = access_bytes (0xc0400000, 4, Sim_Trans_Load)"
proof -
  let ?s = "sc_demo\<lparr>sc_as_map := [(0, 0)], sc_heap := [(0, as_locked)]\<rparr>"
  let ?m = "\<lparr>mo_address = 0xc0400000, mo_size = 4, mo_type = Sim_Trans_Load, mo_vanilla = True\<rparr>"
  have f: "fits (mo_access ?m)" "mo_vanilla ?m" "mo_type ?m = Sim_Trans_Load \<or> mo_type ?m = Sim_Trans_Store"
    "mo_address ?m > ucast (ev_reg ev_kernel EBP) \<or> mo_address ?m < ucast (ev_reg ev_kernel ESP)"
    "map_of (sc_as_map ?s) (if in_kernel ev_kernel then 0 else ev_spid ev_kernel) = Some 0" "as_at ?s 0 = Some as_locked"
    by (simp_all add: fits_def mo_access_def ev_kernel_def in_kernel_def KERNEL_BASE_def as_at_heap)
  have sp: "ev_spid ev_kernel = 7" by (simp add: ev_kernel_def ev_demo_def)
  have op: "open_of as_locked (ev_spid ev_kernel) \<noteq> []" by (simp add: as_locked_ok(3) sp)
  have "map_of (ad_lockmap as_locked) (ucast (mo_address ?m)) = None" by (simp add: as_locked_def as_demo_def)
  from access_grows_open_worksets[OF demo_with_ok[OF as_locked_ok(1,2)] f op this]
  obtain a' where "timing_operate ev_kernel ?m ?s = Some (set_as 0 a' ?s)"
      "list_all2 (entry_grown (loads (mo_access ?m)) (stores (mo_access ?m))) (open_of as_locked 7) (open_of a' 7)"
    unfolding sp by blast
  moreover from this(2) obtain w where "open_of a' 7 = [((0xc0300000, 0), w)]"
      "grown (loads (mo_access ?m)) (stores (mo_access ?m)) (WorkSet_new 0xc0300000 7 0 0 0) w"
    by (auto simp: as_locked_ok list_all2_Cons1 entry_grown_def)
  moreover from grown_sets(1)[OF this(2)] have "read_set w = access_bytes (0xc0400000, 4, Sim_Trans_Load)"
    by (simp add: read_set_def touched_def WorkSet_new_def loads_def mo_access_def)
  ultimately show ?thesis by blast
qed

text \<open>
  An access to a lock word is never recorded: it returns and leaves every working set of a
  process inside a critical section unchanged.
\<close>

theorem lock_words_filtered:
  assumes "map_of (sc_as_map s) (if in_kernel e then 0 else ev_spid e) = Some p" "as_at s p = Some a"
    "open_of a (ev_spid e) \<noteq> []" "map_of (ad_lockmap a) (ucast (mo_address m)) \<noteq> None"
  shows "timing_operate e m s = Some s"
proof -
  obtain x wl where wl: "map_of (ad_locksetmap a) (ev_spid e) = Some (x # wl)"
    using assms(3) by (cases "map_of (ad_locksetmap a) (ev_spid e)"; cases "open_of a (ev_spid e)") (auto simp: open_of_def)
  have "access_as m (ev_spid e) a = Some a"
    using wl grow_worksets_filtered[OF assms(4)] by (simp add: access_as_def set_worksets_def update_triv)
  moreover have "set_as p a s = s" using assms(2) by (simp add: set_as_def as_at_def update_triv)
  ultimately show ?thesis using assms(1,2) by (simp add: timing_operate_def)
qed

theorem lock_words_filtered_witness:
  "timing_operate ev_kernel \<lparr>mo_address = 0xc0300000, mo_size = 4, mo_type = Sim_Trans_Load, mo_vanilla = True\<rparr>
       (sc_demo\<lparr>sc_as_map := [(0, 0)], sc_heap := [(0, as_locked)]\<rparr>) =
     Some (sc_demo\<lparr>sc_as_map := [(0, 0)], sc_heap := [(0, as_locked)]\<rparr>)"
proof (rule lock_words_filtered)
  show "map_of (sc_as_map (sc_demo\<lparr>sc_as_map := [(0, 0)], sc_heap := [(0, as_locked)]\<rparr>))
      (if in_kernel ev_kernel then 0 else ev_spid ev_kernel) = Some 0"
    by (simp add: ev_kernel_def in_kernel_def KERNEL_BASE_def)
  show "open_of as_locked (ev_spid ev_kernel) \<noteq> []" by (simp add: as_locked_ok(3) ev_kernel_def ev_demo_def)
qed (simp_all add: as_at_heap as_locked_def as_demo_def)

section \<open>Nested opening\<close>

text \<open>
  A working set starts with the count 0, so one that is opened twice is closed and logged by
  the first close: after it the process no longer has it open, and the second close finds nothing.
\<close>

theorem nested_open_closed_early:
  assumes "map_of (ad_lockmap a) (ti_lock_addr t) = Some lk" "lk_name lk \<noteq> RUNQUEUE_NAME"
    "\<forall>x \<in> set (open_of a (ti_spid t)). fst x \<noteq> (ti_lock_addr t, lk_generation lk)"
  shows "\<exists>a1 a2 out2 a3 out3 a4 out4. open_workset e t a = Some (a1, []) \<and> open_workset e t a1 = Some (a2, out2) \<and>
    close_workset e b t a2 = Some (a3, out3) \<and> open_of a3 (ti_spid t) = open_of a (ti_spid t) \<and>
    close_workset e b t a3 = Some (a4, print_log e ''XXX unable to find workset to close'' 0 t @ out4) \<and>
    open_of a4 (ti_spid t) = open_of a (ti_spid t)"
proof -
  let ?k = "(ti_lock_addr t, lk_generation lk)"
  let ?w = "WorkSet_new (ti_lock_addr t) (ti_spid t) (of_int (lk_generation lk)) (of_int (lk_workset_count lk)) (ev_processor e)"
  obtain a1 where a1: "open_workset e t a = Some (a1, [])"
      "map_of (ad_locksetmap a1) (ti_spid t) = Some ((?k, ?w) # open_of a (ti_spid t))" "lock_ids_of a1 = lock_ids_of a"
    using open_fresh[OF assms(1,3)] by metis
  obtain lk1 where lk1: "map_of (ad_lockmap a1) (ti_lock_addr t) = Some lk1" "lk_name lk1 = lk_name lk" "lk_generation lk1 = lk_generation lk"
    using fun_cong[OF a1(3), of "ti_lock_addr t"] assms(1) unfolding lock_ids_of_def
    by (cases "map_of (ad_lockmap a1) (ti_lock_addr t)") simp_all
  let ?a2 = "set_worksets (ti_spid t) ((?k, ?w\<lparr>ws_cnt := 1\<rparr>) # open_of a (ti_spid t)) a1"
  have a2: "open_workset e t a1 = Some (?a2, print_log e ''XXX multiple workset opens (this might be okay)'' 0 t)"
    using lk1 a1(2) by (simp add: open_workset_def Let_def WorkSet_new_def)
  let ?w0 = "?w\<lparr>ws_cnt := 0\<rparr>"
  obtain a3 out where r: "rotate_asym b (ti_spid t) (set_worksets (ti_spid t) (open_of a (ti_spid t)) ?a2) = (a3, out)" by fastforce
  have a3: "close_workset e b t ?a2 = Some (a3, (if b then logWorkset ?w0 else []) @ out)"
    using lk1 assms(2) r by (simp add: close_workset_def get_lsit_def Let_def)
  have f3: "map_of (ad_lockmap a3) (ti_lock_addr t) = Some lk1" "map_of (ad_locksetmap a3) (ti_spid t) = Some (open_of a (ti_spid t))"
    using rotate_fields[OF r] lk1 by simp_all
  have none: "ws_close ?k wl = None" if "\<forall>x \<in> set wl. fst x \<noteq> ?k" for wl
    using that by (induction wl) (auto simp: split_beta)
  obtain a4 out4 where r4: "rotate_asym b (ti_spid t) a3 = (a4, out4)" by fastforce
  have "close_workset e b t a3 = Some (a4, print_log e ''XXX unable to find workset to close'' 0 t @ out4)"
    using f3 lk1 assms(2) none[OF assms(3)] r4 by (simp add: close_workset_def get_lsit_def Let_def)
  moreover have "open_of a3 (ti_spid t) = open_of a (ti_spid t)" "open_of a4 (ti_spid t) = open_of a (ti_spid t)"
    using f3(2) rotate_fields[OF r4] by (simp_all add: open_of_def[of a3] open_of_def[of a4])
  ultimately show ?thesis using a1(1) a2 a3 by blast
qed

theorem nested_open_closed_early_witness:
  "\<exists>a1 a2 out2 a3 out3. open_workset ev_demo ti_demo as_demo = Some (a1, []) \<and> open_workset ev_demo ti_demo a1 = Some (a2, out2) \<and>
    close_workset ev_demo True ti_demo a2 = Some (a3, out3) \<and> open_of a3 7 = []"
proof -
  have f: "ti_spid ti_demo = 7" "ti_lock_addr ti_demo = 0xc0300000" by (simp_all add: ti_demo_def)
  have o: "open_of as_demo 7 = []" by (simp add: open_of_def as_demo_def as_new_def)
  have "map_of (ad_lockmap as_demo) (ti_lock_addr ti_demo) = Some lk_demo" "lk_name lk_demo \<noteq> RUNQUEUE_NAME"
    "\<forall>x \<in> set (open_of as_demo (ti_spid ti_demo)). fst x \<noteq> (ti_lock_addr ti_demo, lk_generation lk_demo)"
    by (simp_all add: as_demo_def as_new_def f lk_demo_def new_lock_def RUNQUEUE_NAME_def open_of_def)
  from nested_open_closed_early[OF this, of ev_demo True] show ?thesis unfolding f o by blast
qed

section \<open>Contention\<close>

definition recorded :: "transition_info \<Rightarrow> lock \<Rightarrow> WorksetID \<Rightarrow> bool" where
  "recorded t lk i \<longleftrightarrow> list_ex (\<lambda>j. WorksetID_eq j i) (ca_contended (get_caller lk (ti_caller_ra t)))"

definition excess :: "transition_info \<Rightarrow> lock \<Rightarrow> u64" where
  "excess t lk = ca_q_count (get_caller lk (ti_caller_ra t)) - of_nat (length (ca_contended (get_caller lk (ti_caller_ra t))))"

lemma contention_step_lock:
  "fst (snd (contention_step t acc w)) = (let lk = fst (snd acc); i = ws_id (snd w) in
     if lock_addr i = ti_lock_addr t \<and> \<not> recorded t lk i
     then upd_caller (ti_caller_ra t) (\<lambda>c. c\<lparr>ca_contended := ca_contended c @ [i], ca_q_count := ca_q_count c + 1\<rparr>) lk else lk)"
  by (auto simp: contention_step_def recorded_def Let_def split: prod.splits)

lemma contention_step_keeps:
  "recorded t (fst (snd acc)) i \<Longrightarrow> recorded t (fst (snd (contention_step t acc w))) i"
  "lock_addr (ws_id (snd w)) = ti_lock_addr t \<Longrightarrow> recorded t (fst (snd (contention_step t acc w))) (ws_id (snd w))"
  "excess t (fst (snd (contention_step t acc w))) = excess t (fst (snd acc))"
  "lk_addr (fst (snd (contention_step t acc w))) = lk_addr (fst (snd acc))"
  by (auto simp: contention_step_lock Let_def recorded_def excess_def WorksetID_eq_def upd_caller_def get_caller_def)

lemma contention_fold:
  "excess t (fst (snd (foldl (contention_step t) acc wl))) = excess t (fst (snd acc))"
  "lk_addr (fst (snd (foldl (contention_step t) acc wl))) = lk_addr (fst (snd acc))"
  "recorded t (fst (snd acc)) i \<Longrightarrow> recorded t (fst (snd (foldl (contention_step t) acc wl))) i"
  by (induction wl arbitrary: acc) (simp_all add: contention_step_keeps)

lemma contention_fold_all:
  "w \<in> set wl \<Longrightarrow> lock_addr (ws_id (snd w)) = ti_lock_addr t \<Longrightarrow>
     recorded t (fst (snd (foldl (contention_step t) acc wl))) (ws_id (snd w))"
proof (induction wl arbitrary: acc)
  case (Cons v wl)
  then show ?case using contention_step_keeps(2)[of w t acc] by (cases "w = v") (auto intro: contention_fold(3))
qed simp

lemma contention_fold_again:
  assumes "\<forall>w \<in> set wl. lock_addr (ws_id (snd w)) = ti_lock_addr t \<longrightarrow> recorded t lk (ws_id (snd w))" "fst (snd acc) = lk"
  shows "fst (snd (foldl (contention_step t) acc wl)) = lk"
  using assms
proof (induction wl arbitrary: acc)
  case (Cons v wl)
  then have "fst (snd (contention_step t acc v)) = lk" by (auto simp: contention_step_lock)
  then show ?case using Cons by simp
qed simp

text \<open>
  C16. When a process is locked out, recording the contention adds to the caller every working set
  that the holder has open for the lock, advances the caller's queue count by exactly the number of
  working sets added, and doing it again for the same working sets changes nothing, so spinning on
  the lock does not count twice.
\<close>

theorem contention_recorded_once:
  assumes "find_as s (if lk_addr lk < KERNEL_BASE then spid else 0) = Some a" "map_of (ad_locksetmap a) spid = Some wl"
  shows "\<exists>lk' out. record_contention1 e s spid t lk = Some (lk', out) \<and>
    (\<forall>w \<in> set wl. lock_addr (ws_id (snd w)) = ti_lock_addr t \<longrightarrow> recorded t lk' (ws_id (snd w))) \<and>
    ca_q_count (get_caller lk' (ti_caller_ra t)) - ca_q_count (get_caller lk (ti_caller_ra t)) =
      of_nat (length (ca_contended (get_caller lk' (ti_caller_ra t)))) - of_nat (length (ca_contended (get_caller lk (ti_caller_ra t)))) \<and>
    (\<exists>out'. record_contention1 e s spid t lk' = Some (lk', out'))"
proof -
  obtain n lk' out where f: "foldl (contention_step t) (0, lk, []) wl = (n, lk', out)" by (rule prod_cases3)
  have k: "excess t lk' = excess t lk" "lk_addr lk' = lk_addr lk"
    using contention_fold(1,2)[of t "(0, lk, [])" wl] f by simp_all
  have all: "\<forall>w \<in> set wl. lock_addr (ws_id (snd w)) = ti_lock_addr t \<longrightarrow> recorded t lk' (ws_id (snd w))"
    using contention_fold_all[of _ wl t "(0, lk, [])"] f by simp
  obtain n' out' where "foldl (contention_step t) (0, lk', []) wl = (n', lk', out')"
    using contention_fold_again[OF all, of "(0, lk', [])"] by (cases "foldl (contention_step t) (0, lk', []) wl") auto
  then have "\<exists>out'. record_contention1 e s spid t lk' = Some (lk', out')" using assms k(2) by (simp add: record_contention1_def)
  moreover have "\<exists>out. record_contention1 e s spid t lk = Some (lk', out)" using assms f by (simp add: record_contention1_def)
  ultimately show ?thesis using all k(1) by (auto simp: excess_def algebra_simps)
qed

theorem contention_recorded_once_witness:
  "\<exists>lk' out out'. record_contention1 ev_demo (sc_demo\<lparr>sc_as_map := [(0, 0)], sc_heap := [(0, as_locked)]\<rparr>) 7 ti_demo lk_demo = Some (lk', out) \<and>
     record_contention1 ev_demo (sc_demo\<lparr>sc_as_map := [(0, 0)], sc_heap := [(0, as_locked)]\<rparr>) 7 ti_demo lk' = Some (lk', out')"
proof -
  let ?s = "sc_demo\<lparr>sc_as_map := [(0, 0)], sc_heap := [(0, as_locked)]\<rparr>"
  have "find_as ?s (if lk_addr lk_demo < KERNEL_BASE then 7 else 0) = Some as_locked"
    by (simp add: find_as_def as_at_heap lk_demo_def new_lock_def KERNEL_BASE_def)
  moreover have "map_of (ad_locksetmap as_locked) 7 = Some [((0xc0300000, 0), WorkSet_new 0xc0300000 7 0 0 0)]"
    by (simp add: as_locked_def)
  ultimately show ?thesis using contention_recorded_once[of ?s lk_demo 7 as_locked _ ev_demo ti_demo] by blast
qed

section \<open>Scheduling\<close>

text \<open>A run queue lock that \<open>old\<close> holds.\<close>

definition moves :: "spid_t \<Rightarrow> as_data \<Rightarrow> u32 \<Rightarrow> bool" where
  "moves old a addr \<longleftrightarrow> (\<exists>lk. map_of (ad_lockmap a) addr = Some lk \<and> lk_spid_owner lk = old \<and> lk_name lk = RUNQUEUE_NAME)"

definition ids_of :: "workset_list \<Rightarrow> WorksetID multiset" where
  "ids_of wl = mset (map (ws_id \<circ> snd) wl)"

lemma ids_of_append [simp]: "ids_of (xs @ ys) = ids_of xs + ids_of ys" "ids_of (rev xs) = ids_of xs"
  by (simp_all add: ids_of_def rev_map)

lemma ids_of_partition: "ids_of (filter P xs) + ids_of (filter (\<lambda>x. \<not> P x) xs) = ids_of xs"
  unfolding ids_of_def by (induction xs) auto

lemma move_effect:
  assumes "old \<noteq> new"
  shows "open_of (move_worksets addr old new k a) old = filter (\<lambda>y. lock_addr (ws_id (snd y)) \<noteq> addr) (open_of a old)"
    and "ids_of (open_of (move_worksets addr old new k a) old) + ids_of (open_of (move_worksets addr old new k a) new) =
         ids_of (open_of a old) + ids_of (open_of a new)"
    and "ad_lockmap (move_worksets addr old new k a) = ad_lockmap a"
    and "spid \<noteq> old \<Longrightarrow> spid \<noteq> new \<Longrightarrow> open_of (move_worksets addr old new k a) spid = open_of a spid"
    and "y \<in> set (open_of (move_worksets addr old new k a) new) \<Longrightarrow>
         y \<in> set (open_of a new) \<or> ws_pid (snd y) = new \<and> ws_old_pid (snd y) = old"
proof -
  show "open_of (move_worksets addr old new k a) old = filter (\<lambda>y. lock_addr (ws_id (snd y)) \<noteq> addr) (open_of a old)"
    using assms by (auto simp: move_worksets_def Let_def open_of_def filter_empty_conv filter_id_conv split: option.splits)
  show "ad_lockmap (move_worksets addr old new k a) = ad_lockmap a"
    by (auto simp: move_worksets_def Let_def split: option.splits)
  show "spid \<noteq> old \<Longrightarrow> spid \<noteq> new \<Longrightarrow> open_of (move_worksets addr old new k a) spid = open_of a spid"
    by (auto simp: move_worksets_def Let_def open_of_def split: option.splits)
  show "y \<in> set (open_of (move_worksets addr old new k a) new) \<Longrightarrow>
         y \<in> set (open_of a new) \<or> ws_pid (snd y) = new \<and> ws_old_pid (snd y) = old"
    using assms by (auto simp: move_worksets_def Let_def open_of_def change_owner_def split: option.splits if_splits)
  show "ids_of (open_of (move_worksets addr old new k a) old) + ids_of (open_of (move_worksets addr old new k a) new) =
         ids_of (open_of a old) + ids_of (open_of a new)"
  proof (cases "map_of (ad_locksetmap a) old")
    case (Some wl)
    have "ids_of (map (\<lambda>x. (k, change_owner old new (snd x))) xs) = ids_of xs" for xs :: workset_list
      by (induction xs) (auto simp: ids_of_def change_owner_def)
    then show ?thesis using Some assms ids_of_partition[of "\<lambda>x. lock_addr (ws_id (snd x)) = addr" wl]
      by (auto simp: move_worksets_def Let_def open_of_def ac_simps split: option.splits)
  qed (simp add: move_worksets_def)
qed

lemma sched_lock_effect:
  assumes "old \<noteq> new"
  defines "b x a \<equiv> sched_lock old new a x"
  shows "open_of (b x a) old = filter (\<lambda>y. \<not> (moves old a (fst x) \<and> lock_addr (ws_id (snd y)) = fst x)) (open_of a old)"
    and "moves old (b x a) addr \<longleftrightarrow> moves old a addr \<and> addr \<noteq> fst x"
    and "ids_of (open_of (b x a) old) + ids_of (open_of (b x a) new) = ids_of (open_of a old) + ids_of (open_of a new)"
    and "spid \<noteq> old \<Longrightarrow> spid \<noteq> new \<Longrightarrow> open_of (b x a) spid = open_of a spid"
    and "y \<in> set (open_of (b x a) new) \<Longrightarrow> y \<in> set (open_of a new) \<or> ws_pid (snd y) = new \<and> ws_old_pid (snd y) = old"
proof -
  have m: "b x a = (if moves old a (fst x) then move_worksets (fst x) old new (fst x, lk_generation (the (map_of (ad_lockmap a) (fst x))))
      (set_lock (fst x) ((the (map_of (ad_lockmap a) (fst x)))\<lparr>lk_spid_owner := new\<rparr>) a) else a)"
    by (auto simp: b_def sched_lock_def moves_def split: option.splits)
  have o: "open_of (set_lock addr lk a) = open_of a" for addr lk by (simp add: open_of_def fun_eq_iff)
  note e = move_effect[OF assms(1)]
  show "open_of (b x a) old = filter (\<lambda>y. \<not> (moves old a (fst x) \<and> lock_addr (ws_id (snd y)) = fst x)) (open_of a old)"
    by (simp add: m e(1) o)
  show "moves old (b x a) addr \<longleftrightarrow> moves old a addr \<and> addr \<noteq> fst x"
    using assms(1) by (auto simp: m moves_def e(3))
  show "ids_of (open_of (b x a) old) + ids_of (open_of (b x a) new) = ids_of (open_of a old) + ids_of (open_of a new)"
    by (simp add: m e(2) o)
  show "spid \<noteq> old \<Longrightarrow> spid \<noteq> new \<Longrightarrow> open_of (b x a) spid = open_of a spid" by (simp add: m e(4) o)
  show "y \<in> set (open_of (b x a) new) \<Longrightarrow> y \<in> set (open_of a new) \<or> ws_pid (snd y) = new \<and> ws_old_pid (snd y) = old"
    by (auto simp: m o split: if_splits dest!: e(5))
qed

lemma sched_fold:
  assumes "old \<noteq> new"
  defines "b xs a \<equiv> foldl (sched_lock old new) a xs"
  shows "open_of (b xs a) old = filter (\<lambda>y. \<not> (moves old a (lock_addr (ws_id (snd y))) \<and> lock_addr (ws_id (snd y)) \<in> fst ` set xs)) (open_of a old)"
    and "moves old (b xs a) addr \<longleftrightarrow> moves old a addr \<and> addr \<notin> fst ` set xs"
    and "ids_of (open_of (b xs a) old) + ids_of (open_of (b xs a) new) = ids_of (open_of a old) + ids_of (open_of a new)"
    and "spid \<noteq> old \<Longrightarrow> spid \<noteq> new \<Longrightarrow> open_of (b xs a) spid = open_of a spid"
    and "y \<in> set (open_of (b xs a) new) \<Longrightarrow> y \<in> set (open_of a new) \<or> ws_pid (snd y) = new \<and> ws_old_pid (snd y) = old"
  unfolding b_def
proof (induction xs arbitrary: a)
  case (Cons x xs)
  note e = sched_lock_effect[OF assms(1)]
  { case 1 show ?case by (simp add: Cons(1) e(1,2)) (rule filter_cong[OF refl], auto) }
  { case 2 show ?case by (auto simp: Cons(2) e(2)) }
  { case 3 show ?case by (simp add: Cons(3) e(3)) }
  { case 4 then show ?case unfolding foldl_Cons using Cons(4) e(4) by simp }
  { case 5 then show ?case unfolding foldl_Cons using Cons(5) e(5) by blast }
qed simp_all


definition as_runqueue :: as_data where
  "as_runqueue = as_demo\<lparr>ad_lockmap := [(0xc0300000, lk_demo\<lparr>lk_name := RUNQUEUE_NAME, lk_spid_owner := 7\<rparr>)],
     ad_locksetmap := [(7, [((0xc0300000, 0), WorkSet_new 0xc0300000 7 0 0 0)])]\<rparr>"


end
