(* ===== verification/SyncChar_Progress.thy ===== *)
theory SyncChar_Progress
  imports SyncChar_Runs
begin

text \<open>
  Every lock transition that a breakpoint posts for a kernel lock runs to completion.
\<close>

section \<open>Posted transitions complete\<close>

lemma record_contention1_some:
  assumes "find_as s 0 \<noteq> None" "lk_good addr lk" "KERNEL_BASE \<le> addr"
  shows "\<exists>lk' out. record_contention1 e s spid t lk = Some (lk', out) \<and> lk_good addr lk'"
proof -
  have "\<not> lk_addr lk < KERNEL_BASE" using assms(2,3) by (auto simp: lk_good_def)
  then have "record_contention1 e s spid t lk \<noteq> None"
    using assms(1) by (auto simp: record_contention1_def split: option.splits prod.splits)
  then obtain lk' out where r: "record_contention1 e s spid t lk = Some (lk', out)" by fastforce
  then show ?thesis using lk_good_record1[OF r] assms(2) by blast
qed

lemma record_contention_all_some:
  assumes "find_as s 0 \<noteq> None" "lk_good addr lk" "KERNEL_BASE \<le> addr"
  shows "\<exists>r. record_contention_all e s rs t lk = Some r"
  using assms(2)
proof (induction rs arbitrary: lk)
  case (Cons r rs)
  then show ?case using record_contention1_some[OF assms(1) Cons.prems assms(3), of e r t] by fastforce
qed simp

lemma locked_out_some:
  assumes "find_as s 0 \<noteq> None" "lk_good addr lk" "KERNEL_BASE \<le> addr"
  shows "locked_out e s t w lk x \<noteq> None"
proof -
  have "record_contention e s t lk' \<noteq> None" if "lk_good addr lk'" for lk'
    using record_contention1_some[OF assms(1) that assms(3), of e "lk_spid_owner lk'" t]
      record_contention_all_some[OF assms(1) that assms(3), of e "map fst (lk_readers lk')" t]
    by (auto simp: record_contention_def)
  then have "record_contention e s t (upd_acq (ti_spid t) f lk) \<noteq> None" for f using assms(2) by simp
  then show ?thesis by (auto simp: locked_out_def Let_def)
qed

lemma process_unlock_some:
  assumes "map_of (ad_lockmap a) (ti_lock_addr t) = Some lk"
  shows "\<exists>r. process_unlock e s t a = Some r"
proof -
  have "\<exists>r. finish_unlock e s t lk' a = Some r" for lk'
  proof -
    obtain lk1 ra out where r: "release_lock e t lk' = (lk1, ra, out)" by (rule prod_cases3)
    show ?thesis using finish_returns[OF r, of s a] by blast
  qed
  then show ?thesis using assms by (auto simp: process_unlock_def split: option.splits)
qed

lemma acquire_some: "acquire e s t lk x \<noteq> None"
proof -
  have "\<exists>r. ts_run (open_workset e t) (ts_print out (ts_lock (ti_lock_addr t) lk' y)) = Some r" for out lk' y
    using open_returns[of "ts_as (ts_print out (ts_lock (ti_lock_addr t) lk' y))" t lk' e] by (fastforce simp: ts_run_def)
  then show ?thesis by (auto simp: acquire_def Let_def split: prod.splits)
qed

lemma from_read_some:
  assumes "map_of (ad_lockmap (ts_as x)) (ti_lock_addr t) = Some lk" "find_as s 0 \<noteq> None" "lk_good addr lk" "KERNEL_BASE \<le> addr"
  shows "from_read e s t lk x \<noteq> None"
proof -
  have u: "\<exists>r. ts_run (process_unlock e s t) y = Some r" if "ts_as y = ts_as x" for y
    using process_unlock_some[OF assms(1), of e s] that by (auto simp: ts_run_def)
  have o: "\<exists>y lk'. ts_run (open_workset e t) (ts_lock (ti_lock_addr t) lk1 x) = Some y \<and> map_of (ad_lockmap (ts_as y)) (ti_lock_addr t) = Some lk'" for lk1
    using open_returns[of "ts_as (ts_lock (ti_lock_addr t) lk1 x)" t lk1 e] by (fastforce simp: ts_run_def)
  show ?thesis
    using u[of x] u[of "ts_print (print_log e ''XXX RLK->OPEN read_unlock '' 0 t) x"] o[of "add_reader (ti_spid t) lk"]
      locked_out_some[OF assms(2-4), of e t "Some ''XXXr acq_ra ''" x]
    by (cases "lk_state lk") (auto simp: from_read_def split: prod.splits)
qed

lemma from_write_some:
  assumes "map_of (ad_lockmap (ts_as x)) (ti_lock_addr t) = Some lk" "find_as s 0 \<noteq> None" "lk_good addr lk" "KERNEL_BASE \<le> addr"
  shows "from_write e s t lk x \<noteq> None"
  using process_unlock_some[OF assms(1), of e s] locked_out_some[OF assms(2-4), of e t _ x]
  by (cases "lk_state lk") (auto simp: from_write_def Let_def ts_run_def)

lemma track_some:
  assumes "lock_in x t = Some lk" "lk_good (ti_lock_addr t) lk" "find_as s 0 \<noteq> None"
    "has (ti_flags t) F_NOADDR \<or> KERNEL_BASE \<le> ti_lock_addr t" "ti_lock_id t = L_CXA \<or> ti_lock_id t = L_CXE \<longrightarrow> sc_osatxm s"
  shows "\<exists>y. track e s t x = Some y"
proof (cases "has (ti_flags t) F_NOADDR \<or> ti_lock_id t = L_COMPL")
  case True then show ?thesis using assms(1) by (auto simp: track_def lock_in_def Let_def)
next
  case False
  let ?lk = "upd_caller (ti_caller_ra t) (\<lambda>c. c\<lparr>ca_count := ca_count c + 1\<rparr>) lk"
  obtain lk1 out where u: "update_current_lock_state e t ?lk = (lk1, out)" by fastforce
  have g: "lk_good (ti_lock_addr t) lk1" using lk_good_update_state[of "ti_lock_addr t" e t ?lk] u assms(2) by simp
  define t1 where "t1 = detect_read_lock_unlock (t\<lparr>ti_new_state := Some (lk_state lk1)\<rparr>)"
  have f: "ti_lock_addr t1 = ti_lock_addr t" "ti_lock_id t1 = ti_lock_id t" by (simp_all add: t1_def)
  let ?x = "ts_print out (ts_lock (ti_lock_addr t) lk1 x)"
  have x: "map_of (ad_lockmap (ts_as ?x)) (ti_lock_addr t1) = Some lk1" by (simp add: f)
  have k: "KERNEL_BASE \<le> ti_lock_addr t" using False assms(4) by blast
  have "from_open e s t1 lk1 ?x \<noteq> None"
    using locked_out_some[OF assms(3) g k, of e t1 None ?x] assms(5) acquire_some[of e s t1 lk1 ?x]
    by (auto simp: from_open_def Let_def f)
  then have "process_transition e s t1 ?x \<noteq> None"
    using x from_read_some[OF x assms(3) g k, of e] from_write_some[OF x assms(3) g k, of e]
    by (simp add: process_transition_def split: lkst.split)
  then show ?thesis using False assms(1) u by (auto simp: track_def lock_in_def Let_def t1_def[symmetric])
qed

lemma initialize_some:
  assumes "map_of (ad_ramap a) (bp_pc bp) = Some r"
  obtains t a1 out lk where "initialize_transition e s bp a = Some (t, a1, out)" "map_of (ad_lockmap a1) (ti_lock_addr t) = Some lk"
    "ti_lock_addr t = (if has (ra_flags r) F_NOADDR then 1 else get_lock_addr e r)" "ti_flags t = ra_flags r" "ti_lock_id t = ra_lock_id r"
proof -
  define t where "t = start_info e s bp r"
  obtain a1 out where f: "find_or_allocate e t a = (a1, out)" by fastforce
  have "\<exists>lk. map_of (ad_lockmap a1) (ti_lock_addr t) = Some lk"
    using f map_of_allocate[of "ti_lock_id t" "ti_lock_addr t" "ti_bp_lkval t" "''''" a]
    by (auto simp: find_or_allocate_def Let_def split: option.splits prod.splits)
  then obtain lk where lk: "map_of (ad_lockmap a1) (ti_lock_addr t) = Some lk" ..
  have "ti_lock_addr t = (if has (ra_flags r) F_NOADDR then 1 else get_lock_addr e r)" "ti_flags t = ra_flags r" "ti_lock_id t = ra_lock_id r"
    by (simp_all add: t_def start_info_def Let_def)
  then show thesis using that assms f lk
    by (simp add: initialize_transition_def t_def[symmetric] Let_def)
qed



end
