(* ===== verification/Tracer.thy ===== *)
theory Tracer
  imports Simulator "HOL-Library.Monad_Syntax"
begin

text \<open>
  The message logs of the modules: the tracer object (\<^verbatim>\<open>common/tracer.cc\<close>), a ring of
  string buffers, and the byte ring that is dumped when an assertion fails
  (\<^verbatim>\<open>common/osaassert.cc\<close>).  Both keep the end of what was logged.
\<close>

section \<open>Tracer\<close>

record tracer =
  m_v :: "string list"
  m_max :: nat
  m_pos :: nat
  m_valid :: nat

definition tracer_new :: "nat \<Rightarrow> tracer" where
  "tracer_new max_entries = \<lparr>m_v = replicate max_entries [], m_max = max_entries, m_pos = 0, m_valid = 0\<rparr>"

definition empty_entry :: "nat \<Rightarrow> tracer \<Rightarrow> tracer" where
  "empty_entry i t = t\<lparr>m_v := (m_v t)[i mod m_max t := []]\<rparr>"

text \<open>The next buffer to write to, by its index.  With no entries the index is taken modulo zero.\<close>

definition msg_buf :: "tracer \<Rightarrow> (tracer \<times> nat) option" where
  "msg_buf t =
     (if m_max t = 0 then None
      else
        (let t1 = (if m_pos t \<ge> m_max t then t\<lparr>m_pos := 0, m_valid := m_max t\<rparr>
                   else if m_valid t < m_max t then t\<lparr>m_valid := m_valid t + 1\<rparr> else t);
             t2 = empty_entry (m_pos t1) t1
         in Some (t2\<lparr>m_pos := m_pos t1 + 1\<rparr>, m_pos t1)))"

definition first_entry :: "tracer \<Rightarrow> nat" where
  "first_entry t = (if m_valid t < m_max t then 0 else m_pos t mod m_max t)"

text \<open>The loop of \<open>commit\<close>: \<open>n\<close> entries from \<open>i\<close> on.\<close>

fun commit_loop :: "bool \<Rightarrow> nat \<Rightarrow> nat \<Rightarrow> tracer \<Rightarrow> ostream \<Rightarrow> tracer \<times> ostream" where
  "commit_loop erase i 0 t s = (t, s)"
| "commit_loop erase i (Suc n) t s =
     (let s' = s @ [Str (m_v t ! (i mod m_max t))];
          t' = (if erase then empty_entry i t else t)
      in commit_loop erase (i + 1) n t' s')"

definition commit :: "bool \<Rightarrow> tracer \<Rightarrow> (tracer \<times> ostream) option" where
  "commit erase t =
     (if m_max t = 0 then None
      else
        (let (t', s) = commit_loop erase (first_entry t) (m_valid t) t []
         in Some (if erase then t'\<lparr>m_pos := 0, m_valid := 0\<rparr> else t', s)))"

fun empty_loop :: "nat \<Rightarrow> nat \<Rightarrow> tracer \<Rightarrow> tracer" where
  "empty_loop i 0 t = t"
| "empty_loop i (Suc n) t = empty_loop (i + 1) n (empty_entry i t)"

definition empty_all :: "tracer \<Rightarrow> tracer option" where
  "empty_all t =
     (if m_max t = 0 then None
      else Some ((empty_loop (first_entry t) (m_valid t) t)\<lparr>m_pos := 0, m_valid := 0\<rparr>))"

text \<open>Inserting into the stream that \<open>msg_buf\<close> returned.\<close>

definition put_msg :: "nat \<Rightarrow> string \<Rightarrow> tracer \<Rightarrow> tracer" where
  "put_msg i m t = t\<lparr>m_v := (m_v t)[i := m_v t ! i @ m]\<rparr>"

definition trace_msg :: "string \<Rightarrow> tracer \<Rightarrow> tracer option" where
  "trace_msg m t = do { (t', i) \<leftarrow> msg_buf t; Some (put_msg i m t') }"

section \<open>The assertion log\<close>

definition OSA_MAX_LOG_MSG :: nat where [const_defs]: "OSA_MAX_LOG_MSG = 256"
definition OSA_RING_SIZE :: nat where [const_defs]: "OSA_RING_SIZE = 1024000"
definition RING_BYTES :: nat where [const_defs]: "RING_BYTES = OSA_RING_SIZE + OSA_MAX_LOG_MSG + 1"

record osa_ring =
  ring_buf :: "nat \<Rightarrow> char"
  ring_pos :: int

definition ring_initial :: osa_ring where
  "ring_initial = \<lparr>ring_buf = (\<lambda>_. NUL), ring_pos = - 1\<rparr>"

definition ring_put :: "nat \<Rightarrow> string \<Rightarrow> (nat \<Rightarrow> char) \<Rightarrow> nat \<Rightarrow> char" where
  "ring_put p s buf = (\<lambda>i. if p \<le> i \<and> i < p + length s then s ! (i - p) else buf i)"

text \<open>
  \<open>msg\<close> is the whole formatted message; \<^verbatim>\<open>vsnprintf\<close> stores at most 255 bytes of it and a
  terminator but returns its length.  \<open>None\<close> is a store outside the buffer.
\<close>

definition osa_log :: "string \<Rightarrow> osa_ring \<Rightarrow> osa_ring option" where
  "osa_log msg r =
     (let r1 = (if ring_pos r = - 1 then \<lparr>ring_buf = (\<lambda>_. NUL), ring_pos = 0\<rparr> else r);
          p = nat (ring_pos r1);
          buf1 = ring_put p (take (OSA_MAX_LOG_MSG - 1) msg @ [NUL]) (ring_buf r1);
          p1 = p + length msg;
          buf2 = buf1(p1 := CHR 0x0A);
          p2 = p1 + 1
      in if p1 \<ge> RING_BYTES then None
         else if p2 \<ge> OSA_RING_SIZE
         then (if p2 \<ge> RING_BYTES then None else Some \<lparr>ring_buf = buf2(p2 := NUL), ring_pos = 0\<rparr>)
         else Some \<lparr>ring_buf = buf2, ring_pos = int p2\<rparr>)"

text \<open>The C string at \<open>p\<close>, with \<open>n\<close> bytes of the buffer left.\<close>

fun cstr :: "(nat \<Rightarrow> char) \<Rightarrow> nat \<Rightarrow> nat \<Rightarrow> string option" where
  "cstr buf p 0 = None"
| "cstr buf p (Suc n) = (if buf p = NUL then Some [] else map_option ((#) (buf p)) (cstr buf (p + 1) n))"

definition osa_dump_log :: "bool \<Rightarrow> osa_ring \<Rightarrow> (osa_ring \<times> ostream) option" where
  "osa_dump_log has_osamod r =
     (if \<not> has_osamod \<or> ring_pos r = - 1 then Some (r, [])
      else do {
        let p = nat (ring_pos r);
        older \<leftarrow> cstr (ring_buf r) p (RING_BYTES - p);
        let r' = r\<lparr>ring_buf := (ring_buf r)(p := NUL)\<rparr>;
        newer \<leftarrow> cstr (ring_buf r') 0 RING_BYTES;
        Some (r', [Str ''DUMPING LAST '', Dec (int OSA_RING_SIZE), Str '' LOG BYTES:'', Endl, Str older, Str newer])
      })"

section \<open>Logs that keep their end\<close>

definition lastn :: "nat \<Rightarrow> 'a list \<Rightarrow> 'a list" where
  "lastn n xs = drop (length xs - n) xs"

lemma lastn_append: "lastn n (lastn n xs @ ys) = lastn n (xs @ ys)"
  by (cases "length xs \<le> n") (simp_all add: lastn_def add.commute)

lemma length_lastn [simp]: "length (lastn n xs) = min n (length xs)"
  by (simp add: lastn_def min_def)

text \<open>A partial operation run once for each argument.\<close>

fun run_all :: "('m \<Rightarrow> 's \<Rightarrow> 's option) \<Rightarrow> 'm list \<Rightarrow> 's \<Rightarrow> 's option" where
  "run_all f [] s = Some s"
| "run_all f (m # ms) s = Option.bind (f m s) (run_all f ms)"

locale bounded_log =
  fixes append_msg :: "'m \<Rightarrow> 's \<Rightarrow> 's option"
    and contents :: "'s \<Rightarrow> 'm list"
    and capacity :: "'s \<Rightarrow> nat"
    and wf :: "'s \<Rightarrow> bool"
  assumes append_ok: "wf s \<Longrightarrow> \<exists>s'. append_msg m s = Some s' \<and> wf s' \<and> capacity s' = capacity s \<and>
      contents s' = lastn (capacity s) (contents s @ [m])"
begin

lemma append_all_ok:
  "wf s \<Longrightarrow> contents s = lastn (capacity s) h \<Longrightarrow> \<exists>s'. run_all append_msg ms s = Some s' \<and> wf s' \<and> capacity s' = capacity s \<and>
     contents s' = lastn (capacity s) (h @ ms)"
proof (induction ms arbitrary: s h)
  case (Cons m ms)
  obtain s1 where s1: "append_msg m s = Some s1" "wf s1" "capacity s1 = capacity s" "contents s1 = lastn (capacity s) (contents s @ [m])"
    using append_ok[OF Cons.prems(1)] by blast
  then have "contents s1 = lastn (capacity s1) (h @ [m])" using Cons.prems(2) by (simp add: lastn_append)
  from Cons.IH[OF s1(2) this] show ?case using s1 by simp
qed simp

end

section \<open>The tracer keeps its last messages\<close>

definition tracer_ok :: "tracer \<Rightarrow> bool" where
  "tracer_ok t \<longleftrightarrow> 0 < m_max t \<and> length (m_v t) = m_max t \<and> m_valid t \<le> m_max t \<and> m_pos t \<le> m_max t \<and>
     (m_valid t < m_max t \<longrightarrow> m_pos t = m_valid t)"

definition tracer_msgs :: "tracer \<Rightarrow> string list" where
  "tracer_msgs t = map (\<lambda>j. m_v t ! ((first_entry t + j) mod m_max t)) [0..<m_valid t]"

lemma tracer_msgs_partial: "m_valid t < m_max t \<Longrightarrow> length (m_v t) = m_max t \<Longrightarrow> tracer_msgs t = take (m_valid t) (m_v t)"
  by (intro nth_equalityI) (simp_all add: tracer_msgs_def first_entry_def)

lemma trace_msg_eq:
  assumes "tracer_ok t"
  defines "p \<equiv> (if m_pos t = m_max t then 0 else m_pos t)"
  shows "trace_msg m t = Some (t\<lparr>m_v := (m_v t)[p := m], m_pos := p + 1,
     m_valid := (if m_pos t < m_max t \<and> m_valid t < m_max t then m_valid t + 1 else m_max t)\<rparr>)"
  using assms by (auto simp: trace_msg_def msg_buf_def tracer_ok_def put_msg_def empty_entry_def Let_def)

lemma ring_slot:
  fixes p i n :: nat
  assumes "p < n" "i < n"
  shows "(p + 1 + i) mod n = p \<longleftrightarrow> i = n - 1"
proof (cases "p + 1 + i < n")
  case False
  then have "(p + 1 + i) mod n = p + 1 + i - n" using assms by (simp add: le_mod_geq)
  then show ?thesis using assms False by arith
qed (use assms in auto)

lemma tracer_append:
  assumes ok: "tracer_ok t"
  shows "\<exists>t'. trace_msg m t = Some t' \<and> tracer_ok t' \<and> m_max t' = m_max t \<and> tracer_msgs t' = lastn (m_max t) (tracer_msgs t @ [m])"
proof (cases "m_valid t < m_max t")
  case True
  then have p: "m_pos t = m_valid t" "length (m_v t) = m_max t" using ok by (simp_all add: tracer_ok_def)
  let ?t = "t\<lparr>m_v := (m_v t)[m_pos t := m], m_pos := m_pos t + 1, m_valid := m_valid t + 1\<rparr>"
  have "trace_msg m t = Some ?t" using trace_msg_eq[OF ok, of m] True p by simp
  moreover have "tracer_ok ?t" using ok True p by (auto simp: tracer_ok_def)
  moreover have "tracer_msgs ?t = tracer_msgs t @ [m]"
  proof -
  have "Suc (m_valid t) < m_max t \<or> Suc (m_valid t) = m_max t" using True by linarith
  then have fe: "first_entry ?t = 0" "first_entry t = 0" using True p by (auto simp: first_entry_def)
  show ?thesis
  proof (rule nth_equalityI)
    fix i assume "i < length (tracer_msgs ?t)"
    then show "tracer_msgs ?t ! i = (tracer_msgs t @ [m]) ! i"
      using True p unfolding tracer_msgs_def fe by (auto simp: nth_append less_Suc_eq)
  qed (simp add: tracer_msgs_def)
  qed
  moreover have "length (tracer_msgs t) = m_valid t" by (simp add: tracer_msgs_def)
  ultimately show ?thesis using True by (auto simp: lastn_def)
next
  case False
  define p where "p = (if m_pos t = m_max t then 0 else m_pos t)"
  let ?n = "m_max t"
  have v: "m_valid t = ?n" "0 < ?n" "length (m_v t) = ?n" "m_pos t \<le> ?n" using ok False by (auto simp: tracer_ok_def)
  let ?t = "t\<lparr>m_v := (m_v t)[p := m], m_pos := p + 1\<rparr>"
  have tr: "trace_msg m t = Some ?t" using trace_msg_eq[OF ok, of m] v by (simp add: p_def)
  have pm: "m_pos t mod ?n = p" "p < ?n" using v by (auto simp: p_def)
  have "tracer_msgs ?t = tl (tracer_msgs t) @ [m]"
  proof (rule nth_equalityI)
    show "length (tracer_msgs ?t) = length (tl (tracer_msgs t) @ [m])" using v by (simp add: tracer_msgs_def)
    fix i assume "i < length (tracer_msgs ?t)"
    then have i: "i < ?n" using v by (simp add: tracer_msgs_def)
    have idx: "(first_entry ?t + i) mod ?n = (p + 1 + i) mod ?n" using v by (simp add: first_entry_def mod_simps)
    show "tracer_msgs ?t ! i = (tl (tracer_msgs t) @ [m]) ! i"
    proof (cases "i = ?n - 1")
      case True
      then have "(p + 1 + i) mod ?n = p" using ring_slot[OF pm(2) i] by simp
      then show ?thesis using True i idx v pm by (simp add: tracer_msgs_def nth_append)
    next
      case False
      then have ne: "(p + 1 + i) mod ?n \<noteq> p" using ring_slot[OF pm(2) i] by simp
      have "tl (tracer_msgs t) ! i = m_v t ! ((p + 1 + i) mod ?n)"
        using i False v pm(1) by (simp add: tracer_msgs_def nth_tl first_entry_def ac_simps)
      moreover have "i < ?n - 1" using False i by simp
      ultimately show ?thesis using i idx v ne by (simp add: tracer_msgs_def nth_append)
    qed
  qed
  moreover have "lastn ?n (tracer_msgs t @ [m]) = tl (tracer_msgs t) @ [m]"
  proof -
    have "length (tracer_msgs t) = ?n" using v by (simp add: tracer_msgs_def)
    then show ?thesis using v(2) by (cases "tracer_msgs t") (auto simp: lastn_def)
  qed
  moreover have "tracer_ok ?t" using v pm(2) by (auto simp: tracer_ok_def)
  ultimately show ?thesis using tr by auto
qed

interpretation tr: bounded_log trace_msg tracer_msgs m_max tracer_ok
  by unfold_locales (rule tracer_append)

lemma commit_loop_keep: "commit_loop False i n t s = (t, s @ map (\<lambda>j. Str (m_v t ! ((i + j) mod m_max t))) [0..<n])"
proof (induction n arbitrary: i s)
  case (Suc n)
  have "[0..<Suc n] = 0 # map Suc [0..<n]" by (simp add: map_Suc_upt upt_conv_Cons)
  then show ?case using Suc by (simp add: Let_def o_def)
qed simp

lemma tracer_new_ok: "0 < n \<Longrightarrow> tracer_ok (tracer_new n)" "tracer_msgs (tracer_new n) = []" "m_max (tracer_new n) = n"
  by (simp_all add: tracer_ok_def tracer_new_def tracer_msgs_def)

text \<open>
  C33. A tracer with room for \<open>n\<close> messages, after any sequence of messages, commits exactly the last
  \<open>n\<close> of them, oldest first, and a commit without erasing changes nothing.
\<close>

theorem tracer_commits_last_messages:
  assumes "0 < n"
  shows "\<exists>t. run_all trace_msg ms (tracer_new n) = Some t \<and> commit False t = Some (t, map Str (lastn n ms))"
proof -
  obtain t where t: "run_all trace_msg ms (tracer_new n) = Some t" "tracer_ok t" "m_max t = n" "tracer_msgs t = lastn n ms"
    using tr.append_all_ok[OF tracer_new_ok(1)[OF assms], of "[]" ms] by (auto simp: tracer_new_ok lastn_def)
  have "commit False t = Some (t, map Str (tracer_msgs t))"
    using t(3) assms by (simp add: commit_def commit_loop_keep tracer_msgs_def o_def)
  then show ?thesis using t by simp
qed

theorem tracer_commits_last_messages_witness:
  "\<exists>t. run_all trace_msg [''a'', ''b'', ''c''] (tracer_new 2) = Some t \<and> commit False t = Some (t, [Str ''b'', Str ''c''])"
  using tracer_commits_last_messages[of 2 "[''a'', ''b'', ''c'']"] by (simp add: lastn_def)

section \<open>The assertion log keeps its end\<close>

text \<open>
  \<open>prev\<close> is the text of the previous lap, \<open>cur\<close> that of the current one; in the first lap the rest
  of the buffer is zero.
\<close>

definition ring_holds :: "string \<Rightarrow> string \<Rightarrow> osa_ring \<Rightarrow> bool" where
  "ring_holds prev cur r \<longleftrightarrow> ring_pos r = int (length cur) \<and> length cur < OSA_RING_SIZE \<and>
     NUL \<notin> set prev \<and> NUL \<notin> set cur \<and> (\<forall>i < length cur. ring_buf r i = cur ! i) \<and>
     (if prev = [] then \<forall>i \<ge> length cur. ring_buf r i = NUL
      else OSA_RING_SIZE \<le> length prev \<and> length prev < RING_BYTES \<and> ring_buf r (length prev) = NUL \<and>
        (\<forall>i. length cur \<le> i \<and> i < length prev \<longrightarrow> ring_buf r i = prev ! i))"

definition ring_log :: "string \<Rightarrow> osa_ring \<Rightarrow> bool" where
  "ring_log h r \<longleftrightarrow> (\<exists>pre prev cur. h = pre @ prev @ cur \<and> (prev = [] \<longrightarrow> pre = []) \<and> ring_holds prev cur r)"

lemma ring_put_line:
  assumes "length msg < 256"
  shows "(ring_put p (take 255 msg @ [NUL]) buf)(p + length msg := CHR 0x0A) = ring_put p (msg @ [CHR 0x0A]) buf"
  using assms by (auto simp: ring_put_def fun_eq_iff nth_append)

lemma osa_log_step:
  assumes r: "ring_holds prev cur r" and m: "length msg < 256" "NUL \<notin> set msg"
  defines "cur' \<equiv> cur @ msg @ [CHR 0x0A]"
  shows "\<exists>r'. osa_log msg r = Some r' \<and>
    (if length cur' < OSA_RING_SIZE then ring_holds prev cur' r' else ring_holds cur' [] r')"
proof -
  let ?p = "length cur" let ?buf = "ring_put ?p (msg @ [CHR 0x0A]) (ring_buf r)"
  have p: "ring_pos r = int ?p" "?p < OSA_RING_SIZE" using r by (simp_all add: ring_holds_def)
  have len: "?p + length msg + 1 < RING_BYTES" using p(2) m(1) by (simp add: const_defs)
  have nonul: "NUL \<notin> set cur'" using r m(2) by (auto simp: ring_holds_def cur'_def)
  have log: "osa_log msg r = Some (if length cur' < OSA_RING_SIZE then \<lparr>ring_buf = ?buf, ring_pos = int (length cur')\<rparr>
      else \<lparr>ring_buf = ?buf(length cur' := NUL), ring_pos = 0\<rparr>)"
    using p len ring_put_line[OF m(1), of ?p "ring_buf r"] by (simp add: osa_log_def Let_def cur'_def OSA_MAX_LOG_MSG_def)
  have buf: "?buf i = (if i < length cur' then cur' ! i else ring_buf r i)" for i
    using r by (auto simp: ring_put_def ring_holds_def cur'_def nth_append)
  show ?thesis
  proof (cases "length cur' < OSA_RING_SIZE")
    case True
    have "ring_holds prev cur' \<lparr>ring_buf = ?buf, ring_pos = int (length cur')\<rparr>"
      using r True nonul by (auto simp: ring_holds_def buf) (auto simp: cur'_def)
    then show ?thesis using log True by simp
  next
    case False
    have "ring_holds cur' [] \<lparr>ring_buf = ?buf(length cur' := NUL), ring_pos = 0\<rparr>"
      using False nonul len by (auto simp: ring_holds_def buf) (auto simp: cur'_def const_defs)
    then show ?thesis using log False by simp
  qed
qed

definition log_text :: "string list \<Rightarrow> string" where
  "log_text ms = concat (map (\<lambda>m. m @ [CHR 0x0A]) ms)"

definition loggable :: "string \<Rightarrow> bool" where
  "loggable m \<longleftrightarrow> length m < OSA_MAX_LOG_MSG \<and> NUL \<notin> set m"

lemma ring_log_step:
  assumes "ring_log h r" "loggable m"
  shows "\<exists>r'. osa_log m r = Some r' \<and> ring_log (h @ m @ [CHR 0x0A]) r'"
proof -
  obtain pre prev cur where h: "h = pre @ prev @ cur" "prev = [] \<longrightarrow> pre = []" "ring_holds prev cur r"
    using assms(1) unfolding ring_log_def by blast
  have m: "length m < 256" "NUL \<notin> set m" using assms(2) by (simp_all add: loggable_def OSA_MAX_LOG_MSG_def)
  let ?cur = "cur @ m @ [CHR 0x0A]"
  obtain r' where r': "osa_log m r = Some r'"
    "if length ?cur < OSA_RING_SIZE then ring_holds prev ?cur r' else ring_holds ?cur [] r'"
    using osa_log_step[OF h(3) m] by blast
  have "ring_log (h @ m @ [CHR 0x0A]) r'"
  proof (cases "length ?cur < OSA_RING_SIZE")
    case True
    then have "ring_holds prev ?cur r'" using r'(2) by simp
    then show ?thesis unfolding ring_log_def using h(1,2) by (intro exI[of _ pre] exI[of _ prev] exI[of _ ?cur]) simp
  next
    case False
    then have "ring_holds ?cur [] r'" using r'(2) by simp
    then show ?thesis unfolding ring_log_def using h(1) by (intro exI[of _ "pre @ prev"] exI[of _ ?cur] exI[of _ "[]"]) simp
  qed
  then show ?thesis using r'(1) by blast
qed

lemma ring_log_all:
  "ring_log h r \<Longrightarrow> list_all loggable ms \<Longrightarrow> \<exists>r'. run_all osa_log ms r = Some r' \<and> ring_log (h @ log_text ms) r'"
proof (induction ms arbitrary: h r)
  case (Cons m ms)
  then obtain r1 where r1: "osa_log m r = Some r1" "ring_log (h @ m @ [CHR 0x0A]) r1"
    using ring_log_step[OF Cons.prems(1), of m] by auto
  show ?case using Cons.IH[OF r1(2)] Cons.prems(2) r1(1) by (simp add: log_text_def)
qed (simp add: log_text_def)

lemma cstr_upto:
  "\<lbrakk>NUL \<notin> set s; \<forall>j < length s. buf (p + j) = s ! j; buf (p + length s) = NUL; length s < n\<rbrakk> \<Longrightarrow> cstr buf p n = Some s"
proof (induction s arbitrary: p n)
  case Nil
  then show ?case by (cases n) simp_all
next
  case (Cons c s)
  obtain k where k: "n = Suc k" using Cons.prems(4) by (cases n) auto
  have "\<forall>j < length s. buf (p + 1 + j) = s ! j" using Cons.prems(2) by (metis One_nat_def Suc_less_eq add.assoc length_Cons nth_Cons_Suc plus_1_eq_Suc)
  then have "cstr buf (p + 1) k = Some s" using Cons.IH[of "p + 1" k] Cons.prems k by simp
  moreover have "buf p = c" using Cons.prems(2)[rule_format, of 0] by simp
  ultimately show ?case using Cons.prems(1) k by auto
qed

text \<open>Where a log is dumped, what is printed is the end of what was logged.\<close>

definition log_tail :: "string \<Rightarrow> string \<Rightarrow> bool" where
  "log_tail out h \<longleftrightarrow> (\<exists>pre. h = pre @ out) \<and> (out = h \<or> OSA_RING_SIZE \<le> length out)"

lemma dump_tail:
  assumes "ring_log h r"
  shows "\<exists>r' older newer. osa_dump_log True r =
    Some (r', [Str ''DUMPING LAST '', Dec 1024000, Str '' LOG BYTES:'', Endl, Str older, Str newer]) \<and> log_tail (older @ newer) h"
proof -
  obtain pre prev cur where h: "h = pre @ prev @ cur" "prev = [] \<longrightarrow> pre = []" "ring_holds prev cur r"
    using assms unfolding ring_log_def by blast
  let ?n = "length cur"
  let ?older = "drop ?n prev"
  have r: "ring_pos r = int ?n" "NUL \<notin> set cur" "\<forall>i < ?n. ring_buf r i = cur ! i" "?n < OSA_RING_SIZE" "NUL \<notin> set prev"
    using h(3) by (simp_all add: ring_holds_def)
  have "NUL \<notin> set ?older" using r(5) by (meson in_set_dropD)
  moreover have "\<forall>j < length ?older. ring_buf r (?n + j) = ?older ! j"
    using h(3) by (auto simp: ring_holds_def split: if_splits)
  moreover have "ring_buf r (?n + length ?older) = NUL" using h(3) r(4) by (auto simp: ring_holds_def split: if_splits)
  moreover have "length ?older < RING_BYTES - ?n" using h(3) r(4) by (auto simp: ring_holds_def RING_BYTES_def split: if_splits)
  ultimately have older: "cstr (ring_buf r) ?n (RING_BYTES - ?n) = Some ?older" by (rule cstr_upto)
  have newer: "cstr ((ring_buf r)(?n := NUL)) 0 RING_BYTES = Some cur"
    using r by (intro cstr_upto) (auto simp: RING_BYTES_def)
  have "log_tail (?older @ cur) h"
  proof (cases "prev = []")
    case False
    then have "OSA_RING_SIZE \<le> length (?older @ cur)" using h(3) by (auto simp: ring_holds_def)
    moreover have "h = (pre @ take ?n prev) @ ?older @ cur" using h(1) by simp
    ultimately show ?thesis unfolding log_tail_def by blast
  qed (use h in \<open>simp add: log_tail_def\<close>)
  then show ?thesis using older newer r(1) by (auto simp: osa_dump_log_def Let_def OSA_RING_SIZE_def)
qed

lemma osa_log_first: "osa_log m ring_initial = osa_log m \<lparr>ring_buf = (\<lambda>_. NUL), ring_pos = 0\<rparr>"
  by (simp add: osa_log_def ring_initial_def)

text \<open>
  C34. After any non-empty sequence of log messages, each shorter than the 256 bytes a message may take, the dump
  of the assertion log prints the end of the logged text: all of it, or at least the last \<open>OSA_RING_SIZE\<close> bytes.
\<close>

theorem dump_prints_log_tail:
  assumes "ms \<noteq> []" "list_all loggable ms"
  shows "\<exists>r r' older newer. run_all osa_log ms ring_initial = Some r \<and>
    osa_dump_log True r = Some (r', [Str ''DUMPING LAST '', Dec 1024000, Str '' LOG BYTES:'', Endl, Str older, Str newer]) \<and>
    log_tail (older @ newer) (log_text ms)"
proof -
  let ?r = "\<lparr>ring_buf = (\<lambda>_. NUL), ring_pos = 0\<rparr>"
  have "ring_log [] ?r" by (simp add: ring_log_def ring_holds_def OSA_RING_SIZE_def)
  then obtain r where r: "run_all osa_log ms ?r = Some r" "ring_log (log_text ms) r"
    using ring_log_all[of "[]" ?r ms] assms(2) by auto
  have "run_all osa_log ms ring_initial = Some r" using r(1) assms(1) by (cases ms) (simp_all add: osa_log_first)
  then show ?thesis using dump_tail[OF r(2)] by blast
qed

theorem dump_prints_log_tail_witness:
  "\<exists>r r' older newer. run_all osa_log [''tx begin'', ''tx abort''] ring_initial = Some r \<and>
    osa_dump_log True r = Some (r', [Str ''DUMPING LAST '', Dec 1024000, Str '' LOG BYTES:'', Endl, Str older, Str newer]) \<and>
    log_tail (older @ newer) (log_text [''tx begin'', ''tx abort''])"
  by (rule dump_prints_log_tail) (simp_all add: loggable_def OSA_MAX_LOG_MSG_def)

text \<open>
  With the position in the ring, logging a message stays inside the buffer exactly when position and formatted
  length together do not pass the end of the spare area, and then leaves the position in the ring.  Messages of less
  than 256 bytes always do; a longer one, whose truncated bytes are still counted, may not.
\<close>

theorem osa_log_bounds:
  assumes "0 \<le> ring_pos r" "ring_pos r < int OSA_RING_SIZE"
  shows "case osa_log msg r of
      None \<Rightarrow> OSA_RING_SIZE + OSA_MAX_LOG_MSG \<le> nat (ring_pos r) + length msg
    | Some r' \<Rightarrow> nat (ring_pos r) + length msg < OSA_RING_SIZE + OSA_MAX_LOG_MSG \<and>
        0 \<le> ring_pos r' \<and> ring_pos r' < int OSA_RING_SIZE"
  using assms by (auto simp: osa_log_def Let_def RING_BYTES_def OSA_RING_SIZE_def OSA_MAX_LOG_MSG_def)

theorem osa_log_bounds_witness:
  "osa_log (replicate 300 CHR ''x'') \<lparr>ring_buf = (\<lambda>_. NUL), ring_pos = 1023999\<rparr> = None"
  using osa_log_bounds[of "\<lparr>ring_buf = (\<lambda>_. NUL), ring_pos = 1023999\<rparr>" "replicate 300 CHR ''x''"]
  by (simp add: OSA_RING_SIZE_def OSA_MAX_LOG_MSG_def split: option.splits)

end
