(* ===== verification/Pool.thy ===== *)
theory Pool
  imports Prelude "HOL-Library.Monad_Syntax"
begin

text \<open>
  The object pool (\<^verbatim>\<open>include/pool.h\<close>).  An object is its address; \<open>pool_new\<close> counts the objects the
  C++ allocator has handed out, so \<open>new T()\<close> is always an address not used before.  \<open>None\<close> is reading the front
  of an empty list.
\<close>

definition def_pool_size :: int where [const_defs]: "def_pool_size = 32"

record pool =
  m_free :: "nat list"
  m_allocated :: "nat list"
  m_increment :: int
  m_allocations :: u32
  m_deallocations :: u32
  pool_new :: nat

definition grow_pool :: "int \<Rightarrow> pool \<Rightarrow> pool" where
  "grow_pool n p = p\<lparr>m_free := m_free p @ [pool_new p..<pool_new p + nat n], pool_new := pool_new p + nat n\<rparr>"

definition new_pool :: "int \<Rightarrow> pool" where
  "new_pool nsize = grow_pool nsize
     \<lparr>m_free = [], m_allocated = [], m_increment = nsize, m_allocations = 0, m_deallocations = 0, pool_new = 0\<rparr>"

definition new_pool_default :: pool where
  "new_pool_default = grow_pool def_pool_size
     \<lparr>m_free = [], m_allocated = [], m_increment = def_pool_size, m_allocations = 0, m_deallocations = 0, pool_new = 0\<rparr>"

definition allocate :: "pool \<Rightarrow> (pool \<times> nat) option" where
  "allocate p =
     (let p1 = p\<lparr>m_allocations := m_allocations p + 1\<rparr>;
          p2 = (if m_free p1 = [] then grow_pool (m_increment p1) p1 else p1)
      in case m_free p2 of
           [] \<Rightarrow> None
         | x # fr \<Rightarrow> Some (p2\<lparr>m_free := fr, m_allocated := x # m_allocated p2\<rparr>, x))"

definition pfree :: "nat \<Rightarrow> pool \<Rightarrow> pool" where
  "pfree x p = p\<lparr>m_deallocations := m_deallocations p + 1, m_allocated := removeAll x (m_allocated p), m_free := x # m_free p\<rparr>"

definition free_count :: "pool \<Rightarrow> int" where
  "free_count p = int (length (m_free p))"

definition allocated_count :: "pool \<Rightarrow> int" where
  "allocated_count p = int (length (m_allocated p))"

definition pool_size :: "pool \<Rightarrow> int" where
  "pool_size p = free_count p + allocated_count p"

text \<open>The objects the destructor deletes, in order.\<close>

definition delete_pool :: "pool \<Rightarrow> nat list" where
  "delete_pool p = m_free p @ m_allocated p"

section \<open>Runs of a client\<close>

text \<open>A client that frees only what it holds.\<close>

inductive pool_step :: "pool \<Rightarrow> pool \<Rightarrow> bool" where
  step_allocate: "allocate p = Some (p', x) \<Longrightarrow> pool_step p p'"
| step_pfree: "x \<in> set (m_allocated p) \<Longrightarrow> pool_step p (pfree x p)"

inductive_cases pool_step_cases: "pool_step p p'"

definition pool_ok :: "pool \<Rightarrow> bool" where
  "pool_ok p \<longleftrightarrow> 0 < m_increment p \<and> distinct (m_free p @ m_allocated p) \<and>
     set (m_free p) \<union> set (m_allocated p) = {..<pool_new p} \<and> int (pool_new p) mod m_increment p = 0 \<and>
     m_allocations p - m_deallocations p = of_nat (length (m_allocated p))"

definition pool_initial :: "pool \<Rightarrow> bool" where
  "pool_initial p \<longleftrightarrow> (\<exists>n > 0. p = new_pool n)"

lemma grow_pool_ok:
  assumes ok: "pool_ok p" shows "pool_ok (grow_pool (m_increment p) p)"
proof -
  let ?n = "pool_new p" and ?k = "nat (m_increment p)"
  have all: "set (m_free p) \<union> set (m_allocated p) = {..<?n}" and inc: "0 < m_increment p"
    using ok by (simp_all add: pool_ok_def)
  have "{..<?n} \<union> {?n..<?n + ?k} = {..<?n + ?k}" by auto
  then have "set (m_free p) \<union> {?n..<?n + ?k} \<union> set (m_allocated p) = {..<?n + ?k}" using all by blast
  moreover have "x < ?n" if "x \<in> set (m_free p) \<union> set (m_allocated p)" for x using that all by simp
  then have "distinct (m_free p @ [?n..<?n + ?k] @ m_allocated p)" using ok by (fastforce simp: pool_ok_def)
  moreover have "int (?n + ?k) mod m_increment p = 0" using ok inc by (simp add: pool_ok_def)
  ultimately show ?thesis using ok by (simp add: pool_ok_def grow_pool_def)
qed

lemma new_pool_ok: "0 < n \<Longrightarrow> pool_ok (new_pool n)"
  by (auto simp: new_pool_def pool_ok_def grow_pool_def)

lemma removeAll_length: "distinct xs \<Longrightarrow> x \<in> set xs \<Longrightarrow> Suc (length (removeAll x xs)) = length xs"
  by (induction xs) auto

lemma allocate_effect:
  assumes ok: "pool_ok p"
  shows "\<exists>p' x. allocate p = Some (p', x) \<and> x \<notin> set (m_allocated p) \<and> m_allocated p' = x # m_allocated p \<and>
    m_increment p' = m_increment p \<and> pool_ok p' \<and>
    pool_size p' = (if m_free p = [] then pool_size p + m_increment p else pool_size p)"
proof -
  define q where "q = (if m_free p = [] then grow_pool (m_increment p) p else p)"
  have q: "pool_ok q" "m_allocated q = m_allocated p" "m_increment q = m_increment p" "m_allocations q = m_allocations p"
    "m_deallocations q = m_deallocations p"
    "pool_size q = (if m_free p = [] then pool_size p + m_increment p else pool_size p)"
    using ok grow_pool_ok[OF ok] by (auto simp: q_def grow_pool_def pool_size_def free_count_def allocated_count_def pool_ok_def)
  have "m_free q \<noteq> []" using ok by (auto simp: q_def grow_pool_def pool_ok_def)
  then obtain x fr where fr: "m_free q = x # fr" by (cases "m_free q") auto
  let ?p = "q\<lparr>m_allocations := m_allocations p + 1, m_free := fr, m_allocated := x # m_allocated q\<rparr>"
  have "allocate p = Some (?p, x)" using fr q(2) by (auto simp: allocate_def q_def grow_pool_def Let_def)
  moreover have "m_allocations p + 1 - m_deallocations p = of_nat (length (x # m_allocated p))"
    using ok by (simp add: pool_ok_def algebra_simps)
  then have "pool_ok ?p" using q(1-5) fr unfolding pool_ok_def by (simp add: Int_commute)
  moreover have "x \<notin> set (m_allocated p)" using q(1,2) fr by (auto simp: pool_ok_def)
  moreover have "pool_size ?p = pool_size q" using fr by (simp add: pool_size_def free_count_def allocated_count_def)
  ultimately show ?thesis using q(2,3,6) by (intro exI[of _ ?p] exI[of _ x]) simp
qed

lemma pfree_ok:
  assumes ok: "pool_ok p" and x: "x \<in> set (m_allocated p)"
  shows "pool_ok (pfree x p)" "pool_size (pfree x p) = pool_size p" "m_increment (pfree x p) = m_increment p"
proof -
  have len: "length (m_allocated p) = Suc (length (removeAll x (m_allocated p)))"
    using ok x by (simp add: pool_ok_def removeAll_length)
  have "m_allocations p - (m_deallocations p + 1) = of_nat (length (removeAll x (m_allocated p)))"
    using ok len by (simp add: pool_ok_def algebra_simps)
  then show "pool_ok (pfree x p)" using ok x by (auto simp: pool_ok_def pfree_def distinct_removeAll)
  show "pool_size (pfree x p) = pool_size p" using len by (simp add: pool_size_def free_count_def allocated_count_def pfree_def)
  show "m_increment (pfree x p) = m_increment p" by (simp add: pfree_def)
qed

interpretation pl: transition_system pool_initial pool_step pool_ok
proof
  show "pool_ok p" if "pool_initial p" for p using that new_pool_ok by (auto simp: pool_initial_def)
  show "pool_ok q" if "pool_ok p" "pool_step p q" for p q
    using that(2)
  proof (cases rule: pool_step.cases)
    case (step_allocate x)
    then show ?thesis using allocate_effect[OF that(1)] by auto
  qed (use pfree_ok that(1) in auto)
qed

text \<open>
  C36. However a client allocates and frees what it holds, a pool created with a positive size always hands out an
  object that nobody holds, grows by its increment exactly when no object is free, and its two counters differ by the
  number of objects held; the destructor deletes every object created exactly once.
\<close>

theorem pool_hands_out_fresh:
  assumes "0 < n" "pool_step\<^sup>*\<^sup>* (new_pool n) p"
  shows "\<exists>p' x. allocate p = Some (p', x) \<and> x \<notin> set (m_allocated p) \<and> m_allocated p' = x # m_allocated p \<and>
    pool_size p' = (if m_free p = [] then pool_size p + m_increment p else pool_size p) \<and>
    m_allocations p - m_deallocations p = of_nat (length (m_allocated p)) \<and>
    distinct (delete_pool p) \<and> set (delete_pool p) = {..<pool_new p}"
proof -
  have "pool_ok p" using pl.reachable_good[OF _ assms(2)] assms(1) by (auto simp: pool_initial_def)
  then show ?thesis using allocate_effect[of p] by (auto simp: pool_ok_def delete_pool_def)
qed

definition pool_demo :: pool where
  "pool_demo = \<lparr>m_free = [], m_allocated = [0], m_increment = 1, m_allocations = 1, m_deallocations = 0, pool_new = 1\<rparr>"

theorem pool_hands_out_fresh_witness:
  "\<exists>p' x. allocate pool_demo = Some (p', x) \<and> x \<noteq> 0 \<and> m_allocated p' = [x, 0] \<and> pool_size p' = 2"
proof -
  have "pool_step (new_pool 1) pool_demo"
    by (rule step_allocate[where x = 0]) (simp add: allocate_def new_pool_def grow_pool_def pool_demo_def)
  then have "pool_step\<^sup>*\<^sup>* (new_pool 1) pool_demo" by simp
  from pool_hands_out_fresh[OF _ this] show ?thesis
    by (auto simp: pool_demo_def pool_size_def free_count_def allocated_count_def)
qed

end
