(* ===== verification/MemAccess.thy ===== *)
theory MemAccess
  imports Simulator "HOL-Library.Monad_Syntax"
begin

text \<open>
  Access to the memory of the simulated machine (\<^verbatim>\<open>common/memaccess.cc\<close>).  The machine is a state
  passed through every call: the current processor, the cycle counts, the registers, the translation of logical addresses (\<open>Inl\<close> where the simulator
  raises an exception), physical memory (\<open>None\<close> where there is none), the exception that is pending (the
  simulator keeps at most one), how exceptions are numbered and described, and what was printed to \<^verbatim>\<open>cout\<close>.  The results are those of the simulator's
  documented interface: translating or accessing what is not there leaves an exception pending.
\<close>

datatype sim_exception = SimExc_Memory | SimExc_General

record machine =
  mc_cpu :: nat
  mc_cycles :: "nat \<Rightarrow> cycles"
  mc_mask :: u64
  mc_regs :: "reg \<Rightarrow> u64"
  mc_xlate :: "segment \<Rightarrow> logical_address \<Rightarrow> sim_exception + u64"
  mc_mem :: "u64 \<Rightarrow> u8 option"
  mc_error :: "sim_exception option"
  mc_errno :: "sim_exception \<Rightarrow> int"
  mc_last_error :: string
  mc_out :: ostream

definition raise_error :: "sim_exception \<Rightarrow> machine \<Rightarrow> machine" where
  "raise_error x m = m\<lparr>mc_error := Some x\<rparr>"

definition osa_read_register :: "reg \<Rightarrow> machine \<Rightarrow> u64" where
  "osa_read_register r m = mc_mask m AND mc_regs m r"

definition osa_write_register :: "reg \<Rightarrow> u64 \<Rightarrow> machine \<Rightarrow> machine" where
  "osa_write_register r v m = m\<lparr>mc_regs := (mc_regs m)(r := mc_mask m AND v)\<rparr>"

definition phys_bytes :: "machine \<Rightarrow> u64 \<Rightarrow> nat \<Rightarrow> u8 option list" where
  "phys_bytes m pa n = map (\<lambda>i. mc_mem m (pa + of_nat i)) [0..<n]"

definition osa_read_phys_memory :: "u64 \<Rightarrow> nat \<Rightarrow> machine \<Rightarrow> u64 \<times> machine" where
  "osa_read_phys_memory pa n m =
     (let bs = phys_bytes m pa n
      in if None \<in> set bs then (0, raise_error SimExc_Memory m)
         else (of_nat (of_le_bytes (map the bs)), m))"

definition osa_write_phys_memory :: "u64 \<Rightarrow> u64 \<Rightarrow> nat \<Rightarrow> machine \<Rightarrow> machine" where
  "osa_write_phys_memory pa v n m =
     (if None \<in> set (phys_bytes m pa n) then raise_error SimExc_Memory m
      else m\<lparr>mc_mem := (\<lambda>a. if unat (a - pa) < n then Some (ucast (drop_bit (8 * unat (a - pa)) v)) else mc_mem m a)\<rparr>)"

definition sim_logical_to_physical :: "segment \<Rightarrow> logical_address \<Rightarrow> machine \<Rightarrow> u64 \<times> machine" where
  "sim_logical_to_physical seg va m = (case mc_xlate m seg va of Inr pa \<Rightarrow> (pa, m) | Inl x \<Rightarrow> (0, raise_error x m))"

section \<open>Accesses\<close>

definition ExceptionCheck :: "logical_address \<Rightarrow> machine \<Rightarrow> bool \<times> machine" where
  "ExceptionCheck addr m =
     (case mc_error m of
        None \<Rightarrow> (True, m)
      | Some x \<Rightarrow>
          (False, m\<lparr>mc_out := mc_out m @ [Str ''HIT AN EXCEPTION IN HSIM_logical to physical: '', Str ''xcpt#: '', Dec (mc_errno m x),
             Str '' '', Str (mc_last_error m), Str '' addr: 0x'', Hex addr, Endl], mc_error := None\<rparr>))"

definition HandlePendingExceptions :: "machine \<Rightarrow> machine" where
  "HandlePendingExceptions m =
     (case mc_error m of
        None \<Rightarrow> m
      | Some x \<Rightarrow>
          m\<lparr>mc_out := mc_out m @ [Str ''XXX: OSA_logical_to_physical called with an exception already pending: '', Dec (mc_errno m x),
             Str '': clearing...'', Endl], mc_error := None\<rparr>)"

definition OSA_logical_to_physical :: "segment \<Rightarrow> logical_address \<Rightarrow> machine \<Rightarrow> u64 \<times> machine" where
  "OSA_logical_to_physical seg vaddr m =
     (let m1 = HandlePendingExceptions m;
          (pa, m2) = sim_logical_to_physical seg vaddr m1;
          (ok, m3) = ExceptionCheck vaddr m2
      in if \<not> ok then (0, m3) else (pa, m3))"

text \<open>Reading \<open>n\<close> bytes at a physical address, checked; the common end of the readers.\<close>

definition checked_read :: "u64 \<Rightarrow> nat \<Rightarrow> logical_address \<Rightarrow> machine \<Rightarrow> u64 \<times> machine" where
  "checked_read pa n addr m =
     (if pa = 0 then (0, m)
      else
        (let (v, m1) = osa_read_phys_memory pa n m;
             (ok, m2) = ExceptionCheck addr m1
         in if \<not> ok then (0, m2) else (v, m2)))"

definition get_frame_word :: "u64 \<Rightarrow> machine \<Rightarrow> u32 \<times> machine" where
  "get_frame_word offset m =
     (let bp_l = (mc_mask m AND mc_regs m EBP) + offset;
          m1 = HandlePendingExceptions m;
          (bp, m2) = OSA_logical_to_physical STACK_SEGMENT bp_l m1;
          (v, m3) = checked_read bp 4 bp_l m2
      in (ucast v, m3))"

definition osa_read_sim_byte :: "segment \<Rightarrow> logical_address \<Rightarrow> machine \<Rightarrow> u32 \<times> machine" where
  "osa_read_sim_byte seg laddr m =
     (let m1 = HandlePendingExceptions m;
          la = laddr AND mc_mask m1;
          (pa, m2) = OSA_logical_to_physical seg la m1;
          (v, m3) = checked_read pa 1 la m2
      in (ucast v, m3))"

definition osa_read_sim_4bytes_phys :: "u64 \<Rightarrow> machine \<Rightarrow> u32 \<times> machine" where
  "osa_read_sim_4bytes_phys paddr m =
     (let m1 = HandlePendingExceptions m;
          pa = paddr AND mc_mask m1;
          (v, m2) = checked_read pa 4 pa m1
      in (ucast v, m2))"

definition osa_read_sim_4bytes :: "segment \<Rightarrow> logical_address \<Rightarrow> machine \<Rightarrow> u32 \<times> machine" where
  "osa_read_sim_4bytes seg laddr m =
     (let la = laddr AND mc_mask m;
          (pa, m1) = OSA_logical_to_physical seg la m;
          (v, m2) = checked_read pa 4 la m1
      in (ucast (mc_mask m AND v), m2))"

definition osa_read_sim_8bytes_phys :: "u64 \<Rightarrow> machine \<Rightarrow> u64 \<times> machine" where
  "osa_read_sim_8bytes_phys paddr m =
     (let m1 = HandlePendingExceptions m;
          pa = paddr AND mc_mask m1
      in checked_read pa 8 pa m1)"

definition osa_read_sim_8bytes :: "segment \<Rightarrow> logical_address \<Rightarrow> machine \<Rightarrow> u64 \<times> machine" where
  "osa_read_sim_8bytes seg laddr m =
     (let m1 = HandlePendingExceptions m;
          la = laddr AND mc_mask m1;
          (pa, m2) = OSA_logical_to_physical seg la m1
      in checked_read pa 8 la m2)"

definition osa_write_sim_byte :: "segment \<Rightarrow> logical_address \<Rightarrow> u32 \<Rightarrow> machine \<Rightarrow> machine" where
  "osa_write_sim_byte seg laddr byte m =
     (let m1 = HandlePendingExceptions m;
          la = laddr AND mc_mask m1;
          (pa, m2) = OSA_logical_to_physical seg la m1
      in if pa = 0 then m2
         else snd (ExceptionCheck la (osa_write_phys_memory pa (ucast (ucast byte :: u8)) 1 m2)))"

definition osa_write_sim_4bytes :: "segment \<Rightarrow> logical_address \<Rightarrow> u32 \<Rightarrow> machine \<Rightarrow> machine" where
  "osa_write_sim_4bytes seg laddr val m =
     (let m1 = HandlePendingExceptions m;
          la = laddr AND mc_mask m1;
          (pa, m2) = OSA_logical_to_physical seg la m1
      in if pa = 0 then m2
         else snd (ExceptionCheck la (osa_write_phys_memory pa (ucast val) 4 m2)))"

section \<open>Strings\<close>

text \<open>A buffer is a list of characters; \<open>None\<close> is an access outside it.\<close>

definition byte_char :: "u32 \<Rightarrow> char" where
  "byte_char b = char_of (unat b)"

definition char_byte :: "char \<Rightarrow> u32" where
  "char_byte c = of_nat (of_char c)"

fun read_loop :: "nat \<Rightarrow> nat \<Rightarrow> string \<Rightarrow> logical_address \<Rightarrow> bool \<Rightarrow> machine \<Rightarrow> nat \<times> string \<times> machine" where
  "read_loop 0 i str addr nt m = (i, str, m)"
| "read_loop (Suc k) i str addr nt m =
     (let (b, m1) = osa_read_sim_byte DATA_SEGMENT addr m;
          str1 = str[i := byte_char b];
          (ok, m2) = ExceptionCheck (addr + 1) m1
      in if \<not> ok then (0, str1, m2)
         else if nt \<and> byte_char b = NUL then (i, str1, m2)
         else read_loop k (i + 1) str1 (addr + 1) nt m2)"

definition read_string :: "logical_address \<Rightarrow> string \<Rightarrow> nat \<Rightarrow> bool \<Rightarrow> machine \<Rightarrow> (nat \<times> string \<times> machine) option" where
  "read_string start_addr str str_limit null_terminate m =
     (if str_limit = 0 \<or> length str < str_limit then None
      else
        (let m1 = HandlePendingExceptions m
         in Some (read_loop (str_limit - 1) 0 (str[str_limit - 1 := NUL]) (start_addr AND mc_mask m1) null_terminate m1)))"

fun write_loop :: "nat \<Rightarrow> nat \<Rightarrow> string \<Rightarrow> logical_address \<Rightarrow> bool \<Rightarrow> machine \<Rightarrow> (nat \<times> machine) option" where
  "write_loop 0 i str addr nt m = Some (i, m)"
| "write_loop (Suc k) i str addr nt m =
     (if i \<ge> length str then None
      else
        (let m1 = osa_write_sim_byte DATA_SEGMENT addr (char_byte (str ! i)) m;
             (ok, m2) = ExceptionCheck (addr + 1) m1
         in if \<not> ok then Some (0, m2)
            else if nt \<and> str ! i = NUL then Some (i, m2)
            else write_loop k (i + 1) str (addr + 1) nt m2))"

definition write_string :: "logical_address \<Rightarrow> string \<Rightarrow> nat \<Rightarrow> bool \<Rightarrow> machine \<Rightarrow> (nat \<times> machine) option" where
  "write_string start_addr str str_limit null_terminate m =
     (let m1 = HandlePendingExceptions m;
          start = start_addr AND mc_mask m1;
          m2 = osa_write_sim_byte DATA_SEGMENT (start + of_nat str_limit) 0 m1
      in write_loop str_limit 0 str start null_terminate m2)"

section \<open>Messages of the guest\<close>

definition digit :: "nat \<Rightarrow> char" where
  "digit d = ''0123456789abcdef'' ! d"

fun digits :: "nat \<Rightarrow> nat \<Rightarrow> string" where
  "digits base n = (if base < 2 \<or> n < base then [digit n] else digits base (n div base) @ [digit (n mod base)])"

declare digits.simps [simp del]

text \<open>The conversions \<^verbatim>\<open>%lu\<close> and \<^verbatim>\<open>%#08lx\<close> (of a value that is not zero).\<close>

definition fmt_lu :: "u32 \<Rightarrow> string" where
  "fmt_lu v = digits 10 (unat v)"

definition fmt_08lx :: "u32 \<Rightarrow> string" where
  "fmt_08lx v = (let h = digits 16 (unat v) in ''0x'' @ replicate (6 - length h) CHR ''0'' @ h)"

definition c_string :: "string \<Rightarrow> string" where
  "c_string buf = takeWhile (\<lambda>c. c \<noteq> NUL) buf"

definition name_val :: "string \<Rightarrow> u64 \<Rightarrow> string" where
  "name_val name val =
     (let uval = ucast val :: u32
      in take 1023
        (if val = 0xdeadcafe then name
         else if val < 1000 then name @ ''='' @ fmt_lu uval
         else if val < 100000 then name @ ''='' @ fmt_08lx uval @ '' ('' @ fmt_lu uval @ '')''
         else name @ ''='' @ fmt_08lx uval))"

definition osa_get_name_val :: "string \<Rightarrow> machine \<Rightarrow> (string \<times> machine) option" where
  "osa_get_name_val name_buf m = do {
     let str_ptr = osa_read_register EBX m;
     let val = osa_read_register ECX m;
     (i, name, m1) \<leftarrow> read_string str_ptr name_buf 1024 True m;
     Some (name_val (c_string name) val, m1)
   }"

definition PRINTK :: string where "PRINTK = ''PRINTK ''"

fun find_nl :: "string \<Rightarrow> nat option" where
  "find_nl [] = None"
| "find_nl (c # cs) = (if c = CHR 0x0A then Some 0 else map_option Suc (find_nl cs))"

lemma find_nl_Some: "find_nl s = Some f \<Longrightarrow> f < length s \<and> s ! f = CHR 0x0A \<and> CHR 0x0A \<notin> set (take f s)"
  by (induction s arbitrary: f) (auto split: if_splits)

lemma find_nl_None: "find_nl s = None \<longleftrightarrow> CHR 0x0A \<notin> set s"
  by (induction s) auto

lemma split_at_nl:
  assumes "find_nl (drop pos ret) = Some f"
  shows "ret = take (pos + f) ret @ NL @ drop (pos + f + 1) ret" "CHR 0x0A \<notin> set (take f (drop pos ret))"
    "length (take (pos + f) ret) = pos + f"
proof -
  have f: "f < length (drop pos ret)" "drop pos ret ! f = CHR 0x0A" "CHR 0x0A \<notin> set (take f (drop pos ret))"
    using find_nl_Some[OF assms] by auto
  then have "pos + f < length ret" "ret ! (pos + f) = CHR 0x0A" by auto
  then show "ret = take (pos + f) ret @ NL @ drop (pos + f + 1) ret" using id_take_nth_drop[of "pos + f" ret] by simp
  show "CHR 0x0A \<notin> set (take f (drop pos ret))" using f by simp
  show "length (take (pos + f) ret) = pos + f" using f by simp
qed

text \<open>
  The loop that prefixes the lines: \<open>pos\<close> is where the search goes on.  Each turn leaves one newline less behind
  \<open>pos\<close>.
\<close>

function prefix_loop :: "nat \<Rightarrow> string \<Rightarrow> string" where
  "prefix_loop pos ret =
     (case find_nl (drop pos ret) of
        None \<Rightarrow> ret
      | Some f \<Rightarrow>
          (if pos + f < length ret - 1
           then prefix_loop (pos + f + 1) (take (pos + f) ret @ NL @ PRINTK @ drop (pos + f + 1) ret)
           else ret))"
  by pat_completeness auto

termination
proof (relation "measure (\<lambda>(pos, ret). length (filter (\<lambda>c. c = CHR 0x0A) (drop pos ret)))", simp)
  fix pos ret f
  assume f: "find_nl (drop pos ret) = Some f"
  let ?rest = "drop (pos + f + 1) ret"
  have "drop pos ret = take f (drop pos ret) @ NL @ ?rest"
    using id_take_nth_drop[of f "drop pos ret"] find_nl_Some[OF f] by (simp add: add.commute)
  moreover have "filter (\<lambda>c. c = CHR 0x0A) (take f (drop pos ret)) = []"
    using split_at_nl(2)[OF f] by (auto simp: filter_empty_conv)
  ultimately have "filter (\<lambda>c. c = CHR 0x0A) (drop pos ret) = CHR 0x0A # filter (\<lambda>c. c = CHR 0x0A) ?rest"
    by (metis (mono_tags, lifting) append_Cons append_Nil filter.simps(2) filter_append)
  then show "((pos + f + 1, take (pos + f) ret @ NL @ PRINTK @ ?rest), pos, ret)
      \<in> measure (\<lambda>(pos, ret). length (filter (\<lambda>c. c = CHR 0x0A) (drop pos ret)))"
    using split_at_nl(3)[OF f] by (simp add: PRINTK_def)
qed

declare prefix_loop.simps [simp del]

definition prefix_message :: "string \<Rightarrow> string" where
  "prefix_message msg =
     (let ret = prefix_loop 0 (PRINTK @ msg)
      in if last ret \<noteq> CHR 0x0A then ret @ NL else ret)"

definition osa_get_num_char :: "string \<Rightarrow> machine \<Rightarrow> (string \<times> machine) option" where
  "osa_get_num_char msg_buf m = do {
     let str_ptr = osa_read_register EBX m;
     let n = osa_read_register ECX m;
     let num_chars = (if n > 1024 then 1024 else unat n);
     (i, msg, m1) \<leftarrow> read_string str_ptr msg_buf (num_chars + 1) False m;
     if num_chars + 1 \<ge> length msg then None
     else Some (prefix_message (c_string (msg[num_chars + 1 := NUL])), m1)
   }"

section \<open>What the accesses return\<close>

text \<open>A call that may print and leaves no exception pending, and changes nothing else.\<close>

definition quiet :: "machine \<Rightarrow> machine \<Rightarrow> bool" where
  "quiet m m' \<longleftrightarrow> mc_error m' = None \<and> mc_cpu m' = mc_cpu m \<and> mc_cycles m' = mc_cycles m \<and> mc_mask m' = mc_mask m \<and> mc_regs m' = mc_regs m \<and> mc_xlate m' = mc_xlate m \<and>
     mc_mem m' = mc_mem m \<and> mc_last_error m' = mc_last_error m \<and> mc_errno m' = mc_errno m \<and> (\<exists>out. mc_out m' = mc_out m @ out)"

text \<open>The value of \<open>n\<close> bytes; zero where they cannot be read.\<close>

definition xlate0 :: "machine \<Rightarrow> segment \<Rightarrow> logical_address \<Rightarrow> u64" where
  "xlate0 m seg a = (case mc_xlate m seg a of Inr pa \<Rightarrow> pa | Inl _ \<Rightarrow> 0)"

definition phys_value :: "machine \<Rightarrow> u64 \<Rightarrow> nat \<Rightarrow> u64" where
  "phys_value m pa n = (if pa = 0 \<or> None \<in> set (phys_bytes m pa n) then 0 else of_nat (of_le_bytes (map the (phys_bytes m pa n))))"

lemma quiet_fields:
  "quiet m m' \<Longrightarrow> mc_cpu m' = mc_cpu m \<and> mc_cycles m' = mc_cycles m \<and> mc_mask m' = mc_mask m \<and> mc_regs m' = mc_regs m \<and> mc_xlate m' = mc_xlate m \<and> mc_mem m' = mc_mem m \<and> mc_error m' = None"
  by (auto simp: quiet_def)

lemma quiet_values:
  "quiet m m' \<Longrightarrow> xlate0 m' = xlate0 m \<and> phys_value m' = phys_value m"
  by (auto simp: quiet_def xlate0_def phys_value_def phys_bytes_def fun_eq_iff)

lemma quiet_trans [trans]: "quiet m m' \<Longrightarrow> quiet m' m'' \<Longrightarrow> quiet m m''"
  by (auto simp: quiet_def)

lemma quiet_refl: "mc_error m = None \<Longrightarrow> quiet m m"
  by (simp add: quiet_def)

lemma pending_quiet: "quiet m (HandlePendingExceptions m)"
  by (auto simp: HandlePendingExceptions_def quiet_def split: option.splits)

lemma check_raised: "\<exists>m'. ExceptionCheck a (raise_error x m) = (False, m') \<and> quiet m m'"
  by (simp add: ExceptionCheck_def raise_error_def quiet_def)

lemma check_none: "mc_error m = None \<Longrightarrow> ExceptionCheck a m = (True, m)"
  by (simp add: ExceptionCheck_def)

lemma translate_value: "\<exists>m'. OSA_logical_to_physical seg a m = (xlate0 m seg a, m') \<and> quiet m m'"
proof -
  let ?m = "HandlePendingExceptions m"
  have q: "quiet m ?m" by (rule pending_quiet)
  then have x: "xlate0 ?m = xlate0 m" "mc_error ?m = None" using quiet_values quiet_fields by blast+
  show ?thesis
  proof (cases "mc_xlate ?m seg a")
    case (Inl x)
    obtain m' where "ExceptionCheck a (raise_error x ?m) = (False, m')" "quiet ?m m'" using check_raised by blast
    then show ?thesis using Inl quiet_trans[OF q] x(1)[symmetric]
      by (simp add: OSA_logical_to_physical_def sim_logical_to_physical_def xlate0_def Let_def)
  next
    case (Inr pa)
    then show ?thesis using q x(2) x(1)[symmetric]
      by (simp add: OSA_logical_to_physical_def sim_logical_to_physical_def xlate0_def Let_def check_none)
  qed
qed

lemma checked_read_value:
  assumes "mc_error m = None"
  shows "\<exists>m'. checked_read pa n a m = (phys_value m pa n, m') \<and> quiet m m'"
proof (cases "pa \<noteq> 0 \<and> None \<in> set (phys_bytes m pa n)")
  case True
  then show ?thesis using check_raised[of a SimExc_Memory m]
    by (auto simp: checked_read_def osa_read_phys_memory_def phys_value_def Let_def)
next
  case False
  then show ?thesis using assms quiet_refl[OF assms]
    by (auto simp: checked_read_def osa_read_phys_memory_def phys_value_def check_none Let_def)
qed

text \<open>Translating and reading: the common part of the readers by logical address.\<close>

lemma read_value:
  "\<exists>m1 m2. OSA_logical_to_physical seg a m = (xlate0 m seg a, m1) \<and>
    checked_read (xlate0 m seg a) n b m1 = (phys_value m (xlate0 m seg a) n, m2) \<and> quiet m m2"
proof -
  obtain m1 where m1: "OSA_logical_to_physical seg a m = (xlate0 m seg a, m1)" "quiet m m1" using translate_value by blast
  obtain m2 where "checked_read (xlate0 m seg a) n b m1 = (phys_value m1 (xlate0 m seg a) n, m2)" "quiet m1 m2"
    using checked_read_value quiet_fields[OF m1(2)] by blast
  then show ?thesis using m1 quiet_trans[OF m1(2)] quiet_values[OF m1(2)] by auto
qed

lemma read_value_pending:
  "\<exists>m1 m2. OSA_logical_to_physical seg a (HandlePendingExceptions m) = (xlate0 m seg a, m1) \<and>
    checked_read (xlate0 m seg a) n b m1 = (phys_value m (xlate0 m seg a) n, m2) \<and> quiet m m2"
proof -
  let ?m = "HandlePendingExceptions m"
  have v: "xlate0 ?m = xlate0 m" "phys_value ?m = phys_value m" using quiet_values[OF pending_quiet] by blast+
  show ?thesis using read_value[of seg a ?m n b] quiet_trans[OF pending_quiet] unfolding v by blast
qed

lemma pending_mask: "mc_mask (HandlePendingExceptions m) = mc_mask m"
  using quiet_fields[OF pending_quiet] by blast

lemma read_byte_value:
  "\<exists>m'. osa_read_sim_byte seg a m = (ucast (phys_value m (xlate0 m seg (a AND mc_mask m)) 1), m') \<and> quiet m m'"
  using read_value_pending[of seg "a AND mc_mask m" m 1 "a AND mc_mask m"]
  by (auto simp: osa_read_sim_byte_def Let_def pending_mask)

lemma read_phys:
  "\<exists>m'. checked_read (a AND mc_mask m) n (a AND mc_mask m) (HandlePendingExceptions m) = (phys_value m (a AND mc_mask m) n, m') \<and> quiet m m'"
proof -
  let ?p = "HandlePendingExceptions m"
  have p: "quiet m ?p" by (rule pending_quiet)
  show ?thesis using checked_read_value[of ?p "a AND mc_mask m" n "a AND mc_mask m"] quiet_fields[OF p] quiet_values[OF p] quiet_trans[OF p] by auto
qed

lemma read_4_phys: "\<exists>m'. osa_read_sim_4bytes_phys a m = (ucast (phys_value m (a AND mc_mask m) 4), m') \<and> quiet m m'"
  using read_phys[of a m 4] by (auto simp: osa_read_sim_4bytes_phys_def Let_def pending_mask)

lemma read_8_phys: "\<exists>m'. osa_read_sim_8bytes_phys a m = (phys_value m (a AND mc_mask m) 8, m') \<and> quiet m m'"
  using read_phys[of a m 8] by (auto simp: osa_read_sim_8bytes_phys_def Let_def pending_mask)

text \<open>
  C37. The readers of guest memory never leave an exception pending and change nothing but the output: they return the
  little-endian value at the translated, masked address, or zero if the address has no translation, translates to
  physical address zero, or has no memory behind it.
\<close>

theorem reads_checked:
  "\<exists>m1 m2 m3 m4 m5.
    osa_read_sim_byte seg a m = (ucast (phys_value m (xlate0 m seg (a AND mc_mask m)) 1), m1) \<and> quiet m m1 \<and>
    osa_read_sim_4bytes seg a m = (ucast (mc_mask m AND phys_value m (xlate0 m seg (a AND mc_mask m)) 4), m2) \<and> quiet m m2 \<and>
    osa_read_sim_8bytes seg a m = (phys_value m (xlate0 m seg (a AND mc_mask m)) 8, m3) \<and> quiet m m3 \<and>
    osa_read_sim_4bytes_phys a m = (ucast (phys_value m (a AND mc_mask m) 4), m4) \<and> quiet m m4 \<and>
    osa_read_sim_8bytes_phys a m = (phys_value m (a AND mc_mask m) 8, m5) \<and> quiet m m5"
proof -
  let ?a = "a AND mc_mask m"
  have "\<exists>m2. osa_read_sim_4bytes seg a m = (ucast (mc_mask m AND phys_value m (xlate0 m seg ?a) 4), m2) \<and> quiet m m2"
    using read_value[of seg ?a m 4 ?a] by (auto simp: osa_read_sim_4bytes_def Let_def)
  moreover have "\<exists>m3. osa_read_sim_8bytes seg a m = (phys_value m (xlate0 m seg ?a) 8, m3) \<and> quiet m m3"
    using read_value_pending[of seg ?a m 8 ?a] by (auto simp: osa_read_sim_8bytes_def Let_def pending_mask)
  ultimately show ?thesis using read_byte_value[of seg a m] read_4_phys[of a m] read_8_phys[of a m] by blast
qed

section \<open>Strings in guest memory\<close>

text \<open>The character \<open>j\<close> bytes after \<open>a\<close>, and the first \<open>n\<close> of them.\<close>

definition mem_char :: "machine \<Rightarrow> logical_address \<Rightarrow> nat \<Rightarrow> char" where
  "mem_char m a j = byte_char (ucast (phys_value m (xlate0 m DATA_SEGMENT ((a + of_nat j) AND mc_mask m)) 1))"

definition mem_chars :: "machine \<Rightarrow> logical_address \<Rightarrow> nat \<Rightarrow> string" where
  "mem_chars m a n = map (mem_char m a) [0..<n]"

text \<open>How many of the characters a reader takes.\<close>

definition str_len :: "bool \<Rightarrow> string \<Rightarrow> nat" where
  "str_len nt cs = (if nt then length (c_string cs) else length cs)"

lemma length_mem_chars [simp]: "length (mem_chars m a n) = n"
  by (simp add: mem_chars_def)

lemma mem_char_quiet: "quiet m m' \<Longrightarrow> mem_char m' = mem_char m"
  by (simp add: mem_char_def quiet_values quiet_fields fun_eq_iff)

lemma mem_chars_quiet: "quiet m m' \<Longrightarrow> mem_chars m' = mem_chars m"
  by (simp add: mem_chars_def mem_char_quiet fun_eq_iff)

lemma mem_chars_Suc: "mem_chars m a (Suc k) = mem_char m a 0 # mem_chars m (a + 1) k"
proof -
  have "mem_char m (a + 1) j = mem_char m a (Suc j)" for j by (simp add: mem_char_def ac_simps)
  moreover have "[0..<Suc k] = 0 # map Suc [0..<k]" by (simp add: map_Suc_upt upt_conv_Cons)
  ultimately show ?thesis by (simp add: mem_chars_def)
qed

lemma str_len_Cons: "str_len nt (c # cs) = (if nt \<and> c = NUL then 0 else Suc (str_len nt cs))"
  by (simp add: str_len_def c_string_def)

lemma str_len_le: "str_len nt cs \<le> length cs"
  by (simp add: str_len_def c_string_def length_takeWhile_le)

lemma read_char: "\<exists>b m'. osa_read_sim_byte DATA_SEGMENT a m = (b, m') \<and> byte_char b = mem_char m a 0 \<and> quiet m m'"
  using read_byte_value[of DATA_SEGMENT a m] by (auto simp: mem_char_def)

lemma read_loop_value:
  assumes "mc_error m = None" "i + k \<le> length str" "cs = mem_chars m a k" "n = str_len nt cs"
  shows "\<exists>m'. read_loop k i str a nt m = (i + n, take i str @ take n cs @ drop (i + n) (if n < k then str[i + n := NUL] else str), m') \<and> quiet m m'"
  using assms
proof (induction k arbitrary: i str a m n cs)
  case 0
  then show ?case using quiet_refl by (simp add: str_len_def mem_chars_def c_string_def)
next
  case (Suc k)
  let ?c = "mem_char m a 0" and ?cs = "mem_chars m (a + 1) k"
  let ?str = "str[i := ?c]"
  obtain b m1 where m1: "osa_read_sim_byte DATA_SEGMENT a m = (b, m1)" "quiet m m1" and c: "byte_char b = ?c"
    using read_char by blast
  have e1: "mc_error m1 = None" using quiet_fields[OF m1(2)] by blast
  have i: "i < length str" "take i ?str = take i str" using Suc.prems(2) by simp_all
  have step: "read_loop (Suc k) i str a nt m = (if nt \<and> ?c = NUL then (i, ?str, m1) else read_loop k (i + 1) ?str (a + 1) nt m1)"
    using m1(1) e1 by (simp add: c check_none Let_def)
  show ?case
  proof (cases "nt \<and> ?c = NUL")
    case True
    then show ?thesis using step m1(2) Suc.prems(2-4) by (simp add: mem_chars_Suc str_len_Cons upd_conv_take_nth_drop drop_update_swap)
  next
    case False
    let ?n = "str_len nt ?cs"
    obtain m' where m': "read_loop k (i + 1) ?str (a + 1) nt m1 = (i + 1 + ?n, take (i + 1) ?str @ take ?n ?cs @
        drop (i + 1 + ?n) (if ?n < k then ?str[i + 1 + ?n := NUL] else ?str), m')" "quiet m1 m'"
      using Suc.IH[OF e1, of "i + 1" ?str ?cs "a + 1" ?n] Suc.prems(2) mem_chars_quiet[OF m1(2)] by auto
    have "take (i + 1) ?str = take i str @ [?c]" using i by (simp add: take_Suc_conv_app_nth)
    moreover have "drop (i + 1 + ?n) (if ?n < k then ?str[i + 1 + ?n := NUL] else ?str) =
        drop (i + 1 + ?n) (if ?n < k then str[i + 1 + ?n := NUL] else str)"
      by (simp add: list_update_swap[of i "Suc (i + ?n)"])
    ultimately show ?thesis using step False m' quiet_trans[OF m1(2) m'(2)] Suc.prems(3,4)
      by (simp add: mem_chars_Suc str_len_Cons del: read_loop.simps cong: if_cong)
  qed
qed

text \<open>What \<open>read_string\<close> leaves in the buffer: the characters, a terminator, and the old contents behind it.\<close>

definition read_result :: "string \<Rightarrow> nat \<Rightarrow> bool \<Rightarrow> string \<Rightarrow> string" where
  "read_result str limit nt cs =
     (let n = str_len nt cs in take n cs @ drop n (str[limit - 1 := NUL, n := NUL]))"

lemma read_string_value:
  fixes a :: logical_address and m :: machine
  assumes "0 < limit" "limit \<le> length str"
  defines "cs \<equiv> mem_chars m (a AND mc_mask m) (limit - 1)"
  shows "\<exists>m'. read_string a str limit nt m = Some (str_len nt cs, read_result str limit nt cs, m') \<and> quiet m m'"
proof -
  let ?m = "HandlePendingExceptions m" and ?str = "str[limit - 1 := NUL]"
  have q: "quiet m ?m" by (rule pending_quiet)
  have e: "mc_error ?m = None" using quiet_fields[OF q] by blast
  have cs: "mem_chars ?m (a AND mc_mask m) (limit - 1) = cs" using mem_chars_quiet[OF q] by (simp add: cs_def)
  have len: "0 + (limit - 1) \<le> length ?str" using assms(2) by simp
  obtain m' where m': "read_loop (limit - 1) 0 ?str (a AND mc_mask m) nt ?m = (str_len nt cs, take (str_len nt cs) cs @
      drop (str_len nt cs) (if str_len nt cs < limit - 1 then ?str[str_len nt cs := NUL] else ?str), m')" "quiet ?m m'"
    using read_loop_value[OF e len cs[symmetric] refl, of nt] by (auto simp del: One_nat_def)
  have "str_len nt cs \<le> limit - 1" using str_len_le[of nt cs] by (simp add: cs_def)
  then have "(if str_len nt cs < limit - 1 then ?str[str_len nt cs := NUL] else ?str) = ?str[str_len nt cs := NUL]"
    using list_update_id[of ?str "limit - 1"] assms by (cases "str_len nt cs = limit - 1") auto
  then show ?thesis using m' quiet_trans[OF q] assms(1,2)
    by (auto simp: read_string_def read_result_def Let_def pending_mask)
qed

lemma c_string_Cons: "c_string (c # cs) = (if c = NUL then [] else c # c_string cs)"
  by (simp add: c_string_def)

lemma c_string_NUL: "c_string (xs @ NUL # ys) = c_string xs"
  by (induction xs) (simp_all add: c_string_Cons c_string_def)

lemma read_result_c_string:
  assumes "0 < limit" "limit \<le> length str" "length cs = limit - 1"
  shows "c_string (read_result str limit nt cs) = c_string cs"
proof -
  let ?n = "str_len nt cs"
  have n: "?n < length str" using assms str_len_le[of nt cs] by simp
  have "drop ?n (str[limit - 1 := NUL, ?n := NUL]) = NUL # drop (Suc ?n) (str[limit - 1 := NUL, ?n := NUL])"
    using n by (simp add: Cons_nth_drop_Suc[symmetric])
  then have r: "read_result str limit nt cs = take ?n cs @ NUL # drop (Suc ?n) (str[limit - 1 := NUL, ?n := NUL])"
    by (simp add: read_result_def Let_def)
  have "c_string (take ?n cs) = c_string cs"
    by (cases nt) (simp_all add: str_len_def c_string_def takeWhile_eq_take[symmetric] takeWhile_idem)
  then show ?thesis using r c_string_NUL by simp
qed

text \<open>
  C40. Reading a string returns how many characters were read, fills the buffer with exactly the characters of guest
  memory up to the limit or the terminator, always terminates it, leaves the bytes behind it alone, and leaves no exception
  pending; the string in the buffer is the string in guest memory cut at the limit.
\<close>

theorem read_string_correct:
  assumes "0 < limit" "limit \<le> length str"
  shows "\<exists>m'. let cs = mem_chars m (a AND mc_mask m) (limit - 1); str' = read_result str limit nt cs in
    read_string a str limit nt m = Some (str_len nt cs, str', m') \<and> quiet m m' \<and> c_string str' = c_string cs \<and>
    length str' = length str \<and> drop limit str' = drop limit str"
proof -
  let ?cs = "mem_chars m (a AND mc_mask m) (limit - 1)"
  have n: "str_len nt ?cs \<le> limit - 1" using str_len_le[of nt ?cs] by simp
  have "length (read_result str limit nt ?cs) = length str" using n assms by (simp add: read_result_def Let_def)
  moreover have "drop limit (read_result str limit nt ?cs) = drop limit str"
    using n assms by (simp add: read_result_def Let_def)
  ultimately show ?thesis using read_string_value[OF assms, of a nt m] read_result_c_string[OF assms, of ?cs nt] by (auto simp: Let_def)
qed

section \<open>Writing a string and reading it back\<close>

abbreviation paddr :: "machine \<Rightarrow> logical_address \<Rightarrow> nat \<Rightarrow> u64" where
  "paddr m a j \<equiv> xlate0 m DATA_SEGMENT ((a + of_nat j) AND mc_mask m)"

text \<open>The \<open>n\<close> bytes from \<open>a\<close> on have memory of their own.\<close>

definition mapped :: "machine \<Rightarrow> logical_address \<Rightarrow> nat \<Rightarrow> bool" where
  "mapped m a n \<longleftrightarrow> (\<forall>j < n. paddr m a j \<noteq> 0 \<and> mc_mem m (paddr m a j) \<noteq> None) \<and> inj_on (paddr m a) {..<n}"

definition char_mem :: "char \<Rightarrow> u8 option" where
  "char_mem c = Some (of_nat (of_char c))"

fun put_str :: "machine \<Rightarrow> logical_address \<Rightarrow> string \<Rightarrow> (u64 \<Rightarrow> u8 option) \<Rightarrow> u64 \<Rightarrow> u8 option" where
  "put_str m a [] mem = mem"
| "put_str m a (c # cs) mem = put_str m (a + 1) cs (mem(paddr m a 0 := char_mem c))"

lemma paddr_Suc: "paddr m (a + 1) j = paddr m a (Suc j)"
  by (simp add: ac_simps)

lemma paddr_mem [simp]: "paddr (m\<lparr>mc_mem := mem\<rparr>) a j = paddr m a j"
  by (simp add: xlate0_def)

lemma mapped_tail: "mapped m a (Suc n) \<Longrightarrow> mapped m (a + 1) n"
  unfolding mapped_def paddr_Suc inj_on_def by (metis Suc_less_eq lessThan_iff nat.inject)

lemma mapped_upd: "mapped m a n \<Longrightarrow> mapped (m\<lparr>mc_mem := (mc_mem m)(pa := char_mem c)\<rparr>) a n"
  by (auto simp: mapped_def char_mem_def xlate0_def inj_on_def)

lemma put_str_mem: "put_str (m\<lparr>mc_mem := x\<rparr>) a s mem = put_str m a s mem"
  by (induction s arbitrary: a mem) (simp_all add: xlate0_def)

lemma put_str_other: "pa \<notin> paddr m a ` {..<length s} \<Longrightarrow> put_str m a s mem pa = mem pa"
proof (induction s arbitrary: a mem)
  case (Cons c cs)
  have "pa \<noteq> paddr m a 0" using Cons.prems by force
  moreover have "pa \<notin> paddr m (a + 1) ` {..<length cs}" using Cons.prems unfolding paddr_Suc by fastforce
  ultimately show ?case using Cons.IH by simp
qed simp

lemma put_str_at:
  assumes "inj_on (paddr m a) {..<length s}" "j < length s"
  shows "put_str m a s mem (paddr m a j) = char_mem (s ! j)"
  using assms
proof (induction s arbitrary: a j mem)
  case (Cons c cs)
  have inj: "inj_on (paddr m (a + 1)) {..<length cs}"
    using Cons.prems(1) unfolding paddr_Suc inj_on_def by (metis Suc_less_eq length_Cons lessThan_iff nat.inject)
  show ?case
  proof (cases j)
    case 0
    have "paddr m a 0 \<notin> paddr m (a + 1) ` {..<length cs}"
      using Cons.prems(1) unfolding paddr_Suc inj_on_def by fastforce
    then show ?thesis using put_str_other[of "paddr m a 0" m "a + 1" cs] 0 by simp
  next
    case (Suc i)
    then show ?thesis using Cons.IH[OF inj, of i] Cons.prems(2) paddr_Suc[of m a i] by simp
  qed
qed simp

lemma write_byte_mapped:
  assumes "mc_error m = None" "mapped m a (Suc n)"
  shows "osa_write_sim_byte DATA_SEGMENT a (char_byte c) m = m\<lparr>mc_mem := (mc_mem m)(paddr m a 0 := char_mem c)\<rparr>"
proof -
  have p: "paddr m a 0 \<noteq> 0" "mc_mem m (paddr m a 0) \<noteq> None" using assms(2) by (auto simp: mapped_def)
  have pend: "HandlePendingExceptions m = m" using assms(1) by (simp add: HandlePendingExceptions_def)
  have x: "OSA_logical_to_physical DATA_SEGMENT (a AND mc_mask m) m = (paddr m a 0, m)"
    using p(1) assms(1) by (auto simp: OSA_logical_to_physical_def pend sim_logical_to_physical_def xlate0_def check_none Let_def split: sum.splits)
  have "unat (b - paddr m a 0) < 1 \<longleftrightarrow> b = paddr m a 0" for b by (simp add: unat_eq_zero)
  then have "osa_write_phys_memory (paddr m a 0) (ucast (ucast (char_byte c) :: u8)) 1 m =
      m\<lparr>mc_mem := (mc_mem m)(paddr m a 0 := Some (ucast (ucast (ucast (char_byte c) :: u8) :: u64)))\<rparr>"
    using p(2) by (auto simp: osa_write_phys_memory_def phys_bytes_def fun_upd_def cong: if_cong)
  moreover have "ucast (ucast (ucast (char_byte c) :: u8) :: u64) = (of_nat (of_char c) :: u8)"
    by (simp add: char_byte_def unsigned_of_nat word_of_nat_eq_iff)
  ultimately show ?thesis using x p(1) assms(1) by (simp add: osa_write_sim_byte_def pend Let_def char_mem_def check_none)
qed

lemma write_loop_mapped:
  assumes "mc_error m = None" "mapped m a (Suc (length s))" "NUL \<notin> set s" "length s < k" "drop i str = s @ NUL # rest"
  shows "write_loop k i str a True m = Some (i + length s, m\<lparr>mc_mem := put_str m a (s @ [NUL]) (mc_mem m)\<rparr>)"
  using assms
proof (induction s arbitrary: k i a m)
  case Nil
  obtain k' where k: "k = Suc k'" using Nil.prems(4) by (cases k) auto
  have i: "i < length str" "str ! i = NUL" using Nil.prems(5) by (auto dest: arg_cong[of _ _ length] simp: nth_via_drop)
  let ?m = "m\<lparr>mc_mem := (mc_mem m)(paddr m a 0 := char_mem NUL)\<rparr>"
  have w: "osa_write_sim_byte DATA_SEGMENT a (char_byte NUL) m = ?m" using write_byte_mapped Nil.prems(1,2) by simp
  have "write_loop k i str a True m = Some (i, ?m)" using i k w Nil.prems(1) by (simp add: check_none)
  then show ?case by (simp only: put_str.simps append_Nil list.size add_0_right)
next
  case (Cons c s)
  obtain k' where k: "k = Suc k'" using Cons.prems(4) by (cases k) auto
  have i: "i < length str" "str ! i = c" "drop (Suc i) str = s @ NUL # rest"
    using Cons.prems(5) by (auto dest: arg_cong[of _ _ length] simp: nth_via_drop drop_Suc tl_drop[symmetric])
  let ?m = "m\<lparr>mc_mem := (mc_mem m)(paddr m a 0 := char_mem c)\<rparr>"
  have w: "osa_write_sim_byte DATA_SEGMENT a (char_byte c) m = ?m" using write_byte_mapped Cons.prems(1,2) by blast
  have "mapped ?m (a + 1) (Suc (length s))" using mapped_upd[OF mapped_tail[of m a "Suc (length s)"]] Cons.prems(2) by simp
  then have "write_loop k' (Suc i) str (a + 1) True ?m = Some (Suc i + length s, ?m\<lparr>mc_mem := put_str ?m (a + 1) (s @ [NUL]) (mc_mem ?m)\<rparr>)"
    using Cons.IH[of ?m "a + 1" k' "Suc i"] Cons.prems(1,3,4) i(3) k by (simp add: fun_upd_def)
  then show ?case using i(1,2) k w Cons.prems(1,3) by (auto simp: check_none put_str_mem)
qed

lemma c_string_map:
  assumes "\<forall>j < length s. f j = s ! j" "NUL \<notin> set s" "length s \<le> n" "length s < n \<longrightarrow> f (length s) = NUL"
  shows "c_string (map f [0..<n]) = s"
proof -
  have "map f [0..<n] = s @ map f [length s..<n]"
    using assms(1,3) by (intro nth_equalityI) (auto simp: nth_append)
  moreover have "c_string (map f [length s..<n]) = []"
    using assms(4) by (cases "length s < n") (simp_all add: upt_conv_Cons c_string_def)
  moreover have "c_string (s @ t) = s @ c_string t" for t using assms(2) by (induction s) (auto simp: c_string_def)
  ultimately show ?thesis by simp
qed

lemma mem_char_put:
  assumes "char_mem c = mc_mem m (paddr m a j)" "paddr m a j \<noteq> 0"
  shows "mem_char m a j = c"
proof -
  have "mc_mem m (paddr m a j) = Some (of_nat (of_char c))" using assms(1) by (simp add: char_mem_def)
  then have "phys_value m (paddr m a j) 1 = of_nat (of_char c mod 256)"
    using assms(2) by (simp add: phys_value_def phys_bytes_def unsigned_of_nat take_bit_eq_mod)
  moreover have "of_char c < (2 ^ 64 :: nat)" "of_char c < (2 ^ 32 :: nat)"
    using nat_of_char_less_256[of c] by (simp_all add: less_trans[of _ 256])
  ultimately show ?thesis
    by (simp add: mem_char_def byte_char_def unsigned_of_nat unsigned_ucast_eq take_bit_eq_mod)
qed

lemma mapped_mono: "mapped m a n \<Longrightarrow> k \<le> n \<Longrightarrow> mapped m a k"
  unfolding mapped_def using inj_on_subset[of "paddr m a" "{..<n}" "{..<k}"] by auto

lemma mapped_at: "mapped m a (Suc k) \<Longrightarrow> mapped m (a + of_nat k) (Suc 0)"
  by (simp add: mapped_def inj_on_def)

lemma write_string_mapped:
  assumes "mc_error m = None" "mapped m a (limit + 1)" "NUL \<notin> set s" "length s < limit" "a = b AND mc_mask m"
  shows "\<exists>m'. write_string b (s @ [NUL]) limit True m = Some (length s, m') \<and> mc_mask m' = mc_mask m \<and>
    (\<forall>j \<le> length s. mem_char m' a j = (s @ [NUL]) ! j)"
proof -
  let ?t = "s @ [NUL]"
  define m1 where "m1 = m\<lparr>mc_mem := (mc_mem m)(paddr m (a + of_nat limit) 0 := char_mem NUL)\<rparr>"
  define m2 where "m2 = m1\<lparr>mc_mem := put_str m1 a ?t (mc_mem m1)\<rparr>"
  have pend: "HandlePendingExceptions m = m" using assms(1) by (simp add: HandlePendingExceptions_def)
  have "char_byte NUL = 0" by (simp add: char_byte_def)
  then have w1: "osa_write_sim_byte DATA_SEGMENT (a + of_nat limit) 0 m = m1"
    using write_byte_mapped[OF assms(1) mapped_at, of a limit NUL] assms(2) by (simp add: m1_def)
  have e1: "mc_error m1 = None" "mc_mask m1 = mc_mask m" using assms(1) by (simp_all add: m1_def)
  have mp: "mapped m1 a (Suc (length s))" using mapped_mono[OF mapped_upd[OF assms(2)]] assms(4) by (simp add: m1_def)
  then have w2: "write_loop limit 0 ?t a True m1 = Some (length s, m2)"
    using write_loop_mapped[OF e1(1) mp assms(3,4), of 0 ?t "[]"] by (simp add: m2_def)
  have "write_string b ?t limit True m = Some (length s, m2)"
    using w1 w2 assms(5) by (simp add: write_string_def pend Let_def)
  moreover have "mem_char m2 a j = ?t ! j" if "j \<le> length s" for j
  proof (rule mem_char_put)
    have "inj_on (paddr m1 a) {..<length ?t}" "j < length ?t" using mp that by (auto simp: mapped_def)
    from put_str_at[OF this, of "mc_mem m1"] show "char_mem (?t ! j) = mc_mem m2 (paddr m2 a j)"
      by (simp only: m2_def paddr_mem) simp
    show "paddr m2 a j \<noteq> 0" using mp that by (simp only: m2_def paddr_mem) (simp add: mapped_def)
  qed
  ultimately show ?thesis using e1(2) by (auto simp: m2_def)
qed

text \<open>
  A string of the host written to mapped guest memory with a limit above its length reads back unchanged, whatever
  the buffer it is read into held.
\<close>

theorem string_round_trip:
  assumes "mc_error m = None" "mapped m (a AND mc_mask m) (limit + 1)" "NUL \<notin> set s" "length s < limit"
    and "length s < n" "n \<le> length buf"
  shows "\<exists>m1 m2 buf'. write_string a (s @ [NUL]) limit True m = Some (length s, m1) \<and>
    read_string a buf n True m1 = Some (length s, buf', m2) \<and> quiet m1 m2 \<and> c_string buf' = s"
proof -
  let ?a = "a AND mc_mask m"
  obtain m1 where m1: "write_string a (s @ [NUL]) limit True m = Some (length s, m1)" "mc_mask m1 = mc_mask m"
    "\<forall>j \<le> length s. mem_char m1 ?a j = (s @ [NUL]) ! j"
    using write_string_mapped[OF assms(1-4) refl] by blast
  let ?cs = "mem_chars m1 ?a (n - 1)"
  have cs: "c_string ?cs = s"
    unfolding mem_chars_def using m1(3) assms(3,5) by (intro c_string_map) (auto simp: nth_append)
  obtain m2 where "read_string a buf n True m1 = Some (str_len True ?cs, read_result buf n True ?cs, m2)" "quiet m1 m2"
    using read_string_value[of n buf a True m1] assms(5,6) m1(2) by auto
  moreover have "str_len True ?cs = length s" using cs by (simp add: str_len_def)
  moreover have "c_string (read_result buf n True ?cs) = s" using read_result_c_string[of n buf ?cs True] assms(5,6) cs by simp
  ultimately show ?thesis using m1(1) by (intro exI[of _ m1] exI[of _ m2]) simp
qed

text \<open>A machine with 64 bytes of memory for the examples.\<close>

definition mc_demo :: machine where
  "mc_demo = \<lparr>mc_cpu = 0, mc_cycles = (\<lambda>_. 100), mc_mask = 0xFFFFFFFF, mc_regs = (\<lambda>r. if r = EBX then 16 else if r = ECX then 3 else 0),
     mc_xlate = (\<lambda>seg a. if a < 64 then Inr (a + 0x1000) else Inl SimExc_General),
     mc_mem = (\<lambda>pa. if 0x1000 \<le> pa \<and> pa < 0x1040 then Some 0x61 else None),
     mc_error = None, mc_errno = (\<lambda>_. 1), mc_last_error = [], mc_out = []\<rparr>"

theorem read_string_correct_witness:
  "\<exists>m'. let cs = mem_chars mc_demo (60 AND mc_mask mc_demo) (6 - 1); str' = read_result (replicate 8 CHR ''x'') 6 True cs in
    read_string 60 (replicate 8 CHR ''x'') 6 True mc_demo = Some (str_len True cs, str', m') \<and> quiet mc_demo m' \<and>
    c_string str' = c_string cs \<and> length str' = length (replicate 8 CHR ''x'') \<and> drop 6 str' = drop 6 (replicate 8 CHR ''x'')"
  by (rule read_string_correct) simp_all

theorem string_round_trip_witness:
  "\<exists>m1 m2 buf'. write_string 8 (''hi'' @ [NUL]) 3 True mc_demo = Some (2, m1) \<and>
    read_string 8 (replicate 10 CHR ''x'') 10 True m1 = Some (2, buf', m2) \<and> quiet m1 m2 \<and> c_string buf' = ''hi''"
proof -
  have "mapped mc_demo (8 AND mc_mask mc_demo) (3 + 1)" by code_simp
  from string_round_trip[OF _ this, of "''hi''" 10 "replicate 10 CHR ''x''"] show ?thesis by (simp add: mc_demo_def eval_nat_numeral)
qed

section \<open>Kernel messages\<close>

text \<open>The lines of a message; a newline at its end starts no further line.\<close>

fun text_lines :: "string \<Rightarrow> string list" where
  "text_lines [] = [[]]"
| "text_lines (c # cs) =
     (if c = CHR 0x0A then (if cs = [] then [[]] else [] # text_lines cs)
      else (c # hd (text_lines cs)) # tl (text_lines cs))"

definition printk_lines :: "string \<Rightarrow> string" where
  "printk_lines msg = concat (map (\<lambda>l. PRINTK @ l @ NL) (text_lines msg))"

text \<open>What is left to print when the search goes on at \<open>s\<close>, in the middle of a line.\<close>

fun rest_lines :: "string \<Rightarrow> string" where
  "rest_lines [] = []"
| "rest_lines (c # cs) = (if c = CHR 0x0A \<and> cs \<noteq> [] then NL @ PRINTK @ rest_lines cs else c # rest_lines cs)"

lemma text_lines_ne [simp]: "text_lines s \<noteq> []"
  by (cases s) auto

lemma printk_lines_Cons:
  "printk_lines (c # cs) = (if c = CHR 0x0A \<and> cs \<noteq> [] then PRINTK @ NL @ printk_lines cs
     else if c = CHR 0x0A then PRINTK @ NL else PRINTK @ c # drop (length PRINTK) (printk_lines cs))"
  by (cases "text_lines cs") (auto simp: printk_lines_def)

lemma rest_lines_printk:
  "printk_lines s = PRINTK @ rest_lines s @ (if s \<noteq> [] \<and> last s = CHR 0x0A then [] else NL)"
  by (induction s) (auto simp: printk_lines_Cons, simp add: printk_lines_def)

lemma rest_lines_plain: "CHR 0x0A \<notin> set p \<Longrightarrow> rest_lines (p @ s) = p @ rest_lines s"
  by (induction p) auto

lemma prefix_loop_rest: "prefix_loop pos ret = take pos ret @ rest_lines (drop pos ret)"
proof (induction pos ret rule: prefix_loop.induct)
  case (1 pos ret)
  show ?case
  proof (cases "find_nl (drop pos ret)")
    case None
    then have "CHR 0x0A \<notin> set (drop pos ret)" by (simp add: find_nl_None)
    then show ?thesis using None rest_lines_plain[of "drop pos ret" "[]"] by (simp add: prefix_loop.simps[of pos])
  next
    case (Some f)
    let ?p = "take f (drop pos ret)" and ?rest = "drop (pos + f + 1) ret"
    have f: "f < length (drop pos ret)" "CHR 0x0A \<notin> set ?p" and len: "length (take (pos + f) ret) = pos + f"
      using find_nl_Some[OF Some] split_at_nl(2,3)[OF Some] by auto
    have d: "drop pos ret = ?p @ NL @ ?rest"
      using id_take_nth_drop[OF f(1)] find_nl_Some[OF Some] by (simp add: add.commute)
    have t: "take (pos + f) ret = take pos ret @ ?p" by (simp add: take_add)
    have rl: "rest_lines (drop pos ret) = ?p @ rest_lines (NL @ ?rest)" using rest_lines_plain[OF f(2)] d by metis
    show ?thesis
    proof (cases "pos + f < length ret - 1")
      case True
      then have "?rest \<noteq> []" by simp
      moreover have "prefix_loop pos ret = take (pos + f + 1) (take (pos + f) ret @ NL @ PRINTK @ ?rest) @
          rest_lines (drop (pos + f + 1) (take (pos + f) ret @ NL @ PRINTK @ ?rest))"
        using 1[OF Some True] Some True by (simp add: prefix_loop.simps[of pos])
      moreover have "rest_lines (PRINTK @ ?rest) = PRINTK @ rest_lines ?rest" by (rule rest_lines_plain) (simp add: PRINTK_def)
      ultimately show ?thesis using len t rl by simp
    next
      case False
      then have "?rest = []" by simp
      then show ?thesis using False Some d rl f(2) by (simp add: prefix_loop.simps[of pos] append_take_drop_id)
    qed
  qed
qed

lemma prefix_message_lines: "prefix_message msg = printk_lines msg"
proof -
  have "prefix_loop 0 (PRINTK @ msg) = PRINTK @ rest_lines msg"
    using rest_lines_plain[of PRINTK msg] by (simp add: prefix_loop_rest PRINTK_def)
  moreover have "rest_lines msg \<noteq> [] \<Longrightarrow> last (rest_lines msg) = last msg" "rest_lines msg = [] \<longleftrightarrow> msg = []"
    by (induction msg) auto
  moreover have "last (PRINTK @ rest_lines msg) = (if rest_lines msg = [] then CHR '' '' else last (rest_lines msg))"
    by (simp add: PRINTK_def)
  ultimately show ?thesis by (auto simp: prefix_message_def rest_lines_printk Let_def)
qed

lemma read_result_closed:
  assumes "k + 1 < length buf" "length cs = k"
  shows "c_string ((read_result buf (k + 1) False cs)[k + 1 := NUL]) = c_string cs"
proof -
  obtain t where "read_result buf (k + 1) False cs = cs @ NUL # t"
    using assms by (simp add: read_result_def str_len_def Let_def Cons_nth_drop_Suc[symmetric])
  moreover have "(cs @ NUL # t)[k + 1 := NUL] = cs @ NUL # t[0 := NUL]" using assms(2) by (simp add: list_update_append)
  ultimately show ?thesis using c_string_NUL by simp
qed

text \<open>
  A kernel message of less than 1024 characters is returned with each of its lines prefixed by \<open>PRINTK\<close> and ended by a
  newline; for any other length the code writes behind its buffer.
\<close>

theorem printk_prefixes_lines:
  assumes "length buf = 1025"
  shows "\<exists>m'. quiet m m' \<and> osa_get_num_char buf m =
    (let n = osa_read_register ECX m in
     if n < 1024 then Some (printk_lines (c_string (mem_chars m (osa_read_register EBX m AND mc_mask m) (unat n))), m') else None)"
proof -
  let ?n = "osa_read_register ECX m" and ?a = "osa_read_register EBX m"
  define k where "k = (if ?n > 1024 then 1024 else unat ?n)"
  define cs where "cs = mem_chars m (?a AND mc_mask m) k"
  define r where "r = read_result buf (k + 1) False cs"
  have "?n < 1024 \<longleftrightarrow> unat ?n < 1024" "?n > 1024 \<longleftrightarrow> unat ?n > 1024" by (simp_all add: word_less_nat_alt)
  then have k: "k \<le> 1024" "?n < 1024 \<longleftrightarrow> k + 1 < 1025" "?n < 1024 \<longrightarrow> k = unat ?n" by (auto simp: k_def)
  obtain m' where m': "read_string ?a buf (k + 1) False m = Some (str_len False cs, r, m')" "quiet m m'"
    using read_string_value[of "k + 1" buf ?a False m] k(1) assms by (auto simp: cs_def r_def)
  have len: "length r = 1025" using assms k(1) by (simp add: r_def cs_def read_result_def str_len_def Let_def)
  have num: "osa_get_num_char buf m = (if k + 1 \<ge> length r then None else Some (prefix_message (c_string (r[k + 1 := NUL])), m'))"
    using m'(1) by (simp add: osa_get_num_char_def Let_def k_def[symmetric])
  show ?thesis
  proof (cases "?n < 1024")
    case True
    then have "c_string (r[k + 1 := NUL]) = c_string cs"
      using read_result_closed[of k buf cs] k(2) assms by (simp add: r_def cs_def)
    then show ?thesis using True num len k(2,3) m'(2) by (intro exI[of _ m']) (simp add: Let_def prefix_message_lines cs_def)
  next
    case False
    then show ?thesis using num len k(2) m'(2) by (intro exI[of _ m']) (simp add: Let_def)
  qed
qed

theorem printk_prefixes_lines_witness:
  "\<exists>m'. quiet mc_demo m' \<and> osa_get_num_char (replicate 1025 NUL) mc_demo = Some (''PRINTK aaa'' @ NL, m')"
proof -
  have r: "osa_read_register ECX mc_demo = 3" "osa_read_register EBX mc_demo = 16" by code_simp+
  have "mem_chars mc_demo (16 AND mc_mask mc_demo) 3 = ''aaa''" by code_simp
  moreover have "printk_lines (c_string ''aaa'') = ''PRINTK aaa'' @ NL" by code_simp
  ultimately show ?thesis using printk_prefixes_lines[of "replicate 1025 NUL" mc_demo] by (simp add: r Let_def)
qed

end
