(* ===== verification/Os.thy ===== *)
theory Os
  imports MemAccess
begin

text \<open>
  What the modules know of the guest operating system (\<^verbatim>\<open>common/os.cc\<close>, \<^verbatim>\<open>common/MachineInfo.cc\<close>): the
  process table kept by the fork, exit and schedule events of the kernel, the context switch times, the kernel's
  statistics counters, and saving and restoring the table in a checkpoint.  A \<^verbatim>\<open>pid_info\<close> is reached through
  a pointer, its address in \<open>os_pids\<close>; a null pointer is the address \<open>None\<close>, and a deleted object has no entry.
  The result \<open>None\<close> of an operation is the use of a null or dangling pointer, of an index out of range or of a field
  never set.
\<close>

section \<open>Machines\<close>

type_synonym minfo = "nat list"

definition getNumCpus :: "minfo \<Rightarrow> int" where
  "getNumCpus cpus = int (length cpus)"

definition getCpu :: "minfo \<Rightarrow> nat \<Rightarrow> nat option" where
  "getCpu cpus n = (if n < length cpus then Some (cpus ! n) else None)"

fun cpu_scan :: "int \<Rightarrow> minfo \<Rightarrow> nat \<Rightarrow> int" where
  "cpu_scan i [] cpu = - 1"
| "cpu_scan i (c # cs) cpu = (if c = cpu then i else cpu_scan (i + 1) cs cpu)"

definition getCpuNum :: "minfo \<Rightarrow> nat \<Rightarrow> int" where
  "getCpuNum cpus cpu = cpu_scan 0 cpus cpu"

text \<open>The object of that name in the machine's \<^verbatim>\<open>object_list\<close>, the first if there are several.\<close>

fun component_scan :: "(attr_value \<times> attr_value) list \<Rightarrow> string \<Rightarrow> attr_value option" where
  "component_scan [] name = None"
| "component_scan ((k, v) # kvs) name = (if k = Sim_Val_String name then Some v else component_scan kvs name)"

definition getComponent :: "attr_value \<Rightarrow> string \<Rightarrow> attr_value option" where
  "getComponent object_list name = (case object_list of Sim_Val_Dict kvs \<Rightarrow> component_scan kvs name | _ \<Rightarrow> None)"

section \<open>State\<close>

record pid_info =
  pi_pid :: int
  pi_spid :: spid_t
  pi_kernel :: bool
  pi_cpu :: int
  pi_state :: int
  pi_syscall :: int
  pi_cmd :: string

definition CMD_SIZE :: nat where [const_defs]: "CMD_SIZE = 256"

text \<open>\<open>new struct pid_info()\<close>: every field zero.\<close>

definition pid_info_zero :: pid_info where
  "pid_info_zero = \<lparr>pi_pid = 0, pi_spid = 0, pi_kernel = False, pi_cpu = 0, pi_state = 0, pi_syscall = 0,
     pi_cmd = replicate CMD_SIZE NUL\<rparr>"

record PeriodicData =
  pd_user :: u64
  pd_nice :: u64
  pd_system :: u64
  pd_softirq :: u64
  pd_irq :: u64
  pd_idle :: u64
  pd_iowait :: u64
  pd_steal :: u64

definition PeriodicData_new :: PeriodicData where
  "PeriodicData_new = \<lparr>pd_user = 0, pd_nice = 0, pd_system = 0, pd_softirq = 0, pd_irq = 0, pd_idle = 0, pd_iowait = 0, pd_steal = 0\<rparr>"

type_synonym pid_ptr = "nat option"

record os_data =
  last_pid :: int
  timer_count :: int
  spid_max :: u32
  kstats :: "u32 list"
  snapshot :: "PeriodicData list"
  stat_interval :: int
  procs :: "(int \<times> pid_ptr) list"
  sprocs :: "(spid_t \<times> pid_ptr) list"
  current_process :: "(int \<times> spid_t) list"
  kstat_2_4_paddr :: u64
  kstat_2_4_nrcpus :: int
  kernel_version :: "int option"
  os_pids :: "(nat \<times> pid_info) list"
  os_new :: nat

record ctxtsw_hist =
  last_ctxtsw_start :: cycles
  tot_ctxtsw :: cycles
  tot_ctxtsw_cyc :: cycles

datatype periodic = Kstat_callback | Kstat_callback_2_4

text \<open>
  The part of a module these functions use: its machine, context switch times, whether it is the \<^verbatim>\<open>COMMON\<close> module,
  the periodic callbacks it has registered, its log, the console and the requests to stop the simulation.
\<close>

record osamod =
  om_os :: os_data
  om_minfo :: minfo
  om_ctxtsws :: "ctxtsw_hist list"
  om_common :: bool
  om_periodic :: "(periodic \<times> int) list"
  om_stat :: ostream
  om_console :: ostream
  om_breaks :: "string list"

definition OSA_MAX_CPUS :: nat where [const_defs]: "OSA_MAX_CPUS = 32"

definition set_os :: "os_data \<Rightarrow> osamod \<Rightarrow> osamod" where
  "set_os d o' = o'\<lparr>om_os := d\<rparr>"

definition pr :: "ostream \<Rightarrow> osamod \<Rightarrow> osamod" where
  "pr s o' = o'\<lparr>om_console := om_console o' @ s\<rparr>"

definition break_simulation :: "string \<Rightarrow> osamod \<Rightarrow> osamod" where
  "break_simulation s o' = o'\<lparr>om_breaks := om_breaks o' @ [s]\<rparr>"

text \<open>Conversion to \<^verbatim>\<open>int\<close>, and a register read as one.\<close>

definition to_int :: "int \<Rightarrow> int" where
  "to_int i = sint (of_int i :: u32)"

definition reg_int :: "reg \<Rightarrow> machine \<Rightarrow> int" where
  "reg_int r m = sint (ucast (osa_read_register r m) :: u32)"

section \<open>Processes\<close>

definition init_procs :: "minfo \<Rightarrow> os_data" where
  "init_procs cpus =
     \<lparr>last_pid = 0, timer_count = 0, spid_max = 1, kstats = [], snapshot = [], stat_interval = 10000000,
      procs = [(0, Some 0)], sprocs = [(0, Some 0)],
      current_process = map (\<lambda>i. (int i, 0)) [0..<length cpus],
      kstat_2_4_paddr = 0, kstat_2_4_nrcpus = 0, kernel_version = None,
      os_pids = [(0, pid_info_zero\<lparr>pi_kernel := True\<rparr>)], os_new = 1\<rparr>"

text \<open>\<open>os->procs[pid]\<close>: a pid that is not there is entered with a null pointer.\<close>

definition procs_at :: "int \<Rightarrow> os_data \<Rightarrow> pid_ptr \<times> os_data" where
  "procs_at pid d =
     (case map_of (procs d) pid of
        Some p \<Rightarrow> (p, d)
      | None \<Rightarrow> (None, d\<lparr>procs := omap_update pid None (procs d)\<rparr>))"

definition sprocs_at :: "spid_t \<Rightarrow> os_data \<Rightarrow> pid_ptr \<times> os_data" where
  "sprocs_at spid d =
     (case map_of (sprocs d) spid of
        Some p \<Rightarrow> (p, d)
      | None \<Rightarrow> (None, d\<lparr>sprocs := omap_update spid None (sprocs d)\<rparr>))"

definition deref :: "pid_ptr \<Rightarrow> os_data \<Rightarrow> pid_info option" where
  "deref p d = Option.bind p (map_of (os_pids d))"

definition put_pid :: "nat \<Rightarrow> pid_info \<Rightarrow> os_data \<Rightarrow> os_data" where
  "put_pid a p d = d\<lparr>os_pids := AList.update a p (os_pids d)\<rparr>"

text \<open>Copying the command name: \<open>k\<close> characters to go.\<close>

fun copy_cmd :: "nat \<Rightarrow> nat \<Rightarrow> logical_address \<Rightarrow> string \<Rightarrow> machine \<Rightarrow> string \<times> machine" where
  "copy_cmd 0 i ptr cmd m = (cmd, m)"
| "copy_cmd (Suc k) i ptr cmd m =
     (let (b, m1) = osa_read_sim_byte DATA_SEGMENT ptr m;
          c = byte_char b
      in if c = NUL \<and> i = 0 then (cmd[i := c], m1)
         else copy_cmd k (i + 1) (ptr + 1) (cmd[i := (if c = NUL then CHR '' '' else c)]) m1)"

definition read_cmd :: "logical_address \<Rightarrow> nat \<Rightarrow> string \<Rightarrow> machine \<Rightarrow> string \<times> machine" where
  "read_cmd ptr len cmd m =
     (let cmd1 = replicate (len + 1) NUL @ drop (len + 1) cmd
      in if ptr \<noteq> 0 \<and> len \<noteq> 0 then copy_cmd (len - 1) 0 ptr cmd1 m else (cmd1, m))"

definition os_sched :: "machine \<Rightarrow> osamod \<Rightarrow> (osamod \<times> machine) option" where
  "os_sched m o' =
     (let pid = reg_int ECX m;
          len = ucast (osa_read_register EDX m) :: u32;
          ptr = osa_read_register EBX m;
          (pp, d) = procs_at pid (om_os o')
      in case pp of
           None \<Rightarrow>
             Some (break_simulation ''Invalid Access''
               (pr [Str ''Trying to access pid '', Dec pid, Str '', which hasn't been forked yet.  Qua!?!'', Endl] (set_os d o')), m)
         | Some a \<Rightarrow> do {
             p \<leftarrow> map_of (os_pids d) a;
             let n = (if len > 255 then 255 else unat len);
             let (cmd, m1) = read_cmd ptr n (pi_cmd p) m;
             let cpu = getCpuNum (om_minfo o') (mc_cpu m);
             let d1 = put_pid a (p\<lparr>pi_cmd := cmd, pi_cpu := cpu\<rparr>) d;
             Some (set_os (d1\<lparr>current_process := omap_update cpu (pi_spid p) (current_process d1)\<rparr>) o', m1)
           })"

definition os_enter_sched :: "machine \<Rightarrow> osamod \<Rightarrow> osamod option" where
  "os_enter_sched m o' =
     (let n = getCpuNum (om_minfo o') (mc_cpu m)
      in if n < 0 \<or> n \<ge> int (length (om_ctxtsws o')) then None
         else Some (o'\<lparr>om_ctxtsws := (om_ctxtsws o')[nat n := (om_ctxtsws o' ! nat n)\<lparr>last_ctxtsw_start := mc_cycles m (mc_cpu m)\<rparr>]\<rparr>))"

definition os_exit_switch_to :: "machine \<Rightarrow> osamod \<Rightarrow> osamod option" where
  "os_exit_switch_to m o' =
     (let n = getCpuNum (om_minfo o') (mc_cpu m)
      in if n < 0 \<or> n \<ge> int (length (om_ctxtsws o')) then None
         else
           (let h = om_ctxtsws o' ! nat n;
                ctxtst = last_ctxtsw_start h
            in if ctxtst \<noteq> 0
               then Some (o'\<lparr>om_ctxtsws := (om_ctxtsws o')[nat n :=
                      h\<lparr>tot_ctxtsw_cyc := tot_ctxtsw_cyc h + (mc_cycles m (mc_cpu m) - ctxtst), tot_ctxtsw := tot_ctxtsw h + 1\<rparr>]\<rparr>)
               else Some o'))"

definition os_timer :: "osamod \<Rightarrow> osamod" where
  "os_timer o' = set_os ((om_os o')\<lparr>timer_count := timer_count (om_os o') + 1\<rparr>) o'"

definition os_fork :: "machine \<Rightarrow> osamod \<Rightarrow> osamod" where
  "os_fork m o' =
     (let pid = reg_int EBX m;
          kernel = reg_int ECX m;
          d0 = om_os o';
          o1 = (if pid \<noteq> last_pid d0 + 1
                then pr ([Str ''XXX Out-of-order pid allocation: last = '', Dec (last_pid d0), Str '', new pid = '', Dec pid,
                       Str '' on CPU '', Dec (getCpuNum (om_minfo o') (mc_cpu m))] @
                       (if last_pid d0 > 30000 \<and> pid < 1000 then [Str '', This may be a rollover.''] else []) @ [Endl]) o'
                else o');
          a = os_new d0;
          p = pid_info_zero\<lparr>pi_pid := pid, pi_spid := spid_max d0, pi_kernel := (kernel \<noteq> 0), pi_state := 256\<rparr>;
          d1 = d0\<lparr>os_new := a + 1, last_pid := pid, spid_max := spid_max d0 + 1\<rparr>;
          (old, d2) = procs_at pid d1;
          (o2, d3) = (case old of
                        None \<Rightarrow> (o1, d2)
                      | Some b \<Rightarrow> (pr [Str ''XXX: Garbage collecting info for pid '', Dec pid, Endl] o1,
                                   d2\<lparr>os_pids := AList.delete b (os_pids d2)\<rparr>))
      in set_os (put_pid a p (d3\<lparr>procs := omap_update pid (Some a) (procs d3), sprocs := omap_update (pi_spid p) (Some a) (sprocs d3)\<rparr>)) o2)"

definition os_exit :: "machine \<Rightarrow> osamod \<Rightarrow> osamod option" where
  "os_exit m o' =
     (let pid = reg_int ECX m;
          (pp, d) = procs_at pid (om_os o')
      in do {
        p \<leftarrow> deref pp d;
        Some (set_os (d\<lparr>sprocs := omap_erase (pi_spid p) (sprocs d), procs := omap_erase pid (procs d),
          os_pids := AList.delete (the pp) (os_pids d)\<rparr>) o')
      })"

definition os_task_state :: "machine \<Rightarrow> osamod \<Rightarrow> osamod option" where
  "os_task_state m o' =
     (let pid = reg_int EBX m;
          st = reg_int ECX m;
          (pp, d) = procs_at pid (om_os o')
      in case pp of
           None \<Rightarrow>
             Some (break_simulation ''Invalid Access''
               (pr [Str ''Trying to set state on pid '', Dec pid, Str '', which hasn't been forked yet.  Qua!?!'', Endl] (set_os d o')))
         | Some a \<Rightarrow> do { p \<leftarrow> map_of (os_pids d) a; Some (set_os (put_pid a (p\<lparr>pi_state := st\<rparr>) d) o') })"

definition os_cur_syscall :: "machine \<Rightarrow> osamod \<Rightarrow> osamod option" where
  "os_cur_syscall m o' =
     (let pid = reg_int EBX m;
          sc = reg_int ECX m;
          (pp, d) = procs_at pid (om_os o')
      in case pp of
           None \<Rightarrow>
             Some (break_simulation ''Invalid Access''
               (pr [Str ''Trying to set syscall on pid '', Dec pid, Str '', which hasn't been forked yet.  Qua!?!'', Endl] (set_os d o')))
         | Some a \<Rightarrow> do { p \<leftarrow> map_of (os_pids d) a; Some (set_os (put_pid a (p\<lparr>pi_syscall := sc\<rparr>) d) o') })"

section \<open>Kernel statistics\<close>

text \<open>The eight counters of one processor at a physical address, in a 2.6 kernel, and the four of a 2.4 kernel.\<close>

fun read8 :: "nat \<Rightarrow> u64 \<Rightarrow> machine \<Rightarrow> u64 list \<times> machine" where
  "read8 0 pa m = ([], m)"
| "read8 (Suc k) pa m =
     (let (v, m1) = osa_read_sim_8bytes_phys pa m;
          (vs, m2) = read8 k (pa + 8) m1
      in (v # vs, m2))"

definition read_kstat :: "u64 \<Rightarrow> machine \<Rightarrow> PeriodicData \<times> machine" where
  "read_kstat pa m =
     (let (v, m1) = read8 8 pa m
      in (\<lparr>pd_user = v ! 0, pd_nice = v ! 1, pd_system = v ! 2, pd_softirq = v ! 3, pd_irq = v ! 4, pd_idle = v ! 5,
           pd_iowait = v ! 6, pd_steal = v ! 7\<rparr>, m1))"

definition read_kstat_2_4 :: "u64 \<Rightarrow> int \<Rightarrow> nat \<Rightarrow> machine \<Rightarrow> PeriodicData \<times> machine" where
  "read_kstat_2_4 pa nrcpus i m =
     (let n = of_int nrcpus :: u64;
          off = of_nat (4 * i) :: u64;
          (user, m1) = osa_read_sim_4bytes_phys (pa + off) m;
          (nice, m2) = osa_read_sim_4bytes_phys (pa + 4 * n + off) m1;
          (system, m3) = osa_read_sim_4bytes_phys (pa + 2 * 4 * n + off) m2;
          (idle, m4) = osa_read_sim_4bytes_phys (pa + 3 * 4 * n + off) m3
      in (\<lparr>pd_user = ucast user, pd_nice = ucast nice, pd_system = ucast system, pd_softirq = 0, pd_irq = 0, pd_idle = ucast idle,
           pd_iowait = 0, pd_steal = 0\<rparr>, m4))"

definition kstat_line :: "string \<Rightarrow> nat \<Rightarrow> cycles \<Rightarrow> PeriodicData \<Rightarrow> ostream" where
  "kstat_line tag i cyc p =
     [Str tag, Dec (int i), Str '' cycle '', Dec (uint cyc), Str '' '', Dec (uint (pd_user p)), Str '' '', Dec (uint (pd_nice p)),
      Str '' '', Dec (uint (pd_system p)), Str '' '', Dec (uint (pd_softirq p)), Str '' '', Dec (uint (pd_irq p)), Str '' '',
      Dec (uint (pd_idle p)), Str '' '', Dec (uint (pd_iowait p)), Str '' '', Dec (uint (pd_steal p)), Endl]"

fun kstat_loop :: "nat \<Rightarrow> u32 list \<Rightarrow> machine \<Rightarrow> ostream \<times> machine" where
  "kstat_loop i [] m = ([], m)"
| "kstat_loop i (a # as) m =
     (let (p, m1) = read_kstat (ucast a) m;
          (s, m2) = kstat_loop (i + 1) as m1
      in (kstat_line ''KSTAT cpu'' i (mc_cycles m1 (mc_cpu m1)) p @ s, m2))"

text \<open>No module registers a plugin for these callbacks: \<open>kstat_plugin\<close> is null in every module.\<close>

definition kstat_callback :: "machine \<Rightarrow> osamod \<Rightarrow> osamod \<times> machine" where
  "kstat_callback m o' =
     (if getCpuNum (om_minfo o') (mc_cpu m) = - 1 then (o', m)
      else
        (let (s, m1) = kstat_loop 0 (kstats (om_os o')) m
         in (if om_common o' then o' else o'\<lparr>om_stat := om_stat o' @ s\<rparr>, m1)))"

fun kstat_loop_2_4 :: "nat \<Rightarrow> nat \<Rightarrow> u64 \<Rightarrow> int \<Rightarrow> machine \<Rightarrow> ostream \<times> machine" where
  "kstat_loop_2_4 0 i pa nrcpus m = ([], m)"
| "kstat_loop_2_4 (Suc k) i pa nrcpus m =
     (let (p, m1) = read_kstat_2_4 pa nrcpus i m;
          (s, m2) = kstat_loop_2_4 k (i + 1) pa nrcpus m1
      in (kstat_line ''KSTAT cpu'' i (mc_cycles m1 (mc_cpu m1)) p @ s, m2))"

definition kstat_callback_2_4 :: "machine \<Rightarrow> osamod \<Rightarrow> osamod \<times> machine" where
  "kstat_callback_2_4 m o' =
     (if getCpuNum (om_minfo o') (mc_cpu m) = - 1 then (o', m)
      else
        (let d = om_os o';
             (s, m1) = kstat_loop_2_4 (length (om_minfo o')) 0 (kstat_2_4_paddr d) (kstat_2_4_nrcpus d) m
         in (if om_common o' then o' else o'\<lparr>om_stat := om_stat o' @ s\<rparr>, m1)))"

definition set_kstat_callback :: "int \<Rightarrow> osamod \<Rightarrow> osamod option" where
  "set_kstat_callback new_int o' =
     (let o1 = o'\<lparr>om_periodic := filter (\<lambda>c. fst c \<noteq> Kstat_callback) (om_periodic o'),
                  om_os := (om_os o')\<lparr>stat_interval := new_int\<rparr>\<rparr>
      in if new_int > 0
         then do {
           v \<leftarrow> kernel_version (om_os o1);
           Some (if v \<ge> 2600 then o1\<lparr>om_periodic := om_periodic o1 @ [(Kstat_callback, new_int)]\<rparr>
                 else if v \<ge> 2400 \<and> v < 2600 then o1\<lparr>om_periodic := om_periodic o1 @ [(Kstat_callback_2_4, new_int)]\<rparr>
                 else break_simulation ''Unknown Kernel Version'' o1)
         }
         else Some o1)"

definition os_kstat :: "machine \<Rightarrow> osamod \<Rightarrow> (osamod \<times> machine) option" where
  "os_kstat m o' =
     (let offset = reg_int EBX m;
          addr = ucast (osa_read_register ECX m) :: u32;
          (pa, m1) = OSA_logical_to_physical DATA_SEGMENT (ucast addr) m;
          d = om_os o';
          d1 = d\<lparr>kstats := kstats d @ [ucast pa], snapshot := snapshot d @ [PeriodicData_new], kernel_version := Some 2600\<rparr>;
          o1 = set_os d1 o'
      in if offset = getNumCpus (om_minfo o') - 1
         then map_option (\<lambda>o2. (o2, m1)) (set_kstat_callback (stat_interval d1) o1)
         else Some (o1, m1))"

definition os_kstat_2_4 :: "machine \<Rightarrow> osamod \<Rightarrow> (osamod \<times> machine) option" where
  "os_kstat_2_4 m o' =
     (let nrcpus = reg_int EBX m;
          addr = ucast (osa_read_register ECX m) :: u32;
          (pa, m1) = OSA_logical_to_physical DATA_SEGMENT (ucast addr) m;
          d = (om_os o')\<lparr>kstat_2_4_paddr := pa, kstat_2_4_nrcpus := nrcpus, kernel_version := Some 2400\<rparr>;
          n = length (om_minfo o');
          o1 = (if getNumCpus (om_minfo o') > nrcpus
                then break_simulation ''Number of CPUs kernel is configured to support is less than number of CPUs the machine has.'' o'
                else o');
          d1 = d\<lparr>kstats := kstats d @ replicate n (ucast pa), snapshot := snapshot d @ replicate n PeriodicData_new\<rparr>
      in map_option (\<lambda>o2. (o2, m1)) (set_kstat_callback (stat_interval d1) (set_os d1 o1)))"

definition set_stat_interval :: "attr_value \<Rightarrow> osamod \<Rightarrow> (osamod \<times> set_error) option" where
  "set_stat_interval v o' =
     (case v of
        Sim_Val_Integer i \<Rightarrow>
          (let d = om_os o'
           in if stat_interval d \<noteq> i
              then (let o1 = set_os (d\<lparr>stat_interval := to_int i\<rparr>) o'
                    in if kstats d \<noteq> [] then map_option (\<lambda>o2. (o2, Sim_Set_Ok)) (set_kstat_callback (to_int i) o1) else Some (o1, Sim_Set_Ok))
              else Some (o', Sim_Set_Ok))
      | _ \<Rightarrow> Some (o', Sim_Set_Need_Integer))"

definition get_stat_interval :: "osamod \<Rightarrow> attr_value" where
  "get_stat_interval o' = Sim_Val_Integer (stat_interval (om_os o'))"

text \<open>The counters when statistics were last reset, and what they have grown by since.\<close>

fun snapshot_loop :: "u32 list \<Rightarrow> nat \<Rightarrow> machine \<Rightarrow> (PeriodicData list \<times> machine) option" where
  "snapshot_loop as 0 m = Some ([], m)"
| "snapshot_loop as (Suc k) m =
     (case as of
        [] \<Rightarrow> None
      | a # as' \<Rightarrow>
          (let (p, m1) = read_kstat (ucast a) m
           in map_option (\<lambda>(ps, m2). (p # ps, m2)) (snapshot_loop as' k m1)))"

fun snapshot_loop_2_4 :: "nat \<Rightarrow> nat \<Rightarrow> u64 \<Rightarrow> int \<Rightarrow> machine \<Rightarrow> PeriodicData list \<times> machine" where
  "snapshot_loop_2_4 0 i pa nrcpus m = ([], m)"
| "snapshot_loop_2_4 (Suc k) i pa nrcpus m =
     (let (p, m1) = read_kstat_2_4 pa nrcpus i m;
          (ps, m2) = snapshot_loop_2_4 k (i + 1) pa nrcpus m1
      in (p # ps, m2))"

definition prepare_kstats_snapshot :: "machine \<Rightarrow> osamod \<Rightarrow> (osamod \<times> machine) option" where
  "prepare_kstats_snapshot m o' = do {
     cpu \<leftarrow> getCpu (om_minfo o') 0;
     let d = om_os o';
     v \<leftarrow> kernel_version d;
     (ps, m1) \<leftarrow> (if v \<ge> 2600 then snapshot_loop (kstats d) (length (snapshot d)) m
                 else Some (snapshot_loop_2_4 (length (snapshot d)) 0 (kstat_2_4_paddr d) (kstat_2_4_nrcpus d) m));
     Some (set_os (d\<lparr>snapshot := ps\<rparr>) o', m1)
   }"

definition kstat_diff :: "PeriodicData \<Rightarrow> PeriodicData \<Rightarrow> PeriodicData" where
  "kstat_diff p q = \<lparr>pd_user = pd_user p - pd_user q, pd_nice = pd_nice p - pd_nice q, pd_system = pd_system p - pd_system q,
     pd_softirq = pd_softirq p - pd_softirq q, pd_irq = pd_irq p - pd_irq q, pd_idle = pd_idle p - pd_idle q,
     pd_iowait = pd_iowait p - pd_iowait q, pd_steal = pd_steal p - pd_steal q\<rparr>"

text \<open>The differences of the four counters a 2.4 kernel has; the others stay zero.\<close>

definition kstat_diff_2_4 :: "PeriodicData \<Rightarrow> PeriodicData \<Rightarrow> PeriodicData" where
  "kstat_diff_2_4 p q = p\<lparr>pd_user := pd_user p - pd_user q, pd_nice := pd_nice p - pd_nice q, pd_system := pd_system p - pd_system q,
     pd_idle := pd_idle p - pd_idle q\<rparr>"

fun take_loop :: "nat \<Rightarrow> nat \<Rightarrow> u32 list \<Rightarrow> PeriodicData list \<Rightarrow> machine \<Rightarrow> (ostream \<times> machine) option" where
  "take_loop cpu i [] qs m = Some ([], m)"
| "take_loop cpu i (a # as) qs m =
     (let (p, m1) = read_kstat (ucast a) m
      in case qs of
           [] \<Rightarrow> None
         | q # qs' \<Rightarrow>
             map_option (\<lambda>(s, m2). (kstat_line ''KSTAT_SNAPSHOT cpu'' i (mc_cycles m1 cpu) (kstat_diff p q) @ s, m2))
               (take_loop cpu (i + 1) as qs' m1))"

fun take_loop_2_4 :: "nat \<Rightarrow> nat \<Rightarrow> nat \<Rightarrow> u64 \<Rightarrow> int \<Rightarrow> PeriodicData list \<Rightarrow> machine \<Rightarrow> (ostream \<times> machine) option" where
  "take_loop_2_4 cpu 0 i pa nrcpus qs m = Some ([], m)"
| "take_loop_2_4 cpu (Suc k) i pa nrcpus qs m =
     (let (p, m1) = read_kstat_2_4 pa nrcpus i m
      in if qs = [] then take_loop_2_4 cpu k (i + 1) pa nrcpus qs m1
         else if i \<ge> length qs then None
         else map_option (\<lambda>(s, m2). (kstat_line ''KSTAT_SNAPSHOT cpu'' i (mc_cycles m1 cpu) (kstat_diff_2_4 p (qs ! i)) @ s, m2))
                (take_loop_2_4 cpu k (i + 1) pa nrcpus qs m1))"

definition take_kstats_snapshot :: "machine \<Rightarrow> osamod \<Rightarrow> (ostream \<times> machine) option" where
  "take_kstats_snapshot m o' = do {
     cpu \<leftarrow> getCpu (om_minfo o') 0;
     let d = om_os o';
     v \<leftarrow> kernel_version d;
     if v \<ge> 2600 then take_loop cpu 0 (kstats d) (snapshot d) m
     else take_loop_2_4 cpu (length (om_minfo o')) 0 (kstat_2_4_paddr d) (kstat_2_4_nrcpus d) (snapshot d) m
   }"

section \<open>Checkpoints\<close>

definition set_kstat_addrs :: "attr_value \<Rightarrow> os_data \<Rightarrow> os_data option" where
  "set_kstat_addrs v d =
     (case v of
        Sim_Val_List vs \<Rightarrow>
          (if list_all (\<lambda>x. case x of Sim_Val_Integer _ \<Rightarrow> True | _ \<Rightarrow> False) vs
           then Some (d\<lparr>kstats := kstats d @ map (\<lambda>x. case x of Sim_Val_Integer i \<Rightarrow> of_int i | _ \<Rightarrow> 0) vs\<rparr>)
           else None)
      | Sim_Val_Invalid \<Rightarrow> Some d
      | _ \<Rightarrow> None)"

definition get_kstat_addrs :: "os_data \<Rightarrow> attr_value" where
  "get_kstat_addrs d = Sim_Val_List (map (\<lambda>a. Sim_Val_Integer (uint a)) (kstats d))"

text \<open>
  A dictionary read through \<^verbatim>\<open>dict_to_map\<close>: a later entry wins, a key that is missing is entered with a zero value.  Reading
  a member of the union that is not the one stored is \<open>None\<close>.
\<close>

definition dict_get :: "(attr_value \<times> attr_value) list \<Rightarrow> string \<Rightarrow> attr_value" where
  "dict_get kvs k = (case map_of (rev kvs) (Sim_Val_String k) of Some v \<Rightarrow> v | None \<Rightarrow> Sim_Val_Invalid)"

fun dict_of :: "attr_value \<Rightarrow> (attr_value \<times> attr_value) list option" where
  "dict_of (Sim_Val_Dict kvs) = Some kvs"
| "dict_of Sim_Val_Invalid = Some []"
| "dict_of _ = None"

fun int_of :: "attr_value \<Rightarrow> int option" where
  "int_of (Sim_Val_Integer i) = Some i"
| "int_of Sim_Val_Invalid = Some 0"
| "int_of _ = None"

fun bool_of :: "attr_value \<Rightarrow> bool option" where
  "bool_of (Sim_Val_Boolean b) = Some b"
| "bool_of Sim_Val_Invalid = Some False"
| "bool_of _ = None"

fun string_of :: "attr_value \<Rightarrow> string option" where
  "string_of (Sim_Val_String s) = Some s"
| "string_of _ = None"

text \<open>\<^verbatim>\<open>strncpy\<close> into a buffer of \<open>n\<close> bytes.\<close>

definition strncpy :: "nat \<Rightarrow> string \<Rightarrow> string" where
  "strncpy n s = (let t = take n (c_string s) in t @ replicate (n - length t) NUL)"

definition deserialize_pid_info :: "attr_value \<Rightarrow> pid_info option" where
  "deserialize_pid_info av = do {
     kvs \<leftarrow> dict_of av;
     pid \<leftarrow> int_of (dict_get kvs ''pid'');
     spid \<leftarrow> int_of (dict_get kvs ''spid'');
     kernel \<leftarrow> bool_of (dict_get kvs ''kernel'');
     cpu \<leftarrow> int_of (dict_get kvs ''cpu'');
     cmd \<leftarrow> string_of (dict_get kvs ''cmd'');
     st \<leftarrow> int_of (dict_get kvs ''state'');
     sc \<leftarrow> int_of (dict_get kvs ''syscall'');
     Some \<lparr>pi_pid = to_int pid, pi_spid = of_int spid, pi_kernel = kernel, pi_cpu = to_int cpu, pi_state = to_int st,
       pi_syscall = to_int sc, pi_cmd = strncpy CMD_SIZE cmd\<rparr>
   }"

definition serialize_pid_info :: "pid_info \<Rightarrow> attr_value" where
  "serialize_pid_info p = Sim_Val_Dict
     [(Sim_Val_String ''pid'', Sim_Val_Integer (pi_pid p)),
      (Sim_Val_String ''spid'', Sim_Val_Integer (uint (pi_spid p))),
      (Sim_Val_String ''kernel'', Sim_Val_Boolean (pi_kernel p)),
      (Sim_Val_String ''cpu'', Sim_Val_Integer (pi_cpu p)),
      (Sim_Val_String ''cmd'', Sim_Val_String (c_string (pi_cmd p))),
      (Sim_Val_String ''state'', Sim_Val_Integer (pi_state p)),
      (Sim_Val_String ''syscall'', Sim_Val_Integer (pi_syscall p))]"

fun restore_sprocs :: "(attr_value \<times> attr_value) list \<Rightarrow> os_data \<Rightarrow> os_data option" where
  "restore_sprocs [] d = Some d"
| "restore_sprocs ((k, v) # kvs) d = do {
     spid \<leftarrow> int_of k;
     p \<leftarrow> deserialize_pid_info v;
     let a = os_new d;
     let d1 = put_pid a p (d\<lparr>os_new := a + 1\<rparr>);
     restore_sprocs kvs (d1\<lparr>sprocs := omap_update (of_int spid) (Some a) (sprocs d1)\<rparr>)
   }"

fun restore_procs :: "(attr_value \<times> attr_value) list \<Rightarrow> os_data \<Rightarrow> os_data option" where
  "restore_procs [] d = Some d"
| "restore_procs ((k, v) # kvs) d = do {
     pid \<leftarrow> int_of k;
     spid \<leftarrow> int_of v;
     let (pp, d1) = sprocs_at (of_int spid) d;
     restore_procs kvs (d1\<lparr>procs := omap_update (to_int pid) pp (procs d1)\<rparr>)
   }"

fun restore_current :: "(attr_value \<times> attr_value) list \<Rightarrow> os_data \<Rightarrow> os_data option" where
  "restore_current [] d = Some d"
| "restore_current ((k, v) # kvs) d = do {
     cpu \<leftarrow> int_of k;
     spid \<leftarrow> int_of v;
     restore_current kvs (d\<lparr>current_process := omap_update (to_int cpu) (of_int spid) (current_process d)\<rparr>)
   }"

definition set_os_visibility :: "attr_value \<Rightarrow> os_data \<Rightarrow> os_data option" where
  "set_os_visibility v d = do {
     kvs \<leftarrow> dict_of v;
     sm \<leftarrow> int_of (dict_get kvs ''spid_max'');
     sp \<leftarrow> dict_of (dict_get kvs ''sprocs'');
     d1 \<leftarrow> restore_sprocs sp (d\<lparr>spid_max := of_int sm\<rparr>);
     ps \<leftarrow> dict_of (dict_get kvs ''procs'');
     d2 \<leftarrow> restore_procs ps d1;
     cp \<leftarrow> dict_of (dict_get kvs ''current_process'');
     d3 \<leftarrow> restore_current cp d2;
     lp \<leftarrow> int_of (dict_get kvs ''last_pid'');
     tc \<leftarrow> int_of (dict_get kvs ''timer_count'');
     set_kstat_addrs (dict_get kvs ''kstat_addrs'') (d3\<lparr>last_pid := to_int lp, timer_count := to_int tc\<rparr>)
   }"

fun serialize_all :: "(spid_t \<times> pid_ptr) list \<Rightarrow> os_data \<Rightarrow> (attr_value \<times> attr_value) list option" where
  "serialize_all [] d = Some []"
| "serialize_all ((spid, pp) # es) d = do {
     p \<leftarrow> deref pp d;
     kvs \<leftarrow> serialize_all es d;
     Some ((Sim_Val_Integer (uint spid), serialize_pid_info p) # kvs)
   }"

fun serialize_procs :: "(int \<times> pid_ptr) list \<Rightarrow> os_data \<Rightarrow> (attr_value \<times> attr_value) list option" where
  "serialize_procs [] d = Some []"
| "serialize_procs ((pid, pp) # es) d = do {
     p \<leftarrow> deref pp d;
     kvs \<leftarrow> serialize_procs es d;
     Some ((Sim_Val_Integer pid, Sim_Val_Integer (uint (pi_spid p))) # kvs)
   }"

definition get_os_visibility :: "os_data \<Rightarrow> attr_value option" where
  "get_os_visibility d = do {
     sp \<leftarrow> serialize_all (sprocs d) d;
     ps \<leftarrow> serialize_procs (procs d) d;
     Some (Sim_Val_Dict
       [(Sim_Val_String ''spid_max'', Sim_Val_Integer (uint (spid_max d))),
        (Sim_Val_String ''sprocs'', Sim_Val_Dict sp),
        (Sim_Val_String ''procs'', Sim_Val_Dict ps),
        (Sim_Val_String ''current_process'',
          Sim_Val_Dict (map (\<lambda>(c, s). (Sim_Val_Integer c, Sim_Val_Integer (uint s))) (current_process d))),
        (Sim_Val_String ''last_pid'', Sim_Val_Integer (last_pid d)),
        (Sim_Val_String ''timer_count'', Sim_Val_Integer (timer_count d)),
        (Sim_Val_String ''kstat_addrs'', get_kstat_addrs d)])
   }"

end
