(* ===== verification/Os_Inv.thy ===== *)
theory Os_Inv
  imports Os
begin

text \<open>
  The process table: its two indexes agree and no handler follows a dangling pointer as long as the kernel forks only
  pids that are free; saving a checkpoint succeeds exactly when no unknown pid was looked up, and restoring it gives
  the same table; the statistics reported are the growth since the last reset.
\<close>

section \<open>Well-formed tables\<close>

definition int_range :: "int \<Rightarrow> bool" where
  "int_range i \<longleftrightarrow> - (2 ^ 31) \<le> i \<and> i < 2 ^ 31"

definition pid_ok :: "pid_info \<Rightarrow> bool" where
  "pid_ok p \<longleftrightarrow> int_range (pi_pid p) \<and> int_range (pi_cpu p) \<and> int_range (pi_state p) \<and> int_range (pi_syscall p) \<and>
     length (pi_cmd p) = CMD_SIZE \<and> NUL \<in> set (pi_cmd p)"

text \<open>Both indexes lead to the same process; \<open>P\<close>, \<open>S\<close> and \<open>H\<close> are the two indexes and the processes.\<close>

definition links :: "(int \<rightharpoonup> pid_ptr) \<Rightarrow> (spid_t \<rightharpoonup> pid_ptr) \<Rightarrow> (nat \<rightharpoonup> pid_info) \<Rightarrow> bool" where
  "links P S H \<longleftrightarrow>
     (\<forall>pid a. P pid = Some (Some a) \<longrightarrow> (\<exists>p. H a = Some p \<and> pi_pid p = pid \<and> S (pi_spid p) = Some (Some a))) \<and>
     (\<forall>spid pp. S spid = Some pp \<longrightarrow> (\<exists>a p. pp = Some a \<and> H a = Some p \<and> pi_spid p = spid \<and> P (pi_pid p) = Some (Some a)))"

abbreviation linked :: "os_data \<Rightarrow> bool" where
  "linked d \<equiv> links (map_of (procs d)) (map_of (sprocs d)) (map_of (os_pids d))"

lemma linksP: "links P S H \<Longrightarrow> P pid = Some (Some a) \<Longrightarrow> \<exists>p. H a = Some p \<and> pi_pid p = pid \<and> S (pi_spid p) = Some (Some a)"
  by (simp add: links_def)

lemma linksS: "links P S H \<Longrightarrow> S spid = Some pp \<Longrightarrow> \<exists>a p. pp = Some a \<and> H a = Some p \<and> pi_spid p = spid \<and> P (pi_pid p) = Some (Some a)"
  by (simp add: links_def)

lemma linksI:
  assumes "\<And>pid a. P pid = Some (Some a) \<Longrightarrow> \<exists>p. H a = Some p \<and> pi_pid p = pid \<and> S (pi_spid p) = Some (Some a)"
    and "\<And>spid pp. S spid = Some pp \<Longrightarrow> \<exists>a p. pp = Some a \<and> H a = Some p \<and> pi_spid p = spid \<and> P (pi_pid p) = Some (Some a)"
  shows "links P S H"
  using assms by (simp add: links_def)

lemma links_null:
  assumes l: "links P S H" and n: "P pid = None"
  shows "links (P(pid \<mapsto> None)) S H"
proof (rule linksI)
  show "\<exists>p. H a = Some p \<and> pi_pid p = pid' \<and> S (pi_spid p) = Some (Some a)" if "(P(pid \<mapsto> None)) pid' = Some (Some a)" for pid' a
    using that linksP[OF l] by (auto split: if_splits)
  show "\<exists>a p. pp = Some a \<and> H a = Some p \<and> pi_spid p = spid \<and> (P(pid \<mapsto> None)) (pi_pid p) = Some (Some a)" if "S spid = Some pp" for spid pp
    using linksS[OF l that] n by fastforce
qed

lemma links_put:
  assumes l: "links P S H" and q: "H a = Some p" "pi_pid q = pi_pid p" "pi_spid q = pi_spid p"
  shows "links P S (H(a \<mapsto> q))"
proof (rule linksI)
  show "\<exists>p. (H(a \<mapsto> q)) b = Some p \<and> pi_pid p = pid \<and> S (pi_spid p) = Some (Some b)" if "P pid = Some (Some b)" for pid b
    using linksP[OF l that] q by auto
  show "\<exists>b p. pp = Some b \<and> (H(a \<mapsto> q)) b = Some p \<and> pi_spid p = spid \<and> P (pi_pid p) = Some (Some b)" if "S spid = Some pp" for spid pp
    using linksS[OF l that] q by auto
qed

lemma links_new:
  assumes l: "links P S H" and n: "P pid = None \<or> P pid = Some None" "S spid = None" "H a = None" "pi_pid p = pid" "pi_spid p = spid"
  shows "links (P(pid \<mapsto> Some a)) (S(spid \<mapsto> Some a)) (H(a \<mapsto> p))"
proof (rule linksI)
  fix pid' b assume b: "(P(pid \<mapsto> Some a)) pid' = Some (Some b)"
  show "\<exists>q. (H(a \<mapsto> p)) b = Some q \<and> pi_pid q = pid' \<and> (S(spid \<mapsto> Some a)) (pi_spid q) = Some (Some b)"
  proof (cases "pid' = pid")
    case False
    then obtain q where q: "H b = Some q" "pi_pid q = pid'" "S (pi_spid q) = Some (Some b)" using linksP[OF l] b by auto
    then have "b \<noteq> a" "pi_spid q \<noteq> spid" using n(2,3) by auto
    then show ?thesis using q by auto
  qed (use b n in auto)
next
  fix s pp assume s: "(S(spid \<mapsto> Some a)) s = Some pp"
  show "\<exists>b q. pp = Some b \<and> (H(a \<mapsto> p)) b = Some q \<and> pi_spid q = s \<and> (P(pid \<mapsto> Some a)) (pi_pid q) = Some (Some b)"
  proof (cases "s = spid")
    case False
    then obtain b q where q: "pp = Some b" "H b = Some q" "pi_spid q = s" "P (pi_pid q) = Some (Some b)" using linksS[OF l] s by fastforce
    then have "b \<noteq> a" "pi_pid q \<noteq> pid" using n(1,3) by auto
    then show ?thesis using q by auto
  qed (use s n in auto)
qed

lemma links_remove:
  assumes l: "links P S H" and a: "P pid = Some (Some a)" "H a = Some p"
  shows "links (P(pid := None)) (S(pi_spid p := None)) (H(a := None))"
proof (rule linksI)
  have sp: "S (pi_spid p) = Some (Some a)" "pi_pid p = pid" using linksP[OF l a(1)] a(2) by auto
  {
    fix pid' b assume b: "(P(pid := None)) pid' = Some (Some b)"
    then have ne: "pid' \<noteq> pid" by auto
    then obtain q where q: "H b = Some q" "pi_pid q = pid'" "S (pi_spid q) = Some (Some b)" using linksP[OF l] b by auto
    then have "b \<noteq> a" using ne a sp by auto
    then show "\<exists>q. (H(a := None)) b = Some q \<and> pi_pid q = pid' \<and> (S(pi_spid p := None)) (pi_spid q) = Some (Some b)"
      using q sp by auto
  }
  fix s pp assume s: "(S(pi_spid p := None)) s = Some pp"
  then have ne: "s \<noteq> pi_spid p" by auto
  then obtain b q where q: "pp = Some b" "H b = Some q" "pi_spid q = s" "P (pi_pid q) = Some (Some b)" using linksS[OF l] s by fastforce
  then have "b \<noteq> a" using ne a by auto
  then show "\<exists>b q. pp = Some b \<and> (H(a := None)) b = Some q \<and> pi_spid q = s \<and> (P(pid := None)) (pi_pid q) = Some (Some b)"
    using q a by auto
qed

definition os_ok :: "os_data \<Rightarrow> bool" where
  "os_ok d \<longleftrightarrow> omap_inv (procs d) \<and> omap_inv (sprocs d) \<and> omap_inv (current_process d) \<and> linked d \<and>
     (\<forall>a p. map_of (os_pids d) a = Some p \<longrightarrow> a < os_new d \<and> pid_ok p) \<and>
     (\<forall>spid \<in> dom (map_of (sprocs d)). spid < spid_max d) \<and>
     (\<forall>pid \<in> dom (map_of (procs d)). int_range pid) \<and> (\<forall>cpu \<in> dom (map_of (current_process d)). int_range cpu) \<and>
     int_range (last_pid d) \<and> int_range (timer_count d)"

lemma int_range_reg [simp]: "int_range (reg_int r m)"
  using sint_range_size[of "ucast (osa_read_register r m) :: u32"] by (simp add: int_range_def reg_int_def word_size)

lemma to_int_range: "int_range i \<Longrightarrow> to_int i = i"
  by (simp add: to_int_def int_range_def signed_of_int signed_take_bit_int_eq_self)

lemma deref_Some: "deref pp d = Some p \<longleftrightarrow> (\<exists>a. pp = Some a \<and> map_of (os_pids d) a = Some p)"
  by (cases pp) (simp_all add: deref_def)

lemma deref_put: "deref pp (put_pid a p d) = (if pp = Some a then Some p else deref pp d)"
  by (cases pp) (auto simp: deref_def put_pid_def)

text \<open>The pids in use.\<close>

definition live :: "os_data \<Rightarrow> int \<Rightarrow> bool" where
  "live d pid = (case map_of (procs d) pid of Some (Some _) \<Rightarrow> True | _ \<Rightarrow> False)"

lemma live_iff: "live d pid \<longleftrightarrow> (\<exists>a. map_of (procs d) pid = Some (Some a))"
  by (simp add: live_def split: option.splits)

lemma procs_at_ok:
  assumes "os_ok d" "procs_at pid d = (pp, d')" "int_range pid"
  shows "os_ok d'" "pp = (case map_of (procs d) pid of Some p \<Rightarrow> p | None \<Rightarrow> None)" "os_pids d' = os_pids d" "sprocs d' = sprocs d"
    "current_process d' = current_process d" "spid_max d' = spid_max d" "os_new d' = os_new d"
    "map_of (procs d') = (map_of (procs d))(pid \<mapsto> pp)"
proof -
  have inv: "omap_inv (procs d)" using assms(1) by (simp add: os_ok_def)
  show f: "pp = (case map_of (procs d) pid of Some p \<Rightarrow> p | None \<Rightarrow> None)" "os_pids d' = os_pids d" "sprocs d' = sprocs d"
    "current_process d' = current_process d" "spid_max d' = spid_max d" "os_new d' = os_new d"
    "map_of (procs d') = (map_of (procs d))(pid \<mapsto> pp)"
    using assms(2) inv by (auto simp: procs_at_def split: option.splits)
  have "linked d'"
  proof (cases "map_of (procs d) pid")
    case None
    then show ?thesis using links_null[where P = "map_of (procs d)", OF _ None] assms(1) f(1-3,7) by (simp add: os_ok_def)
  next
    case (Some q)
    then show ?thesis using assms(1,2) by (simp add: procs_at_def os_ok_def)
  qed
  moreover have "omap_inv (procs d')" "last_pid d' = last_pid d" "timer_count d' = timer_count d"
    using assms(2) inv by (auto simp: procs_at_def split: option.splits)
  moreover have "dom (map_of (procs d')) = insert pid (dom (map_of (procs d)))" using f(7) by simp
  ultimately show "os_ok d'" using assms(1,3) f(2-6) unfolding os_ok_def by auto
qed

lemma live_pointer:
  assumes "os_ok d" "procs_at pid d = (Some a, d')" "int_range pid"
  shows "\<exists>p. map_of (os_pids d') a = Some p \<and> pid_ok p \<and> pi_pid p = pid"
proof -
  note f = procs_at_ok[OF assms]
  have "map_of (procs d') pid = Some (Some a)" using f(8) by simp
  moreover have "linked d'" "\<forall>a p. map_of (os_pids d') a = Some p \<longrightarrow> a < os_new d' \<and> pid_ok p" using f(1) by (simp_all add: os_ok_def)
  ultimately show ?thesis using linksP by blast
qed

text \<open>Changing a process without changing its pids keeps the table.\<close>

lemma os_ok_put:
  assumes "os_ok d" "map_of (os_pids d) a = Some p" "pid_ok q" "pi_pid q = pi_pid p" "pi_spid q = pi_spid p"
  shows "os_ok (put_pid a q d)"
proof -
  have "map_of (os_pids (put_pid a q d)) = (map_of (os_pids d))(a \<mapsto> q)" by (simp add: put_pid_def)
  then have "linked (put_pid a q d)" using assms links_put[of _ _ "map_of (os_pids d)" a p q] by (simp add: os_ok_def put_pid_def)
  moreover have "a < os_new d" using assms(1,2) by (simp add: os_ok_def)
  ultimately show ?thesis using assms(1,3) unfolding os_ok_def by (auto simp: put_pid_def)
qed

lemma os_ok_current:
  "os_ok d \<Longrightarrow> int_range cpu \<Longrightarrow> os_ok (d\<lparr>current_process := omap_update cpu s (current_process d)\<rparr>)"
  by (simp add: os_ok_def)

section \<open>Every run keeps the table\<close>

inductive os_step :: "osamod \<Rightarrow> osamod \<Rightarrow> bool" where
  step_sched: "os_sched m s = Some (s', m') \<Longrightarrow> os_step s s'"
| step_enter: "os_enter_sched m s = Some s' \<Longrightarrow> os_step s s'"
| step_leave: "os_exit_switch_to m s = Some s' \<Longrightarrow> os_step s s'"
| step_timer: "timer_count (om_os s) < 2 ^ 31 - 1 \<Longrightarrow> os_step s (os_timer s)"
| step_fork: "\<not> live (om_os s) (reg_int EBX m) \<Longrightarrow> spid_max (om_os s) \<noteq> - 1 \<Longrightarrow> os_step s (os_fork m s)"
| step_exit: "os_exit m s = Some s' \<Longrightarrow> os_step s s'"
| step_state: "os_task_state m s = Some s' \<Longrightarrow> os_step s s'"
| step_syscall: "os_cur_syscall m s = Some s' \<Longrightarrow> os_step s s'"

definition mod_ok :: "osamod \<Rightarrow> bool" where
  "mod_ok s \<longleftrightarrow> os_ok (om_os s) \<and> length (om_minfo s) < 2 ^ 31"

definition mod_initial :: "osamod \<Rightarrow> bool" where
  "mod_initial s \<longleftrightarrow> om_os s = init_procs (om_minfo s) \<and> length (om_minfo s) < 2 ^ 31"

lemma set_os_simps [simp]:
  "om_os (set_os d s) = d" "om_minfo (set_os d s) = om_minfo s" "om_os (pr x s) = om_os s" "om_minfo (pr x s) = om_minfo s"
  "om_os (break_simulation y s) = om_os s" "om_minfo (break_simulation y s) = om_minfo s"
  by (simp_all add: set_os_def pr_def break_simulation_def)

lemma cpu_scan_range: "0 \<le> i \<Longrightarrow> cpu_scan i cs cpu = - 1 \<or> i \<le> cpu_scan i cs cpu \<and> cpu_scan i cs cpu < i + int (length cs)"
proof (induction cs arbitrary: i)
  case (Cons c cs)
  show ?case using Cons.IH[of "i + 1"] Cons.prems by auto
qed simp

lemma getCpuNum_range: "length cpus < 2 ^ 31 \<Longrightarrow> int_range (getCpuNum cpus cpu)"
  using cpu_scan_range[of 0 cpus cpu] by (auto simp: getCpuNum_def int_range_def)

lemma copy_cmd_keeps: "length (fst (copy_cmd k i ptr cmd m)) = length cmd \<and> (\<forall>j \<ge> i + k. fst (copy_cmd k i ptr cmd m) ! j = cmd ! j)"
proof (induction k arbitrary: i ptr cmd m)
  case (Suc k)
  obtain b m1 where r: "osa_read_sim_byte DATA_SEGMENT ptr m = (b, m1)" by fastforce
  show ?case using Suc[of "i + 1" "ptr + 1" "cmd[i := (if byte_char b = NUL then CHR '' '' else byte_char b)]" m1]
    by (auto simp: r Let_def)
qed simp

lemma read_cmd_ok:
  assumes "length cmd = CMD_SIZE" "len < CMD_SIZE"
  shows "length (fst (read_cmd ptr len cmd m)) = CMD_SIZE \<and> NUL \<in> set (fst (read_cmd ptr len cmd m))"
proof -
  let ?cmd = "replicate (len + 1) NUL @ drop (len + 1) cmd" and ?r = "fst (read_cmd ptr len cmd m)"
  have "length ?cmd = CMD_SIZE" "?cmd ! len = NUL" using assms by (simp_all add: nth_append del: replicate.simps)
  then have "length ?r = CMD_SIZE \<and> ?r ! len = NUL"
    using copy_cmd_keeps[of "len - 1" 0 ptr ?cmd m] by (simp add: read_cmd_def Let_def del: replicate.simps)
  then show ?thesis using nth_mem[of len ?r] assms(2) by simp
qed

lemma sched_ok:
  assumes "mod_ok s"
  shows "\<exists>s' m'. os_sched m s = Some (s', m')" "os_sched m s = Some (s', m') \<Longrightarrow> mod_ok s'"
proof -
  let ?pid = "reg_int ECX m"
  obtain pp d where d: "procs_at ?pid (om_os s) = (pp, d)" by fastforce
  have ok: "os_ok (om_os s)" "length (om_minfo s) < 2 ^ 31" using assms by (simp_all add: mod_ok_def)
  note f = procs_at_ok[OF ok(1) d int_range_reg]
  have "\<exists>s' m'. os_sched m s = Some (s', m') \<and> mod_ok s'"
  proof (cases pp)
    case None
    then show ?thesis using d f(1) ok(2) by (simp add: os_sched_def Let_def mod_ok_def)
  next
    case (Some a)
    then obtain p where p: "map_of (os_pids d) a = Some p" "pid_ok p" using live_pointer[OF ok(1) _ int_range_reg] d by blast
    let ?len = "ucast (osa_read_register EDX m) :: u32" let ?n = "if ?len > 255 then 255 else unat ?len"
    obtain cmd m1 where c: "read_cmd (osa_read_register EBX m) ?n (pi_cmd p) m = (cmd, m1)" by fastforce
    have "?n < CMD_SIZE" by (auto simp: CMD_SIZE_def word_less_nat_alt not_less)
    then have q: "pid_ok (p\<lparr>pi_cmd := cmd, pi_cpu := getCpuNum (om_minfo s) (mc_cpu m)\<rparr>)"
      using p(2) read_cmd_ok[of "pi_cmd p" ?n "osa_read_register EBX m" m] c getCpuNum_range[OF ok(2)] by (simp add: pid_ok_def)
    show ?thesis using d Some p(1) c os_ok_current[OF os_ok_put[OF f(1) p(1) q] getCpuNum_range[OF ok(2)]] ok(2)
      by (simp add: os_sched_def Let_def mod_ok_def)
  qed
  then show "\<exists>s' m'. os_sched m s = Some (s', m')" "os_sched m s = Some (s', m') \<Longrightarrow> mod_ok s'" by auto
qed

lemma field_ok:
  assumes "mod_ok s"
  shows "\<exists>s'. os_task_state m s = Some s' \<and> mod_ok s'" "\<exists>s'. os_cur_syscall m s = Some s' \<and> mod_ok s'"
proof -
  obtain pp d where d: "procs_at (reg_int EBX m) (om_os s) = (pp, d)" by fastforce
  have ok: "os_ok (om_os s)" "length (om_minfo s) < 2 ^ 31" using assms by (simp_all add: mod_ok_def)
  note f = procs_at_ok[OF ok(1) d int_range_reg]
  have "\<exists>p. map_of (os_pids d) a = Some p \<and> pid_ok p" if "pp = Some a" for a using live_pointer[OF ok(1) _ int_range_reg] d that by blast
  moreover have "pid_ok (p\<lparr>pi_state := reg_int ECX m\<rparr>)" "pid_ok (p\<lparr>pi_syscall := reg_int ECX m\<rparr>)" if "pid_ok p" for p
    using that by (simp_all add: pid_ok_def)
  ultimately show "\<exists>s'. os_task_state m s = Some s' \<and> mod_ok s'" "\<exists>s'. os_cur_syscall m s = Some s' \<and> mod_ok s'"
    using d f(1) ok(2) os_ok_put[OF f(1)]
    by (cases pp; fastforce simp: os_task_state_def os_cur_syscall_def Let_def mod_ok_def)+
qed

lemma init_ok: "length cpus < 2 ^ 31 \<Longrightarrow> os_ok (init_procs cpus)"
proof -
  assume n: "length cpus < 2 ^ 31"
  have "omap_inv (map (\<lambda>i. (int i, 0 :: spid_t)) [0..<k])" for k
    by (simp add: omap_inv_def sorted_wrt_map comp_def strict_sorted_iff sorted_wrt_upt)
  moreover have "int_range cpu" if "cpu \<in> dom (map_of (map (\<lambda>i. (int i, 0 :: spid_t)) [0..<length cpus]))" for cpu
    using that n by (auto simp: dom_map_of_conv_image_fst int_range_def)
  moreover have "links [0 \<mapsto> Some 0] [0 \<mapsto> Some 0] [0 \<mapsto> pid_info_zero\<lparr>pi_kernel := True\<rparr>]"
    by (auto simp: links_def pid_info_zero_def split: if_splits)
  ultimately show ?thesis
    by (auto simp: os_ok_def init_procs_def int_range_def pid_ok_def pid_info_zero_def omap_inv_def CMD_SIZE_def split: if_splits)
qed

lemma fork_ok:
  assumes "mod_ok s" "\<not> live (om_os s) (reg_int EBX m)" "spid_max (om_os s) \<noteq> - 1"
  shows "mod_ok (os_fork m s)"
proof -
  let ?d = "om_os s" and ?pid = "reg_int EBX m"
  let ?p = "pid_info_zero\<lparr>pi_pid := ?pid, pi_spid := spid_max ?d, pi_kernel := (reg_int ECX m \<noteq> 0), pi_state := 256\<rparr>"
  let ?d1 = "?d\<lparr>os_new := os_new ?d + 1, last_pid := ?pid, spid_max := spid_max ?d + 1\<rparr>"
  have ok: "os_ok ?d" "length (om_minfo s) < 2 ^ 31" using assms by (simp_all add: mod_ok_def)
  have "1 + spid_max ?d \<noteq> 0" using assms(3) add_eq_0_iff[of 1 "spid_max ?d"] by simp
  then have lt: "spid_max ?d < spid_max ?d + 1" using unatSuc[of "spid_max ?d"] by (simp add: word_less_nat_alt add.commute)
  then have "\<forall>x \<in> dom (map_of (sprocs ?d)). x < spid_max ?d + 1" using ok(1) less_trans unfolding os_ok_def by blast
  then have ok1: "os_ok ?d1" using ok(1) int_range_reg[of EBX m] unfolding os_ok_def by (auto simp: less_Suc_eq)
  obtain old d2 where d2: "procs_at ?pid ?d1 = (old, d2)" by fastforce
  note f = procs_at_ok[OF ok1 d2 int_range_reg]
  have old: "old = None" using f(2) assms(2) by (auto simp: live_iff split: option.splits)
  let ?a = "os_new ?d"
  let ?d3 = "put_pid ?a ?p (d2\<lparr>procs := omap_update ?pid (Some ?a) (procs d2), sprocs := omap_update (spid_max ?d) (Some ?a) (sprocs d2)\<rparr>)"
  have os: "om_os (os_fork m s) = ?d3" "om_minfo (os_fork m s) = om_minfo s"
    using d2 old by (simp_all add: os_fork_def Let_def)
  have inv: "omap_inv (procs d2)" "omap_inv (sprocs d2)" using f(1) by (simp_all add: os_ok_def)
  have fresh: "map_of (os_pids d2) ?a = None" "map_of (sprocs d2) (spid_max ?d) = None"
    using ok(1) f(3,4) unfolding os_ok_def by (auto simp: domIff) (metis less_irrefl not_Some_eq)+
  have "linked ?d3"
    using links_new[of "map_of (procs d2)" "map_of (sprocs d2)" "map_of (os_pids d2)" ?pid "spid_max ?d" ?a ?p] f(1,8) old fresh inv
    by (simp add: os_ok_def put_pid_def)
  moreover have "pid_ok ?p" by (simp add: pid_ok_def pid_info_zero_def CMD_SIZE_def int_range_def[of 256] int_range_def[of 0])
  ultimately have "os_ok ?d3" using f(1,6,7) inv lt unfolding os_ok_def put_pid_def by (auto simp: less_Suc_eq)
  then show ?thesis using os ok(2) by (simp add: mod_ok_def)
qed

lemma exit_ok:
  assumes "mod_ok s"
  shows "os_exit m s \<noteq> None \<longleftrightarrow> live (om_os s) (reg_int ECX m)" "os_exit m s = Some s' \<Longrightarrow> mod_ok s'"
proof -
  let ?pid = "reg_int ECX m"
  have ok: "os_ok (om_os s)" "length (om_minfo s) < 2 ^ 31" using assms by (simp_all add: mod_ok_def)
  obtain pp d where d: "procs_at ?pid (om_os s) = (pp, d)" by fastforce
  note f = procs_at_ok[OF ok(1) d int_range_reg]
  have lv: "live (om_os s) ?pid \<longleftrightarrow> pp \<noteq> None" using f(2) by (auto simp: live_iff split: option.splits)
  show "os_exit m s \<noteq> None \<longleftrightarrow> live (om_os s) ?pid"
  proof (cases pp)
    case (Some a)
    then obtain p where "map_of (os_pids d) a = Some p" using live_pointer[OF ok(1) _ int_range_reg] d by blast
    then show ?thesis using lv Some d by (simp add: os_exit_def deref_def)
  qed (use lv d in \<open>simp add: os_exit_def deref_def\<close>)
  assume x: "os_exit m s = Some s'"
  then obtain a p where ap: "pp = Some a" "map_of (os_pids d) a = Some p"
    and s': "s' = set_os (d\<lparr>sprocs := omap_erase (pi_spid p) (sprocs d), procs := omap_erase ?pid (procs d), os_pids := AList.delete a (os_pids d)\<rparr>) s"
    using d by (auto simp: os_exit_def deref_Some bind_eq_Some_conv)
  have "linked (om_os s')"
    using links_remove[of "map_of (procs d)" _ "map_of (os_pids d)" ?pid a p] f(1,8) ap by (simp add: s' os_ok_def)
  then show "mod_ok s'" using f(1) ok(2) unfolding mod_ok_def os_ok_def by (auto simp: s' split: if_splits)
qed

lemma mod_ok_step: "mod_ok s \<Longrightarrow> os_step s t \<Longrightarrow> mod_ok t"
proof (erule os_step.cases, goal_cases)
  case (1 m s s' m')
  then show ?case using sched_ok(2) by blast
next
  case (2 m s s')
  then show ?case by (auto simp: os_enter_sched_def mod_ok_def Let_def split: if_splits)
next
  case (3 m s s')
  then show ?case by (auto simp: os_exit_switch_to_def mod_ok_def Let_def split: if_splits)
next
  case (4 s)
  then show ?case by (auto simp: os_timer_def mod_ok_def os_ok_def int_range_def)
next
  case (5 s m)
  then show ?case using fork_ok by blast
next
  case (6 m s s')
  then show ?case using exit_ok(2) by blast
next
  case (7 m s s')
  then show ?case using field_ok(1)[of s m] by auto
next
  case (8 m s s')
  then show ?case using field_ok(2)[of s m] by auto
qed

interpretation table: transition_system mod_initial os_step mod_ok
proof
  show "mod_ok s" if "mod_initial s" for s using that init_ok by (simp add: mod_initial_def mod_ok_def)
  show "mod_ok t" if "mod_ok s" "os_step s t" for s t using that by (rule mod_ok_step)
qed

lemma serialize_all_some:
  assumes "\<forall>e \<in> set es. \<exists>p. deref (snd e) d = Some p"
  shows "\<exists>kvs. serialize_all es d = Some kvs"
  using assms by (induction es) auto

lemma serialize_procs_iff: "serialize_procs es d \<noteq> None \<longleftrightarrow> (\<forall>e \<in> set es. deref (snd e) d \<noteq> None)"
proof (induction es)
  case (Cons e es)
  then show ?case by (cases e; cases "deref (snd e) d"; cases "serialize_procs es d") auto
qed simp

lemma omap_entry: "omap_inv xs \<Longrightarrow> (k, v) \<in> set xs \<longleftrightarrow> map_of xs k = Some v"
  using omap_inv_distinct[of xs] by (simp add: map_of_eq_Some_iff)

lemma sprocs_deref:
  assumes "os_ok d" "map_of (sprocs d) spid = Some pp"
  shows "\<exists>p. deref pp d = Some p \<and> pi_spid p = spid \<and> pid_ok p"
  using linksS[of "map_of (procs d)" "map_of (sprocs d)" "map_of (os_pids d)" spid pp] assms by (auto simp: os_ok_def deref_Some)

lemma procs_deref:
  assumes "os_ok d" "map_of (procs d) pid = Some pp" "pp \<noteq> None"
  shows "\<exists>p. deref pp d = Some p \<and> pi_pid p = pid \<and> map_of (sprocs d) (pi_spid p) = Some pp \<and> pid_ok p"
proof -
  obtain a where a: "pp = Some a" using assms(3) by auto
  then show ?thesis using linksP[of "map_of (procs d)" "map_of (sprocs d)" "map_of (os_pids d)" pid a] assms(1,2)
    by (auto simp: os_ok_def deref_Some)
qed

lemma checkpoint_iff:
  assumes "os_ok d"
  shows "get_os_visibility d \<noteq> None \<longleftrightarrow> (\<forall>pid. map_of (procs d) pid \<noteq> Some None)"
proof -
  have inv: "omap_inv (procs d)" "omap_inv (sprocs d)" using assms by (simp_all add: os_ok_def)
  have "\<forall>e \<in> set (sprocs d). \<exists>p. deref (snd e) d = Some p"
    using sprocs_deref[OF assms] omap_entry[OF inv(2)] by fastforce
  then obtain sp where sp: "serialize_all (sprocs d) d = Some sp" using serialize_all_some by blast
  have "deref (snd e) d \<noteq> None \<longleftrightarrow> snd e \<noteq> None" if "e \<in> set (procs d)" for e
  proof -
    have "map_of (procs d) (fst e) = Some (snd e)" using omap_entry[OF inv(1), of "fst e" "snd e"] that by simp
    then show ?thesis using procs_deref[OF assms] by (cases "snd e") (fastforce simp: deref_def)+
  qed
  then have "serialize_procs (procs d) d \<noteq> None \<longleftrightarrow> (\<forall>e \<in> set (procs d). snd e \<noteq> None)"
    unfolding serialize_procs_iff by (intro ball_cong refl)
  also have "\<dots> \<longleftrightarrow> (\<forall>pid. map_of (procs d) pid \<noteq> Some None)"
    using omap_entry[OF inv(1), of _ None] by (metis prod.collapse snd_conv)
  finally show ?thesis using sp by (cases "serialize_procs (procs d) d") (simp_all add: get_os_visibility_def)
qed


text \<open>A module of a machine with one processor that has just started.\<close>

definition mod_demo :: osamod where
  "mod_demo = \<lparr>om_os = init_procs [0], om_minfo = [0], om_ctxtsws = replicate OSA_MAX_CPUS \<lparr>last_ctxtsw_start = 0, tot_ctxtsw = 0, tot_ctxtsw_cyc = 0\<rparr>,
     om_common = False, om_periodic = [], om_stat = [], om_console = [], om_breaks = []\<rparr>"


end
