(* ===== verification/Os_Checkpoint.thy ===== *)
theory Os_Checkpoint
  imports Os_Inv
begin

text \<open>
  Restoring the process table from a checkpoint gives back what was saved, and the kernel statistics reported are the
  growth of the counters since the last reset.
\<close>

section \<open>What a table says\<close>

text \<open>A process as the checkpoint stores it: the command name as a string.\<close>

definition norm :: "pid_info \<Rightarrow> pid_info" where
  "norm p = p\<lparr>pi_cmd := c_string (pi_cmd p)\<rparr>"

definition entry_view :: "os_data \<Rightarrow> pid_ptr \<Rightarrow> pid_info option" where
  "entry_view d pp = map_option norm (deref pp d)"

definition sview :: "os_data \<Rightarrow> spid_t \<Rightarrow> pid_info option" where
  "sview d spid = Option.bind (map_of (sprocs d) spid) (entry_view d)"

definition pview :: "os_data \<Rightarrow> int \<Rightarrow> pid_info option" where
  "pview d pid = Option.bind (map_of (procs d) pid) (entry_view d)"

lemma c_string_strncpy:
  assumes "length cmd = CMD_SIZE" "NUL \<in> set cmd"
  shows "c_string (strncpy CMD_SIZE (c_string cmd)) = c_string cmd"
proof -
  have "NUL \<in> set s \<Longrightarrow> length (c_string s) < length s" for s by (induction s) (auto simp: c_string_def)
  then have "length (c_string cmd) < CMD_SIZE" using assms by metis
  moreover have idem: "c_string (c_string cmd) = c_string cmd" by (simp add: c_string_def takeWhile_idem)
  moreover have "c_string (c_string cmd @ replicate n NUL) = c_string (c_string cmd)" for n
    using c_string_NUL[of "c_string cmd" "replicate (n - 1) NUL"] by (cases n) simp_all
  ultimately show ?thesis by (simp add: strncpy_def Let_def)
qed

lemma pid_round_trip:
  assumes "pid_ok p"
  shows "\<exists>q. deserialize_pid_info (serialize_pid_info p) = Some q \<and> norm q = norm p \<and> pi_spid q = pi_spid p"
  using assms c_string_strncpy[of "pi_cmd p"]
  by (simp add: pid_ok_def deserialize_pid_info_def serialize_pid_info_def dict_get_def to_int_range norm_def)

section \<open>Restoring\<close>

text \<open>What the restoring loops rely on: sorted indexes and pointers to objects that exist already.\<close>

definition ptrs_ok :: "os_data \<Rightarrow> bool" where
  "ptrs_ok d \<longleftrightarrow> omap_inv (procs d) \<and> omap_inv (sprocs d) \<and> omap_inv (current_process d) \<and>
     (\<forall>spid a. map_of (sprocs d) spid = Some (Some a) \<longrightarrow> a < os_new d) \<and>
     (\<forall>pid a. map_of (procs d) pid = Some (Some a) \<longrightarrow> a < os_new d)"

text \<open>The fields a restoring step does not touch.\<close>

definition same_rest :: "os_data \<Rightarrow> os_data \<Rightarrow> bool" where
  "same_rest d d' \<longleftrightarrow> current_process d' = current_process d \<and> kstats d' = kstats d \<and> spid_max d' = spid_max d \<and>
     last_pid d' = last_pid d \<and> timer_count d' = timer_count d"

lemma entry_view_new: "a \<noteq> b \<Longrightarrow> entry_view (put_pid b p (d\<lparr>os_new := n\<rparr>)) (Some a) = entry_view d (Some a)"
  by (simp add: entry_view_def deref_def put_pid_def)

lemma entry_view_None [simp]: "entry_view d None = None"
  by (simp add: entry_view_def deref_def)

lemma restore_one:
  fixes spid :: spid_t
  assumes ok: "ptrs_ok d" and p: "norm q = norm p"
  defines "d1 \<equiv> put_pid (os_new d) q (d\<lparr>os_new := os_new d + 1\<rparr>)"
  defines "d2 \<equiv> d1\<lparr>sprocs := omap_update spid (Some (os_new d)) (sprocs d1)\<rparr>"
  shows "ptrs_ok d2 \<and> sview d2 = (sview d)(spid \<mapsto> norm p) \<and> pview d2 = pview d \<and> procs d2 = procs d \<and> same_rest d d2"
proof -
  have f: "sprocs d2 = omap_update spid (Some (os_new d)) (sprocs d)" "procs d2 = procs d" "os_new d2 = os_new d + 1"
    "map_of (os_pids d2) = (map_of (os_pids d))(os_new d \<mapsto> q)" "current_process d2 = current_process d"
    by (simp_all add: d2_def d1_def put_pid_def)
  have ev: "entry_view d2 (Some a) = (if a = os_new d then Some (norm p) else entry_view d (Some a))" for a
    using p by (simp add: entry_view_def deref_def f(4))
  have inv: "omap_inv (sprocs d)" using ok by (simp add: ptrs_ok_def)
  have "sview d2 x = ((sview d)(spid \<mapsto> norm p)) x" for x
  proof (cases "x = spid")
    case False
    then have m: "map_of (sprocs d2) x = map_of (sprocs d) x" using inv by (simp add: f(1))
    have "entry_view d2 pp = entry_view d pp" if "map_of (sprocs d) x = Some pp" for pp
      using that ok ev by (cases pp) (auto simp: ptrs_ok_def)
    then show ?thesis using False m by (cases "map_of (sprocs d) x") (auto simp: sview_def)
  qed (simp add: sview_def f(1) inv ev)
  moreover have "pview d2 x = pview d x" for x
  proof -
    have "entry_view d2 pp = entry_view d pp" if "map_of (procs d) x = Some pp" for pp
      using that ok ev by (cases pp) (auto simp: ptrs_ok_def)
    then show ?thesis using f(2) by (cases "map_of (procs d) x") (auto simp: pview_def)
  qed
  moreover have "ptrs_ok d2" using ok inv unfolding ptrs_ok_def f(2,3,5) by (auto simp: f(1) less_Suc_eq split: if_splits)
  moreover have "same_rest d d2" by (simp add: same_rest_def d2_def d1_def put_pid_def)
  ultimately show ?thesis using f(2) by (auto simp: fun_eq_iff)
qed

text \<open>The processes a list of entries of the saved table stands for.\<close>

definition saved :: "os_data \<Rightarrow> ('k \<times> pid_ptr) list \<Rightarrow> 'k \<Rightarrow> pid_info option" where
  "saved d0 es k = Option.bind (map_of es k) (entry_view d0)"

lemma restore_sprocs_view:
  assumes "ptrs_ok d" "serialize_all es d0 = Some kvs" "distinct (map fst es)" "\<forall>e \<in> set es. \<exists>p. deref (snd e) d0 = Some p \<and> pid_ok p"
  shows "\<exists>d'. restore_sprocs kvs d = Some d' \<and> ptrs_ok d' \<and> sview d' = sview d ++ saved d0 es \<and> pview d' = pview d \<and>
    procs d' = procs d \<and> same_rest d d'"
  using assms
proof (induction es arbitrary: d kvs)
  case Nil
  then show ?case by (auto simp: saved_def same_rest_def map_add_def fun_eq_iff)
next
  case (Cons e es)
  obtain spid pp where e: "e = (spid, pp)" by fastforce
  obtain p where p: "deref pp d0 = Some p" "pid_ok p" using Cons.prems(4) e by auto
  obtain q where q: "deserialize_pid_info (serialize_pid_info p) = Some q" "norm q = norm p" using pid_round_trip[OF p(2)] by blast
  obtain kvs' where kvs': "serialize_all es d0 = Some kvs'" "kvs = (Sim_Val_Integer (uint spid), serialize_pid_info p) # kvs'"
    using Cons.prems(2) e p by (auto simp: bind_eq_Some_conv)
  let ?d1 = "put_pid (os_new d) q (d\<lparr>os_new := os_new d + 1\<rparr>)"
  let ?d2 = "?d1\<lparr>sprocs := omap_update spid (Some (os_new d)) (sprocs ?d1)\<rparr>"
  have one: "ptrs_ok ?d2" "sview ?d2 = (sview d)(spid \<mapsto> norm p)" "pview ?d2 = pview d" "procs ?d2 = procs d" "same_rest d ?d2"
    using restore_one[OF Cons.prems(1) q(2), of spid] by simp_all
  obtain d' where d': "restore_sprocs kvs' ?d2 = Some d'" "ptrs_ok d'" "sview d' = sview ?d2 ++ saved d0 es" "pview d' = pview ?d2"
    "procs d' = procs ?d2" "same_rest ?d2 d'"
    using Cons.IH[OF one(1) kvs'(1)] Cons.prems(3,4) by auto
  have "restore_sprocs kvs d = Some d'" using d'(1) q(1) by (simp add: kvs'(2) Let_def)
  moreover have "map_of es spid = None" using Cons.prems(3) e by (simp add: map_of_eq_None_iff)
  then have "sview d' = sview d ++ saved d0 (e # es)"
    using d'(3) one(2) p(1) e by (auto simp: saved_def map_add_def fun_eq_iff entry_view_def split: option.splits)
  moreover have "same_rest d d'" using one(5) d'(6) by (simp add: same_rest_def)
  ultimately show ?case using d'(2,4,5) one(3,4) by simp
qed

lemma restore_procs_view:
  assumes "ptrs_ok d" "serialize_procs es d0 = Some kvs" "distinct (map fst es)"
    "\<forall>e \<in> set es. int_range (fst e) \<and> (\<exists>p. deref (snd e) d0 = Some p \<and> sview d (pi_spid p) = Some (norm p))"
  shows "\<exists>d'. restore_procs kvs d = Some d' \<and> ptrs_ok d' \<and> pview d' = pview d ++ saved d0 es \<and> sview d' = sview d \<and> same_rest d d'"
  using assms
proof (induction es arbitrary: d kvs)
  case Nil
  then show ?case by (auto simp: saved_def same_rest_def map_add_def fun_eq_iff)
next
  case (Cons e es)
  obtain pid pp where e: "e = (pid, pp)" by fastforce
  obtain p where p: "int_range pid" "deref pp d0 = Some p" "sview d (pi_spid p) = Some (norm p)" using Cons.prems(4) e by auto
  obtain kvs' where kvs': "serialize_procs es d0 = Some kvs'" "kvs = (Sim_Val_Integer pid, Sim_Val_Integer (uint (pi_spid p))) # kvs'"
    using Cons.prems(2) e p by (auto simp: bind_eq_Some_conv)
  obtain a where a: "map_of (sprocs d) (pi_spid p) = Some (Some a)" "entry_view d (Some a) = Some (norm p)"
    using p(3) by (auto simp: sview_def bind_eq_Some_conv) (metis entry_view_None not_Some_eq)
  let ?d = "d\<lparr>procs := omap_update pid (Some a) (procs d)\<rparr>"
  have inv: "omap_inv (procs d)" using Cons.prems(1) by (simp add: ptrs_ok_def)
  have ev: "entry_view ?d = entry_view d" by (simp add: entry_view_def deref_def fun_eq_iff)
  have one: "ptrs_ok ?d" "sview ?d = sview d" "pview ?d = (pview d)(pid \<mapsto> norm p)"
    using Cons.prems(1) a inv by (auto simp: ptrs_ok_def sview_def pview_def ev fun_eq_iff)
  obtain d' where d': "restore_procs kvs' ?d = Some d'" "ptrs_ok d'" "pview d' = pview ?d ++ saved d0 es" "sview d' = sview ?d" "same_rest ?d d'"
    using Cons.IH[OF one(1) kvs'(1)] Cons.prems(3,4) one(2) by auto
  have "restore_procs kvs d = Some d'" using d'(1) a(1) p(1) by (simp add: kvs'(2) sprocs_at_def to_int_range Let_def)
  moreover have "map_of es pid = None" using Cons.prems(3) e by (simp add: map_of_eq_None_iff)
  then have "pview d' = pview d ++ saved d0 (e # es)"
    using d'(3) one(3) p(2) e by (auto simp: saved_def map_add_def fun_eq_iff entry_view_def split: option.splits)
  moreover have "same_rest d d'" using d'(5) by (simp add: same_rest_def)
  ultimately show ?case using d'(2,4) one(2) by simp
qed

lemma restore_current_view:
  assumes "omap_inv (current_process d)" "\<forall>e \<in> set cp. int_range (fst e)" "distinct (map fst cp)"
  shows "\<exists>c. restore_current (map (\<lambda>(c, s). (Sim_Val_Integer c, Sim_Val_Integer (uint s))) cp) d = Some (d\<lparr>current_process := c\<rparr>) \<and>
    map_of c = map_of (current_process d) ++ map_of cp"
  using assms
proof (induction cp arbitrary: d)
  case Nil
  show ?case by (rule exI[of _ "current_process d"]) simp
next
  case (Cons e cp)
  obtain cpu s where e: "e = (cpu, s)" by fastforce
  let ?d = "d\<lparr>current_process := omap_update cpu s (current_process d)\<rparr>"
  have hyps: "omap_inv (current_process ?d)" "\<forall>e \<in> set cp. int_range (fst e)" "distinct (map fst cp)" using Cons.prems by auto
  obtain c where c: "restore_current (map (\<lambda>(c, s). (Sim_Val_Integer c, Sim_Val_Integer (uint s))) cp) ?d = Some (?d\<lparr>current_process := c\<rparr>)"
    "map_of c = map_of (current_process ?d) ++ map_of cp"
    using Cons.IH[of ?d, OF hyps] by blast
  have "cpu \<notin> dom (map_of cp)" using Cons.prems(3) e by (simp add: dom_map_of_conv_image_fst)
  then have "map_of c = map_of (current_process d) ++ map_of (e # cp)"
    using c(2) Cons.prems(1) e by (auto simp: map_add_def fun_eq_iff split: option.splits)
  moreover have "restore_current (map (\<lambda>(c, s). (Sim_Val_Integer c, Sim_Val_Integer (uint s))) (e # cp)) d = Some (d\<lparr>current_process := c\<rparr>)"
    using c(1) Cons.prems(2) e by (simp add: to_int_range)
  ultimately show ?case by blast
qed

lemma os_ok_ptrs: "os_ok d \<Longrightarrow> ptrs_ok d"
  unfolding os_ok_def ptrs_ok_def links_def by blast

lemma set_get_kstats: "set_kstat_addrs (get_kstat_addrs d) e = Some (e\<lparr>kstats := kstats e @ kstats d\<rparr>)"
  by (simp add: set_kstat_addrs_def get_kstat_addrs_def list_all_iff o_def)

lemma map_add_covers: "dom f \<subseteq> dom g \<Longrightarrow> f ++ g = g"
  by (auto simp: map_add_def fun_eq_iff split: option.splits)

lemma saved_sprocs: "os_ok d \<Longrightarrow> \<forall>e \<in> set (sprocs d). \<exists>p. deref (snd e) d = Some p \<and> pid_ok p"
  using sprocs_deref[of d] omap_entry[of "sprocs d"] by (fastforce simp: os_ok_def)

lemma saved_procs:
  assumes ok: "os_ok d" and full: "\<forall>pid. map_of (procs d) pid \<noteq> Some None"
  shows "\<forall>e \<in> set (procs d). int_range (fst e) \<and> (\<exists>p. deref (snd e) d = Some p \<and> sview d (pi_spid p) = Some (norm p))"
proof
  fix e assume "e \<in> set (procs d)"
  moreover have "omap_inv (procs d)" using ok by (simp add: os_ok_def)
  ultimately have e: "map_of (procs d) (fst e) = Some (snd e)" using omap_entry[of "procs d" "fst e" "snd e"] by simp
  then have "snd e \<noteq> None" using full by metis
  then show "int_range (fst e) \<and> (\<exists>p. deref (snd e) d = Some p \<and> sview d (pi_spid p) = Some (norm p))"
    using procs_deref[OF ok e] ok e by (auto simp: os_ok_def sview_def entry_view_def)
qed

lemma view_dom:
  assumes ok: "os_ok d" and full: "\<forall>pid. map_of (procs d) pid \<noteq> Some None"
  shows "map_of (sprocs d) x \<noteq> None \<Longrightarrow> x \<in> dom (sview d)" "map_of (procs d) y \<noteq> None \<Longrightarrow> y \<in> dom (pview d)"
proof -
  show "x \<in> dom (sview d)" if x: "map_of (sprocs d) x \<noteq> None"
  proof -
    obtain pp where pp: "map_of (sprocs d) x = Some pp" using x by auto
    show ?thesis using sprocs_deref[OF ok pp] pp by (auto simp: sview_def entry_view_def)
  qed
  show "y \<in> dom (pview d)" if y: "map_of (procs d) y \<noteq> None"
  proof -
    obtain pp where pp: "map_of (procs d) y = Some pp" "pp \<noteq> None" using y full by (metis not_None_eq)
    show ?thesis using procs_deref[OF ok pp] pp by (auto simp: pview_def entry_view_def)
  qed
qed

text \<open>
  C21. A checkpoint of a consistent table without null entries can be saved, and restoring it into a freshly started module of
  the same machine gives back every process under its pid and its spid, the process each processor runs, the statistics
  addresses and the counters.
\<close>

theorem checkpoint_round_trip:
  assumes ok: "os_ok d" and full: "\<forall>pid. map_of (procs d) pid \<noteq> Some None"
    and idle: "map_of (procs d) 0 \<noteq> None" "map_of (sprocs d) 0 \<noteq> None"
    and cpus: "\<forall>i < length cpus. map_of (current_process d) (int i) \<noteq> None" "length cpus < 2 ^ 31"
  shows "\<exists>v d'. get_os_visibility d = Some v \<and> set_os_visibility v (init_procs cpus) = Some d' \<and>
    pview d' = pview d \<and> sview d' = sview d \<and> map_of (current_process d') = map_of (current_process d) \<and>
    kstats d' = kstats d \<and> spid_max d' = spid_max d \<and> last_pid d' = last_pid d \<and> timer_count d' = timer_count d"
proof -
  have inv: "omap_inv (procs d)" "omap_inv (sprocs d)" "omap_inv (current_process d)" using ok by (simp_all add: os_ok_def)
  note dist = inv[THEN omap_inv_distinct]
  note S = saved_sprocs[OF ok] and P = saved_procs[OF ok full]
  obtain sp where sp: "serialize_all (sprocs d) d = Some sp" using serialize_all_some S by blast
  obtain ps where ps: "serialize_procs (procs d) d = Some ps" using serialize_procs_iff[of "procs d" d] P by fastforce
  have views: "saved d (sprocs d) = sview d" "saved d (procs d) = pview d" by (auto simp: saved_def sview_def pview_def fun_eq_iff)
  let ?i = "(init_procs cpus)\<lparr>spid_max := spid_max d\<rparr>"
  have i: "ptrs_ok ?i" using os_ok_ptrs[OF init_ok[OF cpus(2)]] by (simp add: ptrs_ok_def)
  have dv: "0 \<in> dom (sview d)" "0 \<in> dom (pview d)" using view_dom[OF ok full] idle by auto
  have iv: "sview ?i ++ sview d = sview d" "pview ?i ++ pview d = pview d"
    using dv by (auto intro!: map_add_covers simp: sview_def pview_def init_procs_def split: if_splits)
  obtain d1 where d1: "restore_sprocs sp ?i = Some d1" "ptrs_ok d1" "sview d1 = sview d" "pview d1 = pview ?i" "same_rest ?i d1"
    using restore_sprocs_view[OF i sp dist(2) S] views iv by auto
  obtain d2 where d2: "restore_procs ps d1 = Some d2" "ptrs_ok d2" "pview d2 = pview d" "sview d2 = sview d" "same_rest d1 d2"
    using restore_procs_view[OF d1(2) ps dist(1)] P d1(3,4) views iv by auto
  have cr: "\<forall>e \<in> set (current_process d). int_range (fst e)" using ok omap_entry[OF inv(3)] unfolding os_ok_def by fastforce
  obtain c where c: "restore_current (map (\<lambda>(c, s). (Sim_Val_Integer c, Sim_Val_Integer (uint s))) (current_process d)) d2 = Some (d2\<lparr>current_process := c\<rparr>)"
    "map_of c = map_of (current_process d2) ++ map_of (current_process d)"
    using restore_current_view[OF _ cr dist(3), of d2] d2(2) unfolding ptrs_ok_def by blast
  have "dom (map_of (current_process d2)) \<subseteq> dom (map_of (current_process d))"
    using d1(5) d2(5) cpus(1) by (auto simp: same_rest_def init_procs_def dest!: map_of_SomeD)
  then have cp: "map_of c = map_of (current_process d)" using c(2) map_add_covers by metis
  let ?d3 = "d2\<lparr>current_process := c, last_pid := last_pid d, timer_count := timer_count d, kstats := kstats d\<rparr>"
  have rg: "int_range (last_pid d)" "int_range (timer_count d)" "kstats d2 = []"
    using ok d1(5) d2(5) by (simp_all add: os_ok_def same_rest_def init_procs_def)
  obtain v where v: "get_os_visibility d = Some v" "set_os_visibility v (init_procs cpus) = Some ?d3"
    using sp ps d1(1) d2(1) c(1) rg
    by (simp add: get_os_visibility_def set_os_visibility_def dict_get_def set_get_kstats to_int_range)
  have "entry_view ?d3 = entry_view d2" by (simp add: entry_view_def deref_def fun_eq_iff)
  then have "pview ?d3 = pview d2" "sview ?d3 = sview d2" by (intro ext; simp add: pview_def sview_def)+
  moreover have "spid_max d2 = spid_max d" using d1(5) d2(5) by (simp add: same_rest_def)
  ultimately show ?thesis using v cp d2(3,4) by (intro exI[of _ v] exI[of _ ?d3]) simp
qed

text \<open>A table with the idle process and a process 16 that is running.\<close>

definition os_demo :: os_data where
  "os_demo = om_os (os_fork mc_demo mod_demo)"

lemma os_demo_ok: "os_ok os_demo"
proof -
  have "mod_ok mod_demo" using init_ok[of "[0]"] by (simp add: mod_ok_def mod_demo_def)
  moreover have "\<not> live (om_os mod_demo) (reg_int EBX mc_demo)" "spid_max (om_os mod_demo) \<noteq> - 1" by code_simp+
  ultimately show ?thesis using fork_ok by (simp add: os_demo_def mod_ok_def)
qed

theorem checkpoint_round_trip_witness:
  "\<exists>v d'. get_os_visibility os_demo = Some v \<and> set_os_visibility v (init_procs [0]) = Some d' \<and>
    pview d' = pview os_demo \<and> sview d' = sview os_demo \<and> map_of (current_process d') = map_of (current_process os_demo) \<and>
    kstats d' = kstats os_demo \<and> spid_max d' = spid_max os_demo \<and> last_pid d' = last_pid os_demo \<and> timer_count d' = timer_count os_demo"
proof -
  have t: "procs os_demo = [(0, Some 0), (16, Some 1)]" "map_of (sprocs os_demo) 0 = Some (Some 0)" "current_process os_demo = [(0, 0)]"
    by code_simp+
  show ?thesis by (rule checkpoint_round_trip[OF os_demo_ok]) (simp_all add: t)
qed

section \<open>Growth of the statistics\<close>

text \<open>The machine unchanged, or changed only in what was printed and in the exception pending.\<close>

definition calm :: "machine \<Rightarrow> machine \<Rightarrow> bool" where
  "calm m m' \<longleftrightarrow> m' = m \<or> quiet m m'"

lemma calm_quiet: "calm m m' \<Longrightarrow> quiet m' m'' \<Longrightarrow> quiet m m''" "quiet m m' \<Longrightarrow> calm m' m'' \<Longrightarrow> quiet m m''"
  using quiet_trans by (auto simp: calm_def)

lemma calm_trans: "calm m m' \<Longrightarrow> calm m' m'' \<Longrightarrow> calm m m''"
  using quiet_trans by (auto simp: calm_def)

lemma calm_values: "calm m m' \<Longrightarrow> phys_value m' = phys_value m \<and> mc_mask m' = mc_mask m \<and> mc_cycles m' = mc_cycles m"
  using quiet_values quiet_fields by (auto simp: calm_def)

text \<open>The counters of one processor in the memory of a machine.\<close>

definition kstat_at :: "machine \<Rightarrow> u64 \<Rightarrow> PeriodicData" where
  "kstat_at m pa =
     (let v = (\<lambda>i :: nat. phys_value m ((pa + 8 * of_nat i) AND mc_mask m) 8)
      in \<lparr>pd_user = v 0, pd_nice = v 1, pd_system = v 2, pd_softirq = v 3, pd_irq = v 4, pd_idle = v 5, pd_iowait = v 6, pd_steal = v 7\<rparr>)"

lemma kstat_at_calm: "calm m m' \<Longrightarrow> kstat_at m' = kstat_at m"
  by (simp add: kstat_at_def calm_values fun_eq_iff)

lemma read8_value:
  "\<exists>m'. read8 k pa m = (map (\<lambda>i. phys_value m ((pa + 8 * of_nat i) AND mc_mask m) 8) [0..<k], m') \<and> calm m m'"
proof (induction k arbitrary: pa m)
  case (Suc k)
  obtain m1 where m1: "osa_read_sim_8bytes_phys pa m = (phys_value m (pa AND mc_mask m) 8, m1)" "quiet m m1"
    using read_8_phys by blast
  obtain m2 where m2: "read8 k (pa + 8) m1 = (map (\<lambda>i. phys_value m1 ((pa + 8 + 8 * of_nat i) AND mc_mask m1) 8) [0..<k], m2)" "calm m1 m2"
    using Suc[of "pa + 8" m1] by blast
  have "[0..<Suc k] = 0 # map Suc [0..<k]" by (simp add: map_Suc_upt upt_conv_Cons)
  moreover have "calm m m2" using calm_quiet(2)[OF m1(2) m2(2)] by (simp add: calm_def)
  ultimately show ?case using m1 m2 quiet_values[OF m1(2)] quiet_fields[OF m1(2)] by (simp add: o_def algebra_simps)
qed (simp add: calm_def)

lemma read_kstat_value: "\<exists>m'. read_kstat pa m = (kstat_at m pa, m') \<and> calm m m'"
  using read8_value[of 8 pa m] by (auto simp: read_kstat_def kstat_at_def Let_def)

lemma snapshot_loop_value: "\<exists>m'. snapshot_loop as (length as) m = Some (map (\<lambda>a. kstat_at m (ucast a)) as, m') \<and> calm m m'"
proof (induction as arbitrary: m)
  case (Cons a as)
  obtain m1 where m1: "read_kstat (ucast a) m = (kstat_at m (ucast a), m1)" "calm m m1" using read_kstat_value by blast
  obtain m2 where "snapshot_loop as (length as) m1 = Some (map (\<lambda>a. kstat_at m1 (ucast a)) as, m2)" "calm m1 m2" using Cons by blast
  then show ?case using m1 calm_trans[OF m1(2)] kstat_at_calm[OF m1(2)] by simp
qed (simp add: calm_def)

lemma take_loop_value:
  assumes "length qs = length as"
  shows "\<exists>m'. take_loop cpu i as qs m = Some (concat (map (\<lambda>(j, a, q). kstat_line ''KSTAT_SNAPSHOT cpu'' j (mc_cycles m cpu) (kstat_diff (kstat_at m (ucast a)) q))
    (zip [i..<i + length as] (zip as qs))), m') \<and> calm m m'"
  using assms
proof (induction as arbitrary: qs i m)
  case (Cons a as)
  obtain q qs' where q: "qs = q # qs'" "length qs' = length as" using Cons.prems by (cases qs) auto
  obtain m1 where m1: "read_kstat (ucast a) m = (kstat_at m (ucast a), m1)" "calm m m1" using read_kstat_value by blast
  obtain m2 where m2: "take_loop cpu (Suc i) as qs' m1 = Some (concat (map (\<lambda>(j, a, q). kstat_line ''KSTAT_SNAPSHOT cpu'' j (mc_cycles m1 cpu)
      (kstat_diff (kstat_at m1 (ucast a)) q)) (zip [Suc i..<Suc i + length as] (zip as qs'))), m2)" "calm m1 m2"
    using Cons.IH[OF q(2)] by blast
  have "[i..<i + length (a # as)] = i # [Suc i..<Suc i + length as]" by (simp add: upt_conv_Cons del: upt_Suc)
  then show ?case using m1 m2 q(1) calm_trans[OF m1(2) m2(2)] kstat_at_calm[OF m1(2)] calm_values[OF m1(2)] by (simp del: upt_Suc)
qed (simp add: calm_def)

text \<open>
  For a 2.6 kernel, after the statistics were reset in one state of the machine, the report in a later state has one
  line for each processor's counters with what each of the eight counters has grown by, modulo the width of a counter.
\<close>

theorem kstats_report_growth:
  assumes v: "kernel_version (om_os s) = Some v" "v \<ge> 2600" and cpu: "om_minfo s = c # cs"
    and len: "length (snapshot (om_os s)) = length (kstats (om_os s))"
  shows "\<exists>s' m1 m2. prepare_kstats_snapshot m s = Some (s', m1) \<and>
    take_kstats_snapshot m' s' = Some (concat (map (\<lambda>(i, a). kstat_line ''KSTAT_SNAPSHOT cpu'' i (mc_cycles m' c)
      (kstat_diff (kstat_at m' (ucast a)) (kstat_at m (ucast a)))) (enumerate 0 (kstats (om_os s)))), m2)"
proof -
  let ?d = "om_os s" and ?qs = "map (\<lambda>a. kstat_at m (ucast a)) (kstats (om_os s))"
  obtain m1 where m1: "snapshot_loop (kstats ?d) (length (kstats ?d)) m = Some (?qs, m1)" using snapshot_loop_value by blast
  let ?s = "set_os (?d\<lparr>snapshot := ?qs\<rparr>) s"
  have p: "prepare_kstats_snapshot m s = Some (?s, m1)"
    using v cpu len m1 by (simp add: prepare_kstats_snapshot_def getCpu_def Let_def)
  obtain m2 where m2: "take_loop c 0 (kstats ?d) ?qs m' = Some (concat (map (\<lambda>(j, a, q). kstat_line ''KSTAT_SNAPSHOT cpu'' j (mc_cycles m' c)
      (kstat_diff (kstat_at m' (ucast a)) q)) (zip [0..<0 + length (kstats ?d)] (zip (kstats ?d) ?qs))), m2)"
    using take_loop_value[of ?qs "kstats ?d" c 0 m'] by auto
  have z: "zip xs (zip ys (map f ys)) = map (\<lambda>(i, a). (i, a, f a)) (zip xs ys)" for xs :: "nat list" and ys and f :: "u32 \<Rightarrow> PeriodicData"
    by (induction xs ys rule: list_induct2') auto
  have "take_kstats_snapshot m' ?s = take_loop c 0 (kstats ?d) ?qs m'"
    using v cpu by (simp add: take_kstats_snapshot_def getCpu_def Let_def)
  then show ?thesis using p m2 by (auto simp: z enumerate_eq_zip o_def case_prod_beta')
qed

theorem kstats_report_growth_witness:
  "\<exists>s' m1 m2. prepare_kstats_snapshot mc_demo (set_os (os_demo\<lparr>kernel_version := Some 2600, kstats := [0x1000], snapshot := [PeriodicData_new]\<rparr>) mod_demo) = Some (s', m1) \<and>
    take_kstats_snapshot (mc_demo\<lparr>mc_mem := (mc_mem mc_demo)(0x1000 \<mapsto> 0x65)\<rparr>) s' = Some (kstat_line ''KSTAT_SNAPSHOT cpu'' 0 100
      (PeriodicData_new\<lparr>pd_user := 4\<rparr>), m2)"
proof -
  let ?m = "mc_demo\<lparr>mc_mem := (mc_mem mc_demo)(0x1000 \<mapsto> 0x65)\<rparr>"
  let ?s = "set_os (os_demo\<lparr>kernel_version := Some 2600, kstats := [0x1000], snapshot := [PeriodicData_new]\<rparr>) mod_demo"
  have "kstat_diff (kstat_at ?m (ucast (0x1000 :: u32))) (kstat_at mc_demo (ucast (0x1000 :: u32))) = PeriodicData_new\<lparr>pd_user := 4\<rparr>"
    by (simp add: kstat_diff_def kstat_at_def phys_value_def phys_bytes_def mc_demo_def PeriodicData_new_def upt_rec Let_def)
  moreover have "mc_cycles ?m 0 = 100" "om_minfo ?s = [0]" by (simp_all add: mc_demo_def mod_demo_def)
  ultimately show ?thesis using kstats_report_growth[of ?s 2600 0 "[]" mc_demo ?m] by (simp add: enumerate_eq_zip)
qed

end
