(* ===== verification/Splay.thy ===== *)
theory Splay
  imports Simulator "HOL-Library.Tree" "HOL-Library.Monad_Syntax"
begin

text \<open>
  The splay tree of the allocation history (\<^verbatim>\<open>common/allochist.cc\<close>): nodes linked by parent, left and right
  pointers in an explicit store.  An address is a number, 0 is the null pointer; \<open>None\<close> is the use of a pointer
  that is null or not allocated, and a loop that never ends.  Each assignment of the source is one store update.
  \<^verbatim>\<open>malloc\<close> hands out increasing addresses below a limit and the null pointer beyond it.
\<close>

type_synonym ptr = nat

section \<open>Nodes and their store\<close>

record s_node =
  sn_val :: u32
  sn_sz :: u64
  sn_parent :: ptr
  sn_left :: ptr
  sn_right :: ptr

type_synonym node_heap = "ptr \<Rightarrow> s_node option"

definition upd :: "(s_node \<Rightarrow> s_node) \<Rightarrow> ptr \<Rightarrow> node_heap \<Rightarrow> node_heap" where
  "upd f p h = h(p := map_option f (h p))"

definition assign :: "(s_node \<Rightarrow> s_node) \<Rightarrow> ptr \<Rightarrow> node_heap \<Rightarrow> node_heap option" where
  "assign f p h = (case h p of None \<Rightarrow> None | Some _ \<Rightarrow> Some (upd f p h))"

definition field :: "(s_node \<Rightarrow> ptr) \<Rightarrow> ptr \<Rightarrow> node_heap \<Rightarrow> ptr option" where
  "field f p h = map_option f (h p)"

abbreviation "set_parent p q \<equiv> assign (\<lambda>n. n\<lparr>sn_parent := q\<rparr>) p"
abbreviation "set_left p q \<equiv> assign (\<lambda>n. n\<lparr>sn_left := q\<rparr>) p"
abbreviation "set_right p q \<equiv> assign (\<lambda>n. n\<lparr>sn_right := q\<rparr>) p"

section \<open>Search\<close>

text \<open>The loop of \<open>_s_find\<close>; \<open>last_n\<close> is the node of the turn before.\<close>

partial_function (option) s_find_loop :: "u32 \<Rightarrow> node_heap \<Rightarrow> ptr \<Rightarrow> ptr \<Rightarrow> ptr option" where
  "s_find_loop v h ret last_n =
     (if ret = 0 then Some last_n
      else do {
        n \<leftarrow> h ret;
        if sn_val n = v then Some ret
        else if v < sn_val n then s_find_loop v h (sn_left n) ret
        else s_find_loop v h (sn_right n) ret
      })"

definition s_find :: "ptr \<Rightarrow> u32 \<Rightarrow> node_heap \<Rightarrow> ptr option" where
  "s_find s_root v h = s_find_loop v h s_root 0"

section \<open>Rotations\<close>

text \<open>\<open>if(c) c->parent = q\<close>\<close>

definition adopt :: "ptr \<Rightarrow> ptr \<Rightarrow> node_heap \<Rightarrow> node_heap option" where
  "adopt c q h = (if c \<noteq> 0 then set_parent c q h else Some h)"

text \<open>The child pointer of the grandparent's parent that was \<open>g\<close> becomes \<open>n\<close>.\<close>

definition replace_child :: "ptr \<Rightarrow> ptr \<Rightarrow> node_heap \<Rightarrow> node_heap option" where
  "replace_child g n h = do {
     gg \<leftarrow> field sn_parent g h;
     if gg = 0 then Some h
     else do {
       l \<leftarrow> field sn_left gg h;
       if l = g then set_left gg n h
       else do {
         r \<leftarrow> field sn_right gg h;
         if r = g then set_right gg n h else Some h
       }
     }
   }"

definition zig :: "ptr \<Rightarrow> ptr \<Rightarrow> node_heap \<Rightarrow> node_heap option" where
  "zig n p h = do {
     l \<leftarrow> field sn_left p h;
     h' \<leftarrow> (if n = l then do {
         b \<leftarrow> field sn_right n h;
         h1 \<leftarrow> set_left p b h;
         b1 \<leftarrow> field sn_right n h1;
         h2 \<leftarrow> adopt b1 p h1;
         h3 \<leftarrow> set_right n p h2;
         set_parent p n h3
       } else do {
         a \<leftarrow> field sn_left n h;
         h1 \<leftarrow> set_right p a h;
         a1 \<leftarrow> field sn_left n h1;
         h2 \<leftarrow> adopt a1 p h1;
         h3 \<leftarrow> set_left n p h2;
         set_parent p n h3
       });
     set_parent n 0 h'
   }"

text \<open>\<open>n\<close> is the left child of \<open>p\<close> and \<open>p\<close> the right child of \<open>g\<close>; then the mirror image.\<close>

definition zig_zag_rl :: "ptr \<Rightarrow> ptr \<Rightarrow> ptr \<Rightarrow> node_heap \<Rightarrow> node_heap option" where
  "zig_zag_rl n p g h = do {
     a \<leftarrow> field sn_left n h;
     h1 \<leftarrow> set_right g a h;
     a1 \<leftarrow> field sn_left n h1;
     h2 \<leftarrow> adopt a1 g h1;
     b \<leftarrow> field sn_right n h2;
     h3 \<leftarrow> set_left p b h2;
     b1 \<leftarrow> field sn_right n h3;
     h4 \<leftarrow> adopt b1 p h3;
     h5 \<leftarrow> set_left n g h4;
     h6 \<leftarrow> set_right n p h5;
     gg \<leftarrow> field sn_parent g h6;
     h7 \<leftarrow> set_parent n gg h6;
     h8 \<leftarrow> replace_child g n h7;
     h9 \<leftarrow> set_parent g n h8;
     set_parent p n h9
   }"

definition zig_zag_lr :: "ptr \<Rightarrow> ptr \<Rightarrow> ptr \<Rightarrow> node_heap \<Rightarrow> node_heap option" where
  "zig_zag_lr n p g h = do {
     b \<leftarrow> field sn_right n h;
     h1 \<leftarrow> set_left g b h;
     b1 \<leftarrow> field sn_right n h1;
     h2 \<leftarrow> adopt b1 g h1;
     a \<leftarrow> field sn_left n h2;
     h3 \<leftarrow> set_right p a h2;
     a1 \<leftarrow> field sn_left n h3;
     h4 \<leftarrow> adopt a1 p h3;
     h5 \<leftarrow> set_right n g h4;
     h6 \<leftarrow> set_left n p h5;
     gg \<leftarrow> field sn_parent g h6;
     h7 \<leftarrow> set_parent n gg h6;
     h8 \<leftarrow> replace_child g n h7;
     h9 \<leftarrow> set_parent g n h8;
     set_parent p n h9
   }"

text \<open>\<open>n\<close> and \<open>p\<close> are both left children, or both right children.\<close>

definition zig_zig_ll :: "ptr \<Rightarrow> ptr \<Rightarrow> ptr \<Rightarrow> node_heap \<Rightarrow> node_heap option" where
  "zig_zig_ll n p g h = do {
     c \<leftarrow> field sn_right p h;
     h1 \<leftarrow> set_left g c h;
     c1 \<leftarrow> field sn_left g h1;
     h2 \<leftarrow> adopt c1 g h1;
     b \<leftarrow> field sn_right n h2;
     h3 \<leftarrow> set_left p b h2;
     b1 \<leftarrow> field sn_left p h3;
     h4 \<leftarrow> adopt b1 p h3;
     h5 \<leftarrow> set_right p g h4;
     h6 \<leftarrow> set_right n p h5;
     gg \<leftarrow> field sn_parent g h6;
     h7 \<leftarrow> set_parent n gg h6;
     h8 \<leftarrow> replace_child g n h7;
     h9 \<leftarrow> set_parent p n h8;
     set_parent g p h9
   }"

definition zig_zig_rr :: "ptr \<Rightarrow> ptr \<Rightarrow> ptr \<Rightarrow> node_heap \<Rightarrow> node_heap option" where
  "zig_zig_rr n p g h = do {
     c \<leftarrow> field sn_left p h;
     h1 \<leftarrow> set_right g c h;
     c1 \<leftarrow> field sn_right g h1;
     h2 \<leftarrow> adopt c1 g h1;
     a \<leftarrow> field sn_left n h2;
     h3 \<leftarrow> set_right p a h2;
     a1 \<leftarrow> field sn_right p h3;
     h4 \<leftarrow> adopt a1 p h3;
     h5 \<leftarrow> set_left p g h4;
     h6 \<leftarrow> set_left n p h5;
     gg \<leftarrow> field sn_parent g h6;
     h7 \<leftarrow> set_parent n gg h6;
     h8 \<leftarrow> replace_child g n h7;
     h9 \<leftarrow> set_parent p n h8;
     set_parent g p h9
   }"

text \<open>One turn of the loop of \<open>_s_splay\<close>, and the loop.\<close>

definition splay_turn :: "ptr \<Rightarrow> node_heap \<Rightarrow> node_heap option" where
  "splay_turn n h = do {
     p \<leftarrow> field sn_parent n h;
     g \<leftarrow> field sn_parent p h;
     if g = 0 then zig n p h
     else do {
       pl \<leftarrow> field sn_left p h;
       pr \<leftarrow> field sn_right p h;
       gl \<leftarrow> field sn_left g h;
       gr \<leftarrow> field sn_right g h;
       if pl = n \<and> gr = p then zig_zag_rl n p g h
       else if pr = n \<and> gl = p then zig_zag_lr n p g h
       else if pl = n \<and> gl = p then zig_zig_ll n p g h
       else if pr = n \<and> gr = p then zig_zig_rr n p g h
       else Some h
     }
   }"

partial_function (option) s_splay :: "ptr \<Rightarrow> node_heap \<Rightarrow> node_heap option" where
  "s_splay n h = do {
     p \<leftarrow> field sn_parent n h;
     if p = 0 then Some h
     else do {
       h' \<leftarrow> splay_turn n h;
       s_splay n h'
     }
   }"

section \<open>Updates\<close>

definition NUM_FRAMES :: nat where [const_defs]: "NUM_FRAMES = 3"

record alloc_info =
  ai_mark :: u32
  ai_sz :: u32
  ai_caller :: "u32 list"

text \<open>
  The program's memory as far as the allocation history uses it: tree nodes, headers of the live blocks, the array
  of roots, what \<^verbatim>\<open>malloc\<close> hands out next, and the two output streams.
\<close>

record alloc_store =
  as_nodes :: node_heap
  as_blocks :: "ptr \<Rightarrow> alloc_info option"
  as_callers :: "ptr list option"
  as_next :: ptr
  as_limit :: ptr
  as_out :: ostream
  as_err :: ostream

definition malloc :: "nat \<Rightarrow> alloc_store \<Rightarrow> ptr \<times> alloc_store" where
  "malloc n s = (if as_next s + n \<le> as_limit s then (as_next s, s\<lparr>as_next := as_next s + n\<rparr>) else (0, s))"

definition sizeof_s_node :: nat where [const_defs]: "sizeof_s_node = 24"

text \<open>Allocates a node; writing to it through a null pointer has no result.\<close>

definition new_node :: "s_node \<Rightarrow> alloc_store \<Rightarrow> (ptr \<times> alloc_store) option" where
  "new_node nd s =
     (let (n, s1) = malloc sizeof_s_node s
      in if n = 0 then None else Some (n, s1\<lparr>as_nodes := (as_nodes s1)(n \<mapsto> nd)\<rparr>))"

definition s_update_add :: "ptr \<Rightarrow> u32 \<Rightarrow> u32 \<Rightarrow> alloc_store \<Rightarrow> (ptr \<times> alloc_store) option" where
  "s_update_add s_root v sz s = do {
     n \<leftarrow> s_find s_root v (as_nodes s);
     (n', s') \<leftarrow>
       (if n = 0 then
          new_node \<lparr>sn_val = v, sn_sz = ucast sz, sn_parent = 0, sn_left = 0, sn_right = 0\<rparr> s
        else do {
          nd \<leftarrow> as_nodes s n;
          if sn_val nd = v then do {
            h \<leftarrow> assign (\<lambda>nd. nd\<lparr>sn_sz := sn_sz nd + ucast sz\<rparr>) n (as_nodes s);
            Some (n, s\<lparr>as_nodes := h\<rparr>)
          } else do {
            (n2, s2) \<leftarrow> new_node \<lparr>sn_val = v, sn_sz = ucast sz, sn_parent = n, sn_left = 0, sn_right = 0\<rparr> s;
            nd2 \<leftarrow> as_nodes s2 n;
            h \<leftarrow> (if v < sn_val nd2 then set_left n n2 (as_nodes s2) else set_right n n2 (as_nodes s2));
            Some (n2, s2\<lparr>as_nodes := h\<rparr>)
          }
        });
     h' \<leftarrow> s_splay n' (as_nodes s');
     Some (n', s'\<lparr>as_nodes := h'\<rparr>)
   }"

definition s_update_sub :: "ptr \<Rightarrow> u32 \<Rightarrow> u32 \<Rightarrow> alloc_store \<Rightarrow> (ptr \<times> alloc_store) option" where
  "s_update_sub s_root v sz s = do {
     n \<leftarrow> s_find s_root v (as_nodes s);
     known \<leftarrow> (if n = 0 then Some False else map_option (\<lambda>nd. sn_val nd = v) (as_nodes s n));
     if \<not> known then Some (s_root, s\<lparr>as_err := as_err s @ [Str (''Free from unknown'' @ NL), Endl]\<rparr>)
     else do {
       h \<leftarrow> assign (\<lambda>nd. nd\<lparr>sn_sz := sn_sz nd - ucast sz\<rparr>) n (as_nodes s);
       h' \<leftarrow> s_splay n h;
       Some (n, s\<lparr>as_nodes := h'\<rparr>)
     }
   }"

section \<open>The tree in the store\<close>

text \<open>The pointer structure at \<open>p\<close>, with parent \<open>q\<close>, is the tree of addresses \<open>t\<close>.\<close>

fun s_tree :: "node_heap \<Rightarrow> ptr \<Rightarrow> ptr \<Rightarrow> ptr tree \<Rightarrow> bool" where
  "s_tree h q p Leaf \<longleftrightarrow> p = 0"
| "s_tree h q p (Node l x r) \<longleftrightarrow> p = x \<and> x \<noteq> 0 \<and>
     (case h x of None \<Rightarrow> False
      | Some n \<Rightarrow> sn_parent n = q \<and> s_tree h x (sn_left n) l \<and> s_tree h x (sn_right n) r)"

text \<open>
  A tree with a hole: the path from the hole to the root.  \<open>AtL g r\<close> says that the hole is the left child of \<open>g\<close>,
  whose right subtree is \<open>r\<close>.
\<close>

datatype crumb = AtL ptr "ptr tree" | AtR "ptr tree" ptr

fun plug :: "crumb list \<Rightarrow> ptr tree \<Rightarrow> ptr tree" where
  "plug [] t = t"
| "plug (AtL g r # k) t = plug k (Node t g r)"
| "plug (AtR l g # k) t = plug k (Node l g t)"

fun before :: "crumb list \<Rightarrow> ptr list" where
  "before [] = []"
| "before (AtL g r # k) = before k"
| "before (AtR l g # k) = before k @ inorder l @ [g]"

fun behind :: "crumb list \<Rightarrow> ptr list" where
  "behind [] = []"
| "behind (AtL g r # k) = g # inorder r @ behind k"
| "behind (AtR l g # k) = behind k"

text \<open>The path in the store: the hole is \<open>p\<close>, its parent \<open>par\<close>, and the root of the whole is \<open>rt\<close>.\<close>

fun s_path :: "node_heap \<Rightarrow> ptr \<Rightarrow> crumb list \<Rightarrow> ptr \<Rightarrow> ptr \<Rightarrow> bool" where
  "s_path h rt [] par p \<longleftrightarrow> par = 0 \<and> p = rt"
| "s_path h rt (AtL g r # k) par p \<longleftrightarrow> par = g \<and> g \<noteq> 0 \<and>
     (case h g of None \<Rightarrow> False
      | Some n \<Rightarrow> sn_left n = p \<and> s_tree h g (sn_right n) r \<and> s_path h rt k (sn_parent n) g)"
| "s_path h rt (AtR l g # k) par p \<longleftrightarrow> par = g \<and> g \<noteq> 0 \<and>
     (case h g of None \<Rightarrow> False
      | Some n \<Rightarrow> sn_right n = p \<and> s_tree h g (sn_left n) l \<and> s_path h rt k (sn_parent n) g)"

lemma inorder_plug: "inorder (plug k t) = before k @ inorder t @ behind k"
  by (induction k t rule: plug.induct) auto

lemma s_tree_plug: "s_tree h 0 rt (plug k t) \<longleftrightarrow> (\<exists>par p. s_path h rt k par p \<and> s_tree h par p t)"
  by (induction k t rule: plug.induct) (auto split: option.splits)

lemma s_tree_nodes: "s_tree h q p t \<Longrightarrow> x \<in> set (inorder t) \<Longrightarrow> x \<noteq> 0 \<and> h x \<noteq> None"
  by (induction h q p t rule: s_tree.induct) (auto split: option.splits)

lemma s_path_nodes: "s_path h rt k par p \<Longrightarrow> x \<in> set (before k) \<union> set (behind k) \<Longrightarrow> x \<noteq> 0 \<and> h x \<noteq> None"
  by (induction h rt k par p rule: s_path.induct) (auto split: option.splits dest: s_tree_nodes)

lemma s_tree_root: "s_tree h q p t \<Longrightarrow> p = 0 \<and> t = Leaf \<or> p \<in> set (inorder t)"
  by (cases t) auto

lemma s_path_par: "s_path h rt k par p \<Longrightarrow> par = 0 \<and> k = [] \<or> par \<in> set (before k) \<union> set (behind k)"
  by (cases "(h, rt, k, par, p)" rule: s_path.cases) auto

text \<open>A subtree survives when its nodes keep their links, its root up to the parent.\<close>

lemma s_tree_frame: "s_tree h q p t \<Longrightarrow> \<forall>x \<in> set (inorder t). h' x = h x \<Longrightarrow> s_tree h' q p t"
  by (induction h q p t rule: s_tree.induct) (auto split: option.splits)

lemma s_tree_moved:
  assumes t: "s_tree h q p t" and d: "distinct (inorder t)"
    and h': "\<forall>x \<in> set (inorder t). h' x = upd (\<lambda>n. n\<lparr>sn_parent := q'\<rparr>) p h x"
  shows "s_tree h' q' p t"
proof (cases t)
  case (Node l x r)
  then have "\<forall>y \<in> set (inorder l) \<union> set (inorder r). h' y = h y" using t d h' by (auto simp: upd_def)
  then show ?thesis using t h' Node by (auto simp: upd_def split: option.splits intro: s_tree_frame)
qed (use t in simp)

text \<open>The path survives when its nodes keep their links, apart from the pointer to the hole.\<close>

definition relink :: "ptr \<Rightarrow> ptr \<Rightarrow> s_node \<Rightarrow> s_node" where
  "relink g n m = (if sn_left m = g then m\<lparr>sn_left := n\<rparr> else if sn_right m = g then m\<lparr>sn_right := n\<rparr> else m)"

lemma s_path_frame:
  "s_path h rt k par p \<Longrightarrow> \<forall>x \<in> set (before k) \<union> set (behind k). h' x = h x \<Longrightarrow> s_path h' rt k par p"
  by (induction h rt k par p rule: s_path.induct) (auto split: option.splits intro: s_tree_frame)

lemma s_path_moved:
  assumes k: "s_path h rt k par g" and d: "distinct (before k @ behind k)" and g: "g \<notin> set (before k) \<union> set (behind k)"
    "g \<noteq> 0"
    and h': "\<forall>x \<in> set (before k) \<union> set (behind k). h' x = upd (relink g n) par h x"
  shows "s_path h' (if k = [] then n else rt) k par n"
proof (cases k)
  case Nil
  then show ?thesis using k by simp
next
  case (Cons c k')
  show ?thesis
  proof (cases c)
    case (AtL gg r)
    then have "\<forall>y \<in> set (inorder r) \<union> set (before k') \<union> set (behind k'). h' y = h y"
      using k d h' Cons by (auto simp: upd_def)
    then show ?thesis using k g h' Cons AtL
      by (auto simp: upd_def relink_def split: option.splits intro: s_tree_frame s_path_frame)
  next
    case (AtR l gg)
    then have y: "\<forall>y \<in> set (inorder l) \<union> set (before k') \<union> set (behind k'). h' y = h y"
      using k d h' Cons by (auto simp: upd_def)
    obtain m where m: "h gg = Some m" "s_tree h gg (sn_left m) l" "sn_right m = g" using k Cons AtR by (auto split: option.splits)
    then have "sn_left m \<noteq> g" using s_tree_root[OF m(2)] g Cons AtR by auto
    then show ?thesis using k y g h' Cons AtR m
      by (auto simp: upd_def relink_def split: option.splits intro: s_tree_frame s_path_frame)
  qed
qed

section \<open>Rotations keep the tree\<close>

definition entry :: "node_heap \<Rightarrow> ptr \<Rightarrow> (u32 \<times> u64) option" where
  "entry h x = map_option (\<lambda>n. (sn_val n, sn_sz n)) (h x)"

named_theorems store_simps \<open>reading and writing the store\<close>

lemma upd_apply [store_simps]: "upd f p h x = (if x = p then map_option f (h x) else h x)"
  by (simp add: upd_def)

lemma assign_eq [store_simps]: "h p \<noteq> None \<Longrightarrow> assign f p h = Some (upd f p h)"
  by (auto simp: assign_def)

lemma field_eq [store_simps]: "field f p h = map_option f (h p)"
  by (simp add: field_def)

lemma upd_null: "h 0 = None \<Longrightarrow> upd f 0 h = h"
  by (auto simp: upd_def)

lemma adopt_eq [store_simps]: "h 0 = None \<Longrightarrow> c = 0 \<or> h c \<noteq> None \<Longrightarrow> adopt c q h = Some (upd (\<lambda>n. n\<lparr>sn_parent := q\<rparr>) c h)"
  by (auto simp: adopt_def assign_eq upd_null)

lemma replace_child_eq [store_simps]:
  assumes "h 0 = None" "h g = Some m" "sn_parent m = 0 \<or> h (sn_parent m) \<noteq> None"
  shows "replace_child g n h = Some (upd (relink g n) (sn_parent m) h)"
  using assms
  by (auto simp: replace_child_def field_eq assign_eq upd_null upd_def relink_def fun_eq_iff
      split: option.splits intro!: ext)

lemma entry_upd: "(\<And>n. sn_val (f n) = sn_val n \<and> sn_sz (f n) = sn_sz n) \<Longrightarrow> entry (upd f p h) = entry h"
  by (auto simp: entry_def upd_def fun_eq_iff option.map_comp comp_def)

lemma relink_entry [simp]: "sn_val (relink g n m) = sn_val m" "sn_sz (relink g n m) = sn_sz m" "sn_parent (relink g n m) = sn_parent m"
  by (auto simp: relink_def)

text \<open>What a turn does: same entries, the rest of the store untouched, and the tree \<open>t'\<close> in place of \<open>t\<close>.\<close>

definition turned :: "node_heap \<Rightarrow> ptr tree \<Rightarrow> node_heap option \<Rightarrow> ptr \<Rightarrow> ptr tree \<Rightarrow> bool" where
  "turned h t r rt' t' \<longleftrightarrow> (\<exists>h'. r = Some h' \<and> s_tree h' 0 rt' t' \<and> entry h' = entry h \<and> h' 0 = None \<and>
     (\<forall>x. x \<notin> set (inorder t) \<longrightarrow> h' x = h x))"

text \<open>
  The pieces of a double rotation, from left to right: four subtrees with roots \<open>ra\<close> to \<open>rd\<close> around the three nodes
  \<open>x\<close>, \<open>y\<close>, \<open>z\<close>, below the path \<open>k\<close>.  No piece touches another.
\<close>

lemma root_notin: "s_tree h q r t \<Longrightarrow> set (inorder t) \<inter> S = {} \<Longrightarrow> 0 \<notin> S \<Longrightarrow> r \<notin> S"
  using s_tree_root by fastforce

lemma par_notin: "s_path h rt k par p \<Longrightarrow> (set (before k) \<union> set (behind k)) \<inter> S = {} \<Longrightarrow> 0 \<notin> S \<Longrightarrow> par \<notin> S"
  using s_path_par by fastforce

lemma pieces:
  fixes x y z ra rb rc rd gg :: ptr and a b c d :: "ptr tree" and k :: "crumb list"
  assumes k: "s_path h rt k gg hole" and a: "s_tree h qa ra a" and b: "s_tree h qb rb b" and c: "s_tree h qc rc c"
    and d: "s_tree h qd rd d" and xyz: "0 \<notin> {x, y, z}"
    and dis: "distinct (before k @ (inorder a @ x # inorder b @ y # inorder c @ z # inorder d) @ behind k)"
  defines "A \<equiv> set (inorder a)" and "B \<equiv> set (inorder b)" and "C \<equiv> set (inorder c)" and "D \<equiv> set (inorder d)"
    and "K \<equiv> set (before k) \<union> set (behind k)"
  shows "distinct [x, y, z]" "{ra, rb, rc, rd, gg} \<inter> {x, y, z} = {}"
    and "A \<inter> {x, y, z, rb, rc, rd, gg} = {}" "B \<inter> {x, y, z, ra, rc, rd, gg} = {}" "C \<inter> {x, y, z, ra, rb, rd, gg} = {}"
      "D \<inter> {x, y, z, ra, rb, rc, gg} = {}" "K \<inter> {x, y, z, ra, rb, rc, rd} = {}"
    and "ra = 0 \<or> h ra \<noteq> None" "rb = 0 \<or> h rb \<noteq> None" "rc = 0 \<or> h rc \<noteq> None" "rd = 0 \<or> h rd \<noteq> None"
      "gg = 0 \<or> h gg \<noteq> None"
proof -
  have z: "0 \<notin> A" "0 \<notin> B" "0 \<notin> C" "0 \<notin> D" "0 \<notin> K"
    using s_tree_nodes[OF a, of 0] s_tree_nodes[OF b, of 0] s_tree_nodes[OF c, of 0] s_tree_nodes[OF d, of 0]
      s_path_nodes[OF k, of 0]
    by (auto simp: A_def B_def C_def D_def K_def)
  have AB: "A \<inter> B = {}" and AC: "A \<inter> C = {}" and AD: "A \<inter> D = {}" and AK: "A \<inter> K = {}" and BC: "B \<inter> C = {}"
    and BD: "B \<inter> D = {}" and BK: "B \<inter> K = {}" and CD: "C \<inter> D = {}" and CK: "C \<inter> K = {}" and DK: "D \<inter> K = {}"
    using dis unfolding A_def B_def C_def D_def K_def by (simp_all, blast+)
  have n: "{x, y, z} \<inter> A = {}" "{x, y, z} \<inter> B = {}" "{x, y, z} \<inter> C = {}" "{x, y, z} \<inter> D = {}" "{x, y, z} \<inter> K = {}"
    using dis by (auto simp: A_def B_def C_def D_def K_def)
  show "distinct [x, y, z]" using dis by simp
  note ra = root_notin[OF a, folded A_def] and rb = root_notin[OF b, folded B_def] and rc = root_notin[OF c, folded C_def]
    and rd = root_notin[OF d, folded D_def] and gg = par_notin[OF k, folded K_def]
  note disj = AB AC AD AK BC BD BK CD CK DK
  have "ra \<notin> S \<and> rb \<notin> S \<and> rc \<notin> S \<and> rd \<notin> S \<and> gg \<notin> S" if "S = {x, y, z}" for S
    using ra[of S] rb[of S] rc[of S] rd[of S] gg[of S] n xyz that by (simp add: Int_commute)
  then show "{ra, rb, rc, rd, gg} \<inter> {x, y, z} = {}" by simp
  show "A \<inter> {x, y, z, rb, rc, rd, gg} = {}" using rb[of A] rc[of A] rd[of A] gg[of A] z n disj by (simp add: Int_commute)
  show "B \<inter> {x, y, z, ra, rc, rd, gg} = {}" using ra[of B] rc[of B] rd[of B] gg[of B] z n disj by (simp add: Int_commute)
  show "C \<inter> {x, y, z, ra, rb, rd, gg} = {}" using ra[of C] rb[of C] rd[of C] gg[of C] z n disj by (simp add: Int_commute)
  show "D \<inter> {x, y, z, ra, rb, rc, gg} = {}" using ra[of D] rb[of D] rc[of D] gg[of D] z n disj by (simp add: Int_commute)
  show "K \<inter> {x, y, z, ra, rb, rc, rd} = {}" using ra[of K] rb[of K] rc[of K] rd[of K] z n disj by (simp add: Int_commute)
  show "ra = 0 \<or> h ra \<noteq> None" "rb = 0 \<or> h rb \<noteq> None" "rc = 0 \<or> h rc \<noteq> None" "rd = 0 \<or> h rd \<noteq> None"
    using s_tree_root[OF a] s_tree_nodes[OF a] s_tree_root[OF b] s_tree_nodes[OF b] s_tree_root[OF c] s_tree_nodes[OF c]
      s_tree_root[OF d] s_tree_nodes[OF d] by blast+
  show "gg = 0 \<or> h gg \<noteq> None" using s_path_par[OF k] s_path_nodes[OF k] by blast
qed

end
