(* ===== verification/Splay_Turn.thy ===== *)
theory Splay_Turn
  imports Splay
begin

text \<open>
  Each rotation of \<^verbatim>\<open>common/allochist.cc\<close> keeps the tree: same entries in the same order, the rest of the store
  untouched, and the node one or two levels higher; so the loop of \<open>_s_splay\<close> ends with the node as the root.
\<close>

abbreviation "to_parent q \<equiv> (\<lambda>m. m\<lparr>sn_parent := q\<rparr>)"
abbreviation "to_left q \<equiv> (\<lambda>m. m\<lparr>sn_left := q\<rparr>)"
abbreviation "to_right q \<equiv> (\<lambda>m. m\<lparr>sn_right := q\<rparr>)"

lemma upd_None [simp]: "upd f p h x = None \<longleftrightarrow> h x = None"
  by (simp add: upd_def)

lemma turnedI:
  assumes "r = Some h'" "s_path h' rt' k gg m" "s_tree h' gg m t'" "entry h' = entry h" "h' 0 = None"
    "\<And>x. x \<notin> set (inorder t) \<Longrightarrow> h' x = h x"
  shows "turned h t r rt' (plug k t')"
  using assms by (auto simp: turned_def s_tree_plug)

lemma upd_outside:
  "s_tree h0 q p t \<Longrightarrow> x \<notin> set (inorder t) \<Longrightarrow> h 0 = None \<Longrightarrow> upd f p h x = h x"
  "s_path h0 rt k p c \<Longrightarrow> x \<notin> set (before k) \<union> set (behind k) \<Longrightarrow> h 0 = None \<Longrightarrow> upd f p h x = h x"
  by (auto simp: upd_apply dest!: s_tree_root s_path_par)

text \<open>
  What the four double rotations share: the outer subtrees stay below their parents, the inner ones move to \<open>qb\<close> and
  \<open>qc\<close>, and the path now leads to \<open>n\<close>.
\<close>

lemma rotated_parts:
  assumes k: "s_path h rt k gg g" and a: "s_tree h qa ra a" and b: "s_tree h q1 rb b" and c: "s_tree h q2 rc c"
    and d: "s_tree h qd rd d" and nz: "0 \<notin> {x, y, z}" and h0: "h 0 = None" and g: "g \<in> {x, y, z}"
    and dd: "distinct (before k @ (inorder a @ x # inorder b @ y # inorder c @ z # inorder d) @ behind k)"
    and h': "\<forall>v. v \<notin> {x, y, z} \<longrightarrow> h' v = upd (relink g n) gg (upd (to_parent qc) rc (upd (to_parent qb) rb h)) v"
  shows "s_path h' (if k = [] then n else rt) k gg n"
    and "s_tree h' qa ra a" "s_tree h' qb rb b" "s_tree h' qc rc c" "s_tree h' qd rd d" "h' 0 = None"
    and "v \<notin> set (before k @ (inorder a @ x # inorder b @ y # inorder c @ z # inorder d) @ behind k) \<Longrightarrow> h' v = h v"
proof -
  note ps = pieces[OF k a b c d nz dd]
  have K: "\<forall>v \<in> set (before k) \<union> set (behind k). h' v = upd (relink g n) gg h v"
  proof
    fix v assume "v \<in> set (before k) \<union> set (behind k)"
    then have "v \<notin> {x, y, z, rb, rc}" using ps(7) by blast
    then show "h' v = upd (relink g n) gg h v" using h'[rule_format, of v] by (simp add: upd_apply)
  qed
  have A: "\<forall>v \<in> set (inorder a) \<union> set (inorder d). h' v = h v"
  proof
    fix v assume "v \<in> set (inorder a) \<union> set (inorder d)"
    then have "v \<notin> {x, y, z, rb, rc, gg}" using ps(3,6) by blast
    then show "h' v = h v" using h'[rule_format, of v] by (simp add: upd_apply)
  qed
  have B: "\<forall>v \<in> set (inorder b). h' v = upd (to_parent qb) rb h v"
  proof
    fix v assume "v \<in> set (inorder b)"
    then have "v \<notin> {x, y, z, rc, gg}" using ps(4) by blast
    then show "h' v = upd (to_parent qb) rb h v" using h'[rule_format, of v] by (simp add: upd_apply)
  qed
  have C: "\<forall>v \<in> set (inorder c). h' v = upd (to_parent qc) rc h v"
  proof
    fix v assume "v \<in> set (inorder c)"
    then have "v \<notin> {x, y, z, rb, gg}" using ps(5) by blast
    then show "h' v = upd (to_parent qc) rc h v" using h'[rule_format, of v] by (simp add: upd_apply)
  qed
  have "distinct (before k @ behind k)" "g \<notin> set (before k) \<union> set (behind k)" "g \<noteq> 0" using dd nz g by auto
  then show "s_path h' (if k = [] then n else rt) k gg n" using K by (rule s_path_moved[OF k])
  show "s_tree h' qa ra a" using A by (intro s_tree_frame[OF a]) simp
  show "s_tree h' qd rd d" using A by (intro s_tree_frame[OF d]) simp
  show "s_tree h' qb rb b" using dd B by (intro s_tree_moved[OF b]) auto
  show "s_tree h' qc rc c" using dd C by (intro s_tree_moved[OF c]) auto
  show "h' 0 = None" using h'[rule_format, of 0] nz h0 by simp
  assume "v \<notin> set (before k @ (inorder a @ x # inorder b @ y # inorder c @ z # inorder d) @ behind k)"
  then show "h' v = h v"
    using h'[rule_format, of v] h0 upd_outside(1)[OF b] upd_outside(1)[OF c] upd_outside(2)[OF k] by simp
qed

lemma zig_zag_rl_turned:
  assumes t: "s_tree h 0 rt (plug k (Node a g (Node (Node b n c) p d)))" and h0: "h 0 = None"
    and dis: "distinct (inorder (plug k (Node a g (Node (Node b n c) p d))))"
  shows "turned h (plug k (Node a g (Node (Node b n c) p d))) (zig_zag_rl n p g h) (if k = [] then n else rt)
    (plug k (Node (Node a g b) n (Node c p d)))"
proof -
  obtain G P N where k: "s_path h rt k (sn_parent G) g" and nodes: "h n = Some N" "h p = Some P" "h g = Some G"
    and links: "sn_parent N = p" "sn_parent P = g" "sn_left P = n" "sn_right G = p" and nz: "0 \<notin> {g, n, p}"
    and a: "s_tree h g (sn_left G) a" and b: "s_tree h n (sn_left N) b"
    and c: "s_tree h n (sn_right N) c" and d: "s_tree h p (sn_right P) d"
    using t by (auto simp: s_tree_plug split: option.splits)
  let ?gg = "sn_parent G" and ?b = "sn_left N" and ?c = "sn_right N"
  have dd: "distinct (before k @ (inorder a @ g # inorder b @ n # inorder c @ p # inorder d) @ behind k)"
    using dis by (simp add: inorder_plug)
  note ps = pieces[OF k a b c d nz dd]
  have ne: "n \<noteq> p" "n \<noteq> g" "p \<noteq> g" "n \<noteq> 0" "p \<noteq> 0" "g \<noteq> 0" "?b \<noteq> n" "?b \<noteq> p" "?b \<noteq> g"
    "?c \<noteq> n" "?c \<noteq> p" "?c \<noteq> g" "?gg \<noteq> n" "?gg \<noteq> p" "?gg \<noteq> g"
    using ps(1,2) nz by auto
  have bc: "h ?c = None" if "?b = ?c" using that s_tree_root[OF b] s_tree_root[OF c] dd h0 by auto
  let ?h = "upd (to_parent n) p (upd (to_parent n) g (upd (relink g n) ?gg (upd (to_parent ?gg) n (upd (to_right p) n (upd (to_left g) n (upd (to_parent p) ?c (upd (to_left ?c) p (upd (to_parent g) ?b (upd (to_right ?b) g h)))))))))"
  have run: "zig_zag_rl n p g h = Some ?h"
    using h0 nodes links ne ps(9,10,12) by (simp add: zig_zag_rl_def store_simps)
  have inner: "\<forall>v. v \<notin> {g, n, p} \<longrightarrow> ?h v = upd (relink g n) ?gg (upd (to_parent p) ?c (upd (to_parent g) ?b h)) v"
    using bc by (auto simp: upd_apply)
  have "g \<in> {g, n, p}" by simp
  note parts = rotated_parts[where h' = "?h", OF k a b c d nz h0 this dd inner]
  have "s_tree ?h ?gg n (Node (Node a g b) n (Node c p d))" using parts(2-5) nodes links ne by (simp add: upd_apply)
  then show ?thesis using parts(6,7) by (intro turnedI[OF run parts(1)]) (simp_all add: entry_upd inorder_plug)
qed

lemma zig_zag_lr_turned:
  assumes t: "s_tree h 0 rt (plug k (Node (Node a p (Node b n c)) g d))" and h0: "h 0 = None"
    and dis: "distinct (inorder (plug k (Node (Node a p (Node b n c)) g d)))"
  shows "turned h (plug k (Node (Node a p (Node b n c)) g d)) (zig_zag_lr n p g h) (if k = [] then n else rt)
    (plug k (Node (Node a p b) n (Node c g d)))"
proof -
  obtain G P N where k: "s_path h rt k (sn_parent G) g" and nodes: "h n = Some N" "h p = Some P" "h g = Some G"
    and links: "sn_parent N = p" "sn_parent P = g" "sn_right P = n" "sn_left G = p" and nz: "0 \<notin> {p, n, g}"
    and a: "s_tree h p (sn_left P) a" and b: "s_tree h n (sn_left N) b"
    and c: "s_tree h n (sn_right N) c" and d: "s_tree h g (sn_right G) d"
    using t by (auto simp: s_tree_plug split: option.splits)
  let ?gg = "sn_parent G" and ?b = "sn_left N" and ?c = "sn_right N"
  have dd: "distinct (before k @ (inorder a @ p # inorder b @ n # inorder c @ g # inorder d) @ behind k)"
    using dis by (simp add: inorder_plug)
  note ps = pieces[OF k a b c d nz dd]
  have ne: "n \<noteq> p" "n \<noteq> g" "p \<noteq> g" "n \<noteq> 0" "p \<noteq> 0" "g \<noteq> 0" "?b \<noteq> n" "?b \<noteq> p" "?b \<noteq> g"
    "?c \<noteq> n" "?c \<noteq> p" "?c \<noteq> g" "?gg \<noteq> n" "?gg \<noteq> p" "?gg \<noteq> g"
    using ps(1,2) nz by auto
  have bc: "h ?c = None" if "?b = ?c" using that s_tree_root[OF b] s_tree_root[OF c] dd h0 by auto
  let ?h = "upd (to_parent n) p (upd (to_parent n) g (upd (relink g n) ?gg (upd (to_parent ?gg) n (upd (to_left p) n (upd (to_right g) n (upd (to_parent p) ?b (upd (to_right ?b) p (upd (to_parent g) ?c (upd (to_left ?c) g h)))))))))"
  have run: "zig_zag_lr n p g h = Some ?h"
    using h0 nodes links ne ps(9,10,12) by (simp add: zig_zag_lr_def store_simps)
  have inner: "\<forall>v. v \<notin> {p, n, g} \<longrightarrow> ?h v = upd (relink g n) ?gg (upd (to_parent g) ?c (upd (to_parent p) ?b h)) v"
    using bc by (auto simp: upd_apply)
  have "g \<in> {p, n, g}" by simp
  note parts = rotated_parts[where h' = "?h", OF k a b c d nz h0 this dd inner]
  have "s_tree ?h ?gg n (Node (Node a p b) n (Node c g d))" using parts(2-5) nodes links ne by (simp add: upd_apply)
  then show ?thesis using parts(6,7) by (intro turnedI[OF run parts(1)]) (simp_all add: entry_upd inorder_plug)
qed

lemma zig_zig_ll_turned:
  assumes t: "s_tree h 0 rt (plug k (Node (Node (Node a n b) p c) g d))" and h0: "h 0 = None"
    and dis: "distinct (inorder (plug k (Node (Node (Node a n b) p c) g d)))"
  shows "turned h (plug k (Node (Node (Node a n b) p c) g d)) (zig_zig_ll n p g h) (if k = [] then n else rt)
    (plug k (Node a n (Node b p (Node c g d))))"
proof -
  obtain G P N where k: "s_path h rt k (sn_parent G) g" and nodes: "h n = Some N" "h p = Some P" "h g = Some G"
    and links: "sn_parent N = p" "sn_parent P = g" "sn_left P = n" "sn_left G = p" and nz: "0 \<notin> {n, p, g}"
    and a: "s_tree h n (sn_left N) a" and b: "s_tree h n (sn_right N) b"
    and c: "s_tree h p (sn_right P) c" and d: "s_tree h g (sn_right G) d"
    using t by (auto simp: s_tree_plug split: option.splits)
  let ?gg = "sn_parent G" and ?b = "sn_right N" and ?c = "sn_right P"
  have dd: "distinct (before k @ (inorder a @ n # inorder b @ p # inorder c @ g # inorder d) @ behind k)"
    using dis by (simp add: inorder_plug)
  note ps = pieces[OF k a b c d nz dd]
  have ne: "n \<noteq> p" "n \<noteq> g" "p \<noteq> g" "n \<noteq> 0" "p \<noteq> 0" "g \<noteq> 0" "?b \<noteq> n" "?b \<noteq> p" "?b \<noteq> g"
    "?c \<noteq> n" "?c \<noteq> p" "?c \<noteq> g" "?gg \<noteq> n" "?gg \<noteq> p" "?gg \<noteq> g"
    using ps(1,2) nz by auto
  have bc: "h ?c = None" if "?b = ?c" using that s_tree_root[OF b] s_tree_root[OF c] dd h0 by auto
  let ?h = "upd (to_parent p) g (upd (to_parent n) p (upd (relink g n) ?gg (upd (to_parent ?gg) n (upd (to_right p) n (upd (to_right g) p (upd (to_parent p) ?b (upd (to_left ?b) p (upd (to_parent g) ?c (upd (to_left ?c) g h)))))))))"
  have run: "zig_zig_ll n p g h = Some ?h"
    using h0 nodes links ne ps(9,10,12) by (simp add: zig_zig_ll_def store_simps)
  have inner: "\<forall>v. v \<notin> {n, p, g} \<longrightarrow> ?h v = upd (relink g n) ?gg (upd (to_parent g) ?c (upd (to_parent p) ?b h)) v"
    using bc by (auto simp: upd_apply)
  have "g \<in> {n, p, g}" by simp
  note parts = rotated_parts[where h' = "?h", OF k a b c d nz h0 this dd inner]
  have "s_tree ?h ?gg n (Node a n (Node b p (Node c g d)))" using parts(2-5) nodes links ne by (simp add: upd_apply)
  then show ?thesis using parts(6,7) by (intro turnedI[OF run parts(1)]) (simp_all add: entry_upd inorder_plug)
qed

lemma zig_zig_rr_turned:
  assumes t: "s_tree h 0 rt (plug k (Node a g (Node b p (Node c n d))))" and h0: "h 0 = None"
    and dis: "distinct (inorder (plug k (Node a g (Node b p (Node c n d)))))"
  shows "turned h (plug k (Node a g (Node b p (Node c n d)))) (zig_zig_rr n p g h) (if k = [] then n else rt)
    (plug k (Node (Node (Node a g b) p c) n d))"
proof -
  obtain G P N where k: "s_path h rt k (sn_parent G) g" and nodes: "h n = Some N" "h p = Some P" "h g = Some G"
    and links: "sn_parent N = p" "sn_parent P = g" "sn_right P = n" "sn_right G = p" and nz: "0 \<notin> {g, p, n}"
    and a: "s_tree h g (sn_left G) a" and b: "s_tree h p (sn_left P) b"
    and c: "s_tree h n (sn_left N) c" and d: "s_tree h n (sn_right N) d"
    using t by (auto simp: s_tree_plug split: option.splits)
  let ?gg = "sn_parent G" and ?b = "sn_left P" and ?c = "sn_left N"
  have dd: "distinct (before k @ (inorder a @ g # inorder b @ p # inorder c @ n # inorder d) @ behind k)"
    using dis by (simp add: inorder_plug)
  note ps = pieces[OF k a b c d nz dd]
  have ne: "n \<noteq> p" "n \<noteq> g" "p \<noteq> g" "n \<noteq> 0" "p \<noteq> 0" "g \<noteq> 0" "?b \<noteq> n" "?b \<noteq> p" "?b \<noteq> g"
    "?c \<noteq> n" "?c \<noteq> p" "?c \<noteq> g" "?gg \<noteq> n" "?gg \<noteq> p" "?gg \<noteq> g"
    using ps(1,2) nz by auto
  have bc: "h ?c = None" if "?b = ?c" using that s_tree_root[OF b] s_tree_root[OF c] dd h0 by auto
  let ?h = "upd (to_parent p) g (upd (to_parent n) p (upd (relink g n) ?gg (upd (to_parent ?gg) n (upd (to_left p) n (upd (to_left g) p (upd (to_parent p) ?c (upd (to_right ?c) p (upd (to_parent g) ?b (upd (to_right ?b) g h)))))))))"
  have run: "zig_zig_rr n p g h = Some ?h"
    using h0 nodes links ne ps(9,10,12) by (simp add: zig_zig_rr_def store_simps)
  have inner: "\<forall>v. v \<notin> {g, p, n} \<longrightarrow> ?h v = upd (relink g n) ?gg (upd (to_parent p) ?c (upd (to_parent g) ?b h)) v"
    using bc by (auto simp: upd_apply)
  have "g \<in> {g, p, n}" by simp
  note parts = rotated_parts[where h' = "?h", OF k a b c d nz h0 this dd inner]
  have "s_tree ?h ?gg n (Node (Node (Node a g b) p c) n d)" using parts(2-5) nodes links ne by (simp add: upd_apply)
  then show ?thesis using parts(6,7) by (intro turnedI[OF run parts(1)]) (simp_all add: entry_upd inorder_plug)
qed

lemma zig_parts:
  assumes a: "s_tree h qa ra a" and b: "s_tree h q1 rb b" and c: "s_tree h qc rc c" and h0: "h 0 = None" and nz: "x \<noteq> 0" "y \<noteq> 0"
    and dd: "distinct (inorder a @ x # inorder b @ y # inorder c)"
    and h': "\<forall>v. v \<notin> {x, y} \<longrightarrow> h' v = upd (to_parent qb) rb h v"
  shows "s_tree h' qa ra a" "s_tree h' qb rb b" "s_tree h' qc rc c" "h' 0 = None" "rb \<notin> {x, y}" "rb = 0 \<or> h rb \<noteq> None"
    and "v \<notin> set (inorder a @ x # inorder b @ y # inorder c) \<Longrightarrow> h' v = h v"
proof -
  have "\<forall>v \<in> set (inorder a) \<union> set (inorder c). h' v = h v"
  proof
    fix v assume v: "v \<in> set (inorder a) \<union> set (inorder c)"
    then have "v \<noteq> 0" using s_tree_nodes[OF a] s_tree_nodes[OF c] by blast
    moreover have "v \<notin> set (inorder b)" "v \<notin> {x, y}" using v dd by auto
    ultimately show "h' v = h v" using h'[rule_format, of v] upd_outside(1)[OF b] h0 by simp
  qed
  then show "s_tree h' qa ra a" "s_tree h' qc rc c" by (auto intro: s_tree_frame[OF a] s_tree_frame[OF c])
  have "\<forall>v \<in> set (inorder b). h' v = upd (to_parent qb) rb h v" using h' dd by auto
  then show "s_tree h' qb rb b" using dd by (intro s_tree_moved[OF b]) auto
  show "h' 0 = None" using h'[rule_format, of 0] nz h0 by simp
  show "rb \<notin> {x, y}" "rb = 0 \<or> h rb \<noteq> None" using s_tree_root[OF b] s_tree_nodes[OF b] dd nz by auto
  show "h' v = h v" if "v \<notin> set (inorder a @ x # inorder b @ y # inorder c)"
    using that h'[rule_format, of v] upd_outside(1)[OF b] h0 by simp
qed

lemma turned_top:
  "r = Some h' \<Longrightarrow> s_tree h' 0 m t' \<Longrightarrow> entry h' = entry h \<Longrightarrow> h' 0 = None \<Longrightarrow>
    (\<And>x. x \<notin> set (inorder t) \<Longrightarrow> h' x = h x) \<Longrightarrow> turned h t r m t'"
  by (simp add: turned_def)

lemma zig_left_turned:
  assumes t: "s_tree h 0 rt (Node (Node a n b) p c)" and h0: "h 0 = None" and dis: "distinct (inorder (Node (Node a n b) p c))"
  shows "turned h (Node (Node a n b) p c) (zig n p h) n (Node a n (Node b p c))"
proof -
  obtain P N where nodes: "h n = Some N" "h p = Some P" and links: "sn_parent N = p" "sn_left P = n" and nz: "n \<noteq> 0" "p \<noteq> 0"
    and a: "s_tree h n (sn_left N) a" and b: "s_tree h n (sn_right N) b" and c: "s_tree h p (sn_right P) c"
    using t by (auto split: option.splits)
  have dd: "distinct (inorder a @ n # inorder b @ p # inorder c)" using dis by simp
  let ?b = "sn_right N"
  let ?h = "upd (to_parent 0) n (upd (to_parent n) p (upd (to_right p) n (upd (to_parent p) ?b (upd (to_left ?b) p h))))"
  have "\<forall>v. v \<notin> {n, p} \<longrightarrow> ?h v = upd (to_parent p) ?b h v" by (auto simp: upd_apply)
  note parts = zig_parts[where h' = "?h", OF a b c h0 nz dd this]
  have ne: "n \<noteq> p" "?b \<noteq> n" "?b \<noteq> p" using dd parts(5) by auto
  have run: "zig n p h = Some ?h" using h0 nodes links ne parts(6) nz by (simp add: zig_def store_simps)
  have "s_tree ?h 0 n (Node a n (Node b p c))" using parts(1-3) nodes links ne nz by (simp add: upd_apply)
  then show ?thesis using parts(4,7) by (intro turned_top[OF run]) (simp_all add: entry_upd)
qed

lemma zig_right_turned:
  assumes t: "s_tree h 0 rt (Node a p (Node b n c))" and h0: "h 0 = None" and dis: "distinct (inorder (Node a p (Node b n c)))"
  shows "turned h (Node a p (Node b n c)) (zig n p h) n (Node (Node a p b) n c)"
proof -
  obtain P N where nodes: "h n = Some N" "h p = Some P" and links: "sn_parent N = p" "sn_right P = n" and nz: "p \<noteq> 0" "n \<noteq> 0"
    and a: "s_tree h p (sn_left P) a" and b: "s_tree h n (sn_left N) b" and c: "s_tree h n (sn_right N) c"
    using t by (auto split: option.splits)
  have dd: "distinct (inorder a @ p # inorder b @ n # inorder c)" using dis by simp
  have left: "sn_left P \<noteq> n" using s_tree_root[OF a] dd nz by auto
  let ?b = "sn_left N"
  let ?h = "upd (to_parent 0) n (upd (to_parent n) p (upd (to_left p) n (upd (to_parent p) ?b (upd (to_right ?b) p h))))"
  have "\<forall>v. v \<notin> {p, n} \<longrightarrow> ?h v = upd (to_parent p) ?b h v" by (auto simp: upd_apply)
  note parts = zig_parts[where h' = "?h", OF a b c h0 nz dd this]
  have ne: "n \<noteq> p" "?b \<noteq> n" "?b \<noteq> p" using dd parts(5) by auto
  have run: "zig n p h = Some ?h" using h0 nodes links ne left parts(6) nz by (auto simp: zig_def store_simps)
  have "s_tree ?h 0 n (Node (Node a p b) n c)" using parts(1-3) nodes links ne nz by (simp add: upd_apply)
  then show ?thesis using parts(4,7) by (intro turned_top[OF run]) (simp_all add: entry_upd)
qed

lemma turn_fields:
  assumes t: "s_tree h 0 rt (plug k t)" and dis: "distinct (inorder (plug k t))"
  shows "t = Node a n b \<Longrightarrow> k = [AtL p c] \<or> k = [AtR c p] \<Longrightarrow> splay_turn n h = zig n p h"
    and "t = Node a g (Node (Node b n c) p d) \<Longrightarrow> splay_turn n h = zig_zag_rl n p g h"
    and "t = Node (Node a p (Node b n c)) g d \<Longrightarrow> splay_turn n h = zig_zag_lr n p g h"
    and "t = Node (Node (Node a n b) p c) g d \<Longrightarrow> splay_turn n h = zig_zig_ll n p g h"
    and "t = Node a g (Node b p (Node c n d)) \<Longrightarrow> splay_turn n h = zig_zig_rr n p g h"
  using t dis by (auto simp: s_tree_plug inorder_plug splay_turn_def field_eq split: option.splits dest!: s_tree_root)

end
