(* ===== verification/Splay_Update.thy ===== *)
theory Splay_Update
  imports Splay_Turn
begin

text \<open>
  The loop of \<open>_s_splay\<close> ends with its node as the root; search finds the place of a key; so updating a tree
  (\<^verbatim>\<open>common/allochist.cc\<close>) is updating the sorted list of its entries.
\<close>

section \<open>The loop\<close>

text \<open>What one turn achieves: a shorter path to the node, the same entries in the same order.\<close>

definition higher :: "node_heap \<Rightarrow> ptr \<Rightarrow> crumb list \<Rightarrow> ptr tree \<Rightarrow> node_heap \<Rightarrow> bool" where
  "higher h n k t h' \<longleftrightarrow> (\<exists>rt' k' a' b'. s_tree h' 0 rt' (plug k' (Node a' n b')) \<and> length k' < length k \<and>
     inorder (plug k' (Node a' n b')) = inorder (plug k t) \<and> entry h' = entry h \<and> h' 0 = None \<and>
     (\<forall>x. x \<notin> set (inorder (plug k t)) \<longrightarrow> h' x = h x))"

lemma higherI:
  assumes "turned h (plug k t) r rt' (plug k' (Node a' n b'))" "length k' < length k"
    "inorder (plug k' (Node a' n b')) = inorder (plug k t)"
  shows "\<exists>h'. r = Some h' \<and> higher h n k t h'"
  using assms unfolding turned_def higher_def by metis

lemma splay_turn_ok:
  assumes t: "s_tree h 0 rt (plug k (Node a n b))" and h0: "h 0 = None" and dis: "distinct (inorder (plug k (Node a n b)))"
    and k: "k \<noteq> []"
  shows "\<exists>h'. splay_turn n h = Some h' \<and> higher h n k (Node a n b) h'"
proof -
  obtain c1 k1 where k1: "k = c1 # k1" using k by (cases k) auto
  show ?thesis
  proof (cases k1)
    case Nil
    show ?thesis
    proof (cases c1)
      case (AtL p c)
      then have "turned h (plug k (Node a n b)) (splay_turn n h) n (plug [] (Node a n (Node b p c)))"
        using zig_left_turned[of h rt a n b p c] turn_fields(1)[OF t dis] t h0 dis k1 Nil by simp
      then show ?thesis by (rule higherI) (simp_all add: k1 Nil AtL)
    next
      case (AtR c p)
      then have "turned h (plug k (Node a n b)) (splay_turn n h) n (plug [] (Node (Node c p a) n b))"
        using zig_right_turned[of h rt c p a n b] turn_fields(1)[OF t dis] t h0 dis k1 Nil by simp
      then show ?thesis by (rule higherI) (simp_all add: k1 Nil AtR)
    qed
  next
    case (Cons c2 k2)
    let ?rt = "if k2 = [] then n else rt"
    show ?thesis
    proof (cases c1; cases c2)
      fix p c g d assume c: "c1 = AtL p c" "c2 = AtL g d"
      then have "turned h (plug k (Node a n b)) (splay_turn n h) ?rt (plug k2 (Node a n (Node b p (Node c g d))))"
        using h0 zig_zig_ll_turned[of h rt k2 a n b p c g d] turn_fields(4)[of h rt k2] t dis k1 Cons by simp
      then show ?thesis by (rule higherI) (simp_all add: k1 Cons c inorder_plug)
    next
      fix p c g d assume c: "c1 = AtL p c" "c2 = AtR d g"
      then have "turned h (plug k (Node a n b)) (splay_turn n h) ?rt (plug k2 (Node (Node d g a) n (Node b p c)))"
        using h0 zig_zag_rl_turned[of h rt k2 d g a n b p c] turn_fields(2)[of h rt k2] t dis k1 Cons by simp
      then show ?thesis by (rule higherI) (simp_all add: k1 Cons c inorder_plug)
    next
      fix p c g d assume c: "c1 = AtR c p" "c2 = AtL g d"
      then have "turned h (plug k (Node a n b)) (splay_turn n h) ?rt (plug k2 (Node (Node c p a) n (Node b g d)))"
        using h0 zig_zag_lr_turned[of h rt k2 c p a n b g d] turn_fields(3)[of h rt k2] t dis k1 Cons by simp
      then show ?thesis by (rule higherI) (simp_all add: k1 Cons c inorder_plug)
    next
      fix p c g d assume c: "c1 = AtR c p" "c2 = AtR d g"
      then have "turned h (plug k (Node a n b)) (splay_turn n h) ?rt (plug k2 (Node (Node (Node d g c) p a) n b))"
        using h0 zig_zig_rr_turned[of h rt k2 d g c p a n b] turn_fields(5)[of h rt k2] t dis k1 Cons by simp
      then show ?thesis by (rule higherI) (simp_all add: k1 Cons c inorder_plug)
    qed
  qed
qed

text \<open>The loop returns, with the node as the root of a tree with the same entries in the same order.\<close>

lemma s_splay_ok:
  assumes "s_tree h 0 rt (plug k (Node a n b))" "h 0 = None" "distinct (inorder (plug k (Node a n b)))"
  shows "\<exists>h' a' b'. s_splay n h = Some h' \<and> s_tree h' 0 n (Node a' n b') \<and> inorder (Node a' n b') = inorder (plug k (Node a n b)) \<and>
    entry h' = entry h \<and> h' 0 = None \<and> (\<forall>x. x \<notin> set (inorder (plug k (Node a n b))) \<longrightarrow> h' x = h x)"
  using assms
proof (induction k arbitrary: h rt a b rule: length_induct)
  case (1 k)
  show ?case
  proof (cases "k = []")
    case True
    then have "s_splay n h = Some h" "rt = n" using 1 by (auto simp: s_splay.simps[of n h] field_eq split: option.splits)
    then show ?thesis using 1 True by auto
  next
    case False
    then obtain h1 where h1: "splay_turn n h = Some h1" "higher h n k (Node a n b) h1" using splay_turn_ok 1 by blast
    then obtain rt1 k1 a1 b1 where t1: "s_tree h1 0 rt1 (plug k1 (Node a1 n b1))" "length k1 < length k"
        "inorder (plug k1 (Node a1 n b1)) = inorder (plug k (Node a n b))" "entry h1 = entry h" "h1 0 = None"
        "\<forall>x. x \<notin> set (inorder (plug k (Node a n b))) \<longrightarrow> h1 x = h x"
      unfolding higher_def by blast
    then obtain h2 a2 b2 where h2: "s_splay n h1 = Some h2" "s_tree h2 0 n (Node a2 n b2)"
        "inorder (Node a2 n b2) = inorder (plug k (Node a n b))" "entry h2 = entry h1" "h2 0 = None"
        "\<forall>x. x \<notin> set (inorder (plug k (Node a n b))) \<longrightarrow> h2 x = h1 x"
      using 1 by metis
    have "field sn_parent n h = Some p \<Longrightarrow> p \<noteq> 0" for p
      using 1(2) False by (cases k rule: plug.cases[of "(k, Leaf)" for k]) (auto simp: s_tree_plug field_eq split: option.splits)
    then have "s_splay n h = Some h2" using h1 h2(1)
      by (auto simp: s_splay.simps[of n h] splay_turn_def field_eq split: option.splits bind_splits)
    then show ?thesis using h2 t1 by (intro exI[of _ h2] exI[of _ a2] exI[of _ b2]) simp
  qed
qed

section \<open>Search\<close>

definition key :: "node_heap \<Rightarrow> ptr \<Rightarrow> u32" where
  "key h x = fst (the (entry h x))"

definition contents :: "node_heap \<Rightarrow> ptr tree \<Rightarrow> (u32 \<times> u64) list" where
  "contents h t = map (\<lambda>x. the (entry h x)) (inorder t)"

lemma plug_append: "plug (k @ k') t = plug k' (plug k t)"
  by (induction k t rule: plug.induct) auto

lemma before_append: "before (k @ k') = before k' @ before k"
  by (induction k rule: before.induct) auto

lemma behind_append: "behind (k @ k') = behind k @ behind k'"
  by (induction k rule: behind.induct) auto

text \<open>Where the search for \<open>v\<close> ends: at its node, or at the node below which it belongs.\<close>

definition found :: "node_heap \<Rightarrow> u32 \<Rightarrow> crumb list \<Rightarrow> ptr tree \<Rightarrow> ptr \<Rightarrow> ptr tree \<Rightarrow> bool" where
  "found h v k a m b \<longleftrightarrow> (\<forall>x \<in> set (before k). key h x < v) \<and> (\<forall>x \<in> set (behind k). v < key h x) \<and>
     (key h m = v \<or> v < key h m \<and> a = Leaf \<or> key h m < v \<and> b = Leaf)"

lemma s_find_loop_ok:
  assumes "s_tree h q p t" "t \<noteq> Leaf" "sorted_wrt (<) (map (key h) (inorder t))"
  shows "\<exists>k a m b. s_find_loop v h p l = Some m \<and> t = plug k (Node a m b) \<and> found h v k a m b"
  using assms
proof (induction t arbitrary: q p l)
  case (Node lt x rt)
  then obtain n where n: "p = x" "x \<noteq> 0" "h x = Some n" "s_tree h x (sn_left n) lt" "s_tree h x (sn_right n) rt"
    by (auto split: option.splits)
  have kx: "sn_val n = key h x" using n by (simp add: key_def entry_def)
  have lt: "sorted_wrt (<) (map (key h) (inorder lt))" "\<forall>y \<in> set (inorder lt). key h y < key h x"
    and rt: "sorted_wrt (<) (map (key h) (inorder rt))" "\<forall>y \<in> set (inorder rt). key h x < key h y"
    using Node.prems(3) by (simp_all add: sorted_wrt_append)
  have here: "Node lt x rt = plug [] (Node lt x rt)" by simp
  consider "key h x = v" | "v < key h x" | "key h x < v" by fastforce
  then show ?case
  proof cases
    case 1
    then have "s_find_loop v h p l = Some x" "found h v [] lt x rt" using n kx
      by (simp_all add: found_def s_find_loop.simps[of v h x])
    then show ?thesis using here by blast
  next
    case 2
    then have step: "s_find_loop v h p l = s_find_loop v h (sn_left n) x" using n kx by (auto simp: s_find_loop.simps[of v h x])
    show ?thesis
    proof (cases "lt = Leaf")
      case True
      then have "s_find_loop v h p l = Some x" "found h v [] lt x rt" using n step 2
        by (simp_all add: found_def s_find_loop.simps[of v h 0])
      then show ?thesis using here by blast
    next
      case False
      then obtain k a m b where r: "s_find_loop v h (sn_left n) x = Some m" "lt = plug k (Node a m b)" "found h v k a m b"
        using Node.IH(1)[OF n(4) _ lt(1)] by blast
      have "found h v (k @ [AtL x rt]) a m b" using r(3) 2 rt(2) by (auto simp: found_def before_append behind_append)
      moreover have "Node lt x rt = plug (k @ [AtL x rt]) (Node a m b)" using r(2) by (simp add: plug_append)
      ultimately show ?thesis using r(1) step by metis
    qed
  next
    case 3
    then have step: "s_find_loop v h p l = s_find_loop v h (sn_right n) x" using n kx by (auto simp: s_find_loop.simps[of v h x])
    show ?thesis
    proof (cases "rt = Leaf")
      case True
      then have "s_find_loop v h p l = Some x" "found h v [] lt x rt" using n step 3
        by (simp_all add: found_def s_find_loop.simps[of v h 0])
      then show ?thesis using here by blast
    next
      case False
      then obtain k a m b where r: "s_find_loop v h (sn_right n) x = Some m" "rt = plug k (Node a m b)" "found h v k a m b"
        using Node.IH(2)[OF n(5) _ rt(1)] by blast
      have "found h v (k @ [AtR lt x]) a m b" using r(3) 3 lt(2) by (auto simp: found_def before_append behind_append)
      moreover have "Node lt x rt = plug (k @ [AtR lt x]) (Node a m b)" using r(2) by (simp add: plug_append)
      ultimately show ?thesis using r(1) step by metis
    qed
  qed
qed simp

lemma keys_contents: "map fst (contents h t) = map (key h) (inorder t)"
  by (simp add: contents_def key_def comp_def)

lemma s_find_ok:
  assumes "s_tree h 0 rt t" "omap_inv (contents h t)"
  shows "t = Leaf \<and> s_find rt v h = Some 0 \<or>
    (\<exists>k a m b. s_find rt v h = Some m \<and> t = plug k (Node a m b) \<and> found h v k a m b)"
proof (cases "t = Leaf")
  case True
  then show ?thesis using assms by (simp add: s_find_def s_find_loop.simps)
next
  case False
  moreover have "sorted_wrt (<) (map (key h) (inorder t))" using assms(2) by (simp add: omap_inv_def flip: keys_contents)
  ultimately show ?thesis using s_find_loop_ok[OF assms(1)] unfolding s_find_def by blast
qed

text \<open>A key of the tree is found.\<close>

lemma found_key:
  assumes srt: "sorted_wrt (<) (map (key h) (inorder (plug k (Node a n b))))" and f: "found h v k a n b"
    and x: "x \<in> set (inorder (plug k (Node a n b)))" "key h x = v"
  shows "key h n = v"
proof (rule ccontr)
  assume ne: "key h n \<noteq> v"
  have sub: "\<forall>x \<in> set (inorder a). key h x < key h n" "\<forall>x \<in> set (inorder b). key h n < key h x"
    using srt by (simp_all add: inorder_plug sorted_wrt_append)
  have out: "x \<notin> set (before k)" "x \<notin> set (behind k)" "x \<noteq> n" using f x(2) ne by (auto simp: found_def)
  consider "v < key h n" "a = Leaf" | "key h n < v" "b = Leaf" using f ne by (auto simp: found_def)
  then show False
  proof cases
    case 1
    then have "x \<in> set (inorder b)" using x(1) out by (simp add: inorder_plug)
    then show False using sub(2) 1 x(2) less_asym by blast
  next
    case 2
    then have "x \<in> set (inorder a)" using x(1) out by (simp add: inorder_plug)
    then show False using sub(1) 2 x(2) less_asym by blast
  qed
qed

section \<open>Updates\<close>

lemma omap_update_append: "\<forall>e \<in> set xs. fst e < k \<Longrightarrow> omap_update k v (xs @ ys) = xs @ omap_update k v ys"
  by (induction xs) auto

lemma omap_update_front: "\<forall>e \<in> set ys. k < fst e \<Longrightarrow> omap_update k v ys = (k, v) # ys"
  by (cases ys) auto

lemma map_of_middle:
  "\<forall>e \<in> set xs. fst e < k \<Longrightarrow> map_of (xs @ (k::u32, v) # ys) k = Some v"
  "\<forall>e \<in> set xs. fst e < k \<Longrightarrow> \<forall>e \<in> set ys. k < fst e \<Longrightarrow> map_of (xs @ ys) k = None"
  by (induction xs) (auto simp: map_of_eq_None_iff)

lemma key_fst: "fst (the (entry h x)) = key h x"
  by (simp add: key_def)

text \<open>A change of the data of a node keeps all links.\<close>

lemma s_tree_data:
  assumes "\<And>m. sn_parent (f m) = sn_parent m \<and> sn_left (f m) = sn_left m \<and> sn_right (f m) = sn_right m"
  shows "s_tree (upd f x h) q p t = s_tree h q p t"
  by (induction t arbitrary: q p) (auto simp: upd_apply assms split: option.splits)

lemma splayed:
  assumes t: "s_tree h 0 rt (plug k (Node a n b))" and h0: "h 0 = None" and m: "omap_inv (contents h (plug k (Node a n b)))"
  shows "\<exists>h' a' b'. s_splay n h = Some h' \<and> s_tree h' 0 n (Node a' n b') \<and> inorder (Node a' n b') = inorder (plug k (Node a n b)) \<and>
    contents h' (Node a' n b') = contents h (plug k (Node a n b)) \<and> entry h' = entry h \<and> h' 0 = None \<and>
    (\<forall>x. x \<notin> set (inorder (plug k (Node a n b))) \<longrightarrow> h' x = h x)"
proof -
  have "distinct (map (key h) (inorder (plug k (Node a n b))))" using omap_inv_distinct[OF m] by (simp only: keys_contents)
  then have "distinct (inorder (plug k (Node a n b)))" by (simp add: distinct_map)
  from s_splay_ok[OF t h0 this] obtain h' a' b' where "s_splay n h = Some h'" "s_tree h' 0 n (Node a' n b')"
      "inorder (Node a' n b') = inorder (plug k (Node a n b))" "entry h' = entry h" "h' 0 = None"
      "\<forall>x. x \<notin> set (inorder (plug k (Node a n b))) \<longrightarrow> h' x = h x"
    by blast
  moreover from this have "contents h' (Node a' n b') = contents h (plug k (Node a n b))" unfolding contents_def by metis
  ultimately show ?thesis by blast
qed

text \<open>
  What an update of the tree \<open>t\<close> below \<open>rt\<close> leaves: a tree with contents \<open>m\<close> whose root \<open>n\<close> holds \<open>v\<close>, all other nodes as they
  were, and at most one node more.
\<close>

definition store_ok :: "alloc_store \<Rightarrow> bool" where
  "store_ok s \<longleftrightarrow> as_nodes s 0 = None \<and> 0 < as_next s \<and> (\<forall>x. as_nodes s x \<noteq> None \<longrightarrow> x < as_next s)"

definition updated :: "alloc_store \<Rightarrow> ptr tree \<Rightarrow> (u32 \<times> u64) list \<Rightarrow> u32 \<Rightarrow> ptr \<Rightarrow> alloc_store \<Rightarrow> bool" where
  "updated s t m v n s' \<longleftrightarrow> key (as_nodes s') n = v \<and> (\<exists>t'. s_tree (as_nodes s') 0 n t' \<and> contents (as_nodes s') t' = m \<and> store_ok s' \<and>
     as_next s \<le> as_next s' \<and> as_next s' \<le> as_next s + sizeof_s_node \<and>
     set (inorder t') \<subseteq> set (inorder t) \<union> {as_next s..<as_next s'} \<and>
     (\<forall>x. x \<notin> set (inorder t) \<union> {as_next s..<as_next s'} \<longrightarrow> as_nodes s' x = as_nodes s x) \<and>
     s' = s\<lparr>as_nodes := as_nodes s', as_next := as_next s'\<rparr>)"

definition size_of :: "(u32 \<times> u64) list \<Rightarrow> u32 \<Rightarrow> u64" where
  "size_of m v = (case map_of m v of None \<Rightarrow> 0 | Some z \<Rightarrow> z)"

text \<open>The two ways a tree changes before it is splayed: the size of a node, or a new leaf.\<close>

lemma changed_size:
  fixes z :: "u64 \<Rightarrow> u64"
  assumes t: "s_tree h 0 rt (plug k (Node a n b))" and m: "omap_inv (contents h (plug k (Node a n b)))"
    and f: "found h v k a n b" "key h n = v"
  defines "h1 \<equiv> upd (\<lambda>nd. nd\<lparr>sn_sz := z (sn_sz nd)\<rparr>) n h"
  shows "s_tree h1 0 rt (plug k (Node a n b))"
    "contents h1 (plug k (Node a n b)) = omap_update v (z (size_of (contents h (plug k (Node a n b))) v)) (contents h (plug k (Node a n b)))"
proof -
  show "s_tree h1 0 rt (plug k (Node a n b))" using t by (simp add: h1_def s_tree_data)
  obtain nd where nd: "h n = Some nd" using t by (auto simp: s_tree_plug split: option.splits)
  let ?f = "\<lambda>x. the (entry h x)"
  have "distinct (map (key h) (inorder (plug k (Node a n b))))" using omap_inv_distinct[OF m] by (simp only: keys_contents)
  then have "distinct (inorder (plug k (Node a n b)))" by (simp add: distinct_map)
  then have "n \<notin> set (before k) \<union> set (inorder a) \<union> set (inorder b) \<union> set (behind k)" by (simp add: inorder_plug)
  then have same: "\<forall>x \<in> set (before k) \<union> set (inorder a) \<union> set (inorder b) \<union> set (behind k). entry h1 x = entry h x"
    by (auto simp: h1_def entry_def upd_apply)
  have e: "the (entry h1 n) = (v, z (sn_sz nd))" "the (entry h n) = (v, sn_sz nd)" using nd f(2) by (auto simp: h1_def entry_def upd_apply key_def)
  have "\<forall>x \<in> set (before k @ inorder a). key h x < v"
    using m f by (auto simp: omap_inv_def keys_contents inorder_plug sorted_wrt_append)
  then have ls: "\<forall>e \<in> set (map ?f (before k @ inorder a)). fst e < v" by (auto simp: key_fst)
  have c: "contents h (plug k (Node a n b)) = map ?f (before k @ inorder a) @ (v, sn_sz nd) # map ?f (inorder b @ behind k)"
    using e by (simp add: contents_def inorder_plug)
  have "contents h1 (plug k (Node a n b)) = map ?f (before k @ inorder a) @ (v, z (sn_sz nd)) # map ?f (inorder b @ behind k)"
    using e same by (simp add: contents_def inorder_plug)
  then show "contents h1 (plug k (Node a n b)) =
      omap_update v (z (size_of (contents h (plug k (Node a n b))) v)) (contents h (plug k (Node a n b)))"
    unfolding c size_of_def map_of_middle(1)[OF ls] omap_update_append[OF ls] by simp
qed

lemma insert_entry:
  assumes "\<forall>x \<in> set ls. key h x < v" "\<forall>x \<in> set rs. v < key h x" "\<forall>x \<in> set (ls @ rs). entry h1 x = entry h x"
    "entry h1 n = Some (v, z)"
  shows "map (\<lambda>x. the (entry h1 x)) (ls @ n # rs) = omap_update v z (map (\<lambda>x. the (entry h x)) (ls @ rs))"
    "size_of (map (\<lambda>x. the (entry h x)) (ls @ rs)) v = 0"
proof -
  let ?f = "\<lambda>x. the (entry h x)"
  have l: "\<forall>e \<in> set (map ?f ls). fst e < v" and r: "\<forall>e \<in> set (map ?f rs). v < fst e" using assms(1,2) by (auto simp: key_fst)
  have "map (\<lambda>x. the (entry h1 x)) (ls @ n # rs) = map ?f ls @ (v, z) # map ?f rs" using assms(3,4) by simp
  then show "map (\<lambda>x. the (entry h1 x)) (ls @ n # rs) = omap_update v z (map ?f (ls @ rs))"
    unfolding map_append omap_update_append[OF l] omap_update_front[OF r] .
  show "size_of (map ?f (ls @ rs)) v = 0" unfolding size_of_def map_append map_of_middle(2)[OF l r] by simp
qed

lemma new_leaf:
  fixes z :: u64
  assumes t: "s_tree h 0 rt (plug k (Node a n b))" and m: "omap_inv (contents h (plug k (Node a n b)))"
    and f: "found h v k a n b" "key h n \<noteq> v" and n2: "n2 \<noteq> 0" "h n2 = None"
  defines "h2 \<equiv> h(n2 \<mapsto> \<lparr>sn_val = v, sn_sz = z, sn_parent = n, sn_left = 0, sn_right = 0\<rparr>)"
  defines "h1 \<equiv> (if v < key h n then upd (to_left n2) n h2 else upd (to_right n2) n h2)"
    and "c \<equiv> (if v < key h n then AtL n b else AtR a n)"
  shows "s_tree h1 0 rt (plug (c # k) (Node Leaf n2 Leaf))"
    "contents h1 (plug (c # k) (Node Leaf n2 Leaf)) = omap_update v z (contents h (plug k (Node a n b)))"
    "size_of (contents h (plug k (Node a n b))) v = 0"
    "set (inorder (plug (c # k) (Node Leaf n2 Leaf))) = insert n2 (set (inorder (plug k (Node a n b))))"
proof -
  let ?t = "plug k (Node a n b)"
  obtain N where N: "h n = Some N" "n \<noteq> 0" and k: "s_path h rt k (sn_parent N) n" and ab: "s_tree h n (sn_left N) a" "s_tree h n (sn_right N) b"
    using t by (auto simp: s_tree_plug split: option.splits)
  have srt: "sorted_wrt (<) (map (key h) (inorder ?t))" using m by (simp add: omap_inv_def flip: keys_contents)
  then have "distinct (map (key h) (inorder ?t))" by (simp add: strict_sorted_iff)
  then have "distinct (inorder ?t)" by (simp add: distinct_map)
  then have nn: "n \<notin> set (before k) \<union> set (inorder a) \<union> set (inorder b) \<union> set (behind k)" by (simp add: inorder_plug)
  have out: "h1 x = h x" if "x \<noteq> n" "x \<noteq> n2" for x using that by (simp add: h1_def h2_def upd_apply)
  have same: "\<forall>x \<in> set (before k) \<union> set (inorder a) \<union> set (inorder b) \<union> set (behind k). h1 x = h x"
    using nn n2(2) out s_path_nodes[OF k] s_tree_nodes[OF ab(1)] s_tree_nodes[OF ab(2)] by (metis Un_iff)
  have k1: "s_path h1 rt k (sn_parent N) n" and ab1: "s_tree h1 n (sn_left N) a" "s_tree h1 n (sn_right N) b"
    using same by (auto intro!: s_path_frame[OF k] s_tree_frame[OF ab(1)] s_tree_frame[OF ab(2)])
  have ne: "n2 \<noteq> n" using N n2 by auto
  then have at: "h1 n2 = Some \<lparr>sn_val = v, sn_sz = z, sn_parent = n, sn_left = 0, sn_right = 0\<rparr>"
    "h1 n = Some (if v < key h n then N\<lparr>sn_left := n2\<rparr> else N\<lparr>sn_right := n2\<rparr>)"
    using N by (auto simp: h1_def h2_def upd_apply)
  have entries: "entry h1 x = entry h x" if "x \<noteq> n2" for x using that out[of x] at(2) N by (cases "x = n") (auto simp: entry_def)
  have leaf: "if v < key h n then a = Leaf else b = Leaf" using f by (auto simp: found_def)
  show "s_tree h1 0 rt (plug (c # k) (Node Leaf n2 Leaf))"
    using k1 ab1 ab leaf N(2) n2(1) at by (auto simp: s_tree_plug c_def)
  define ls rs where "ls = (if v < key h n then before k else before k @ inorder a @ [n])"
    and "rs = (if v < key h n then n # inorder b @ behind k else behind k)"
  have i: "inorder ?t = ls @ rs" "inorder (plug (c # k) (Node Leaf n2 Leaf)) = ls @ n2 # rs"
    using leaf by (auto simp: ls_def rs_def c_def inorder_plug)
  have sub: "\<forall>x \<in> set (inorder a). key h x < key h n" "\<forall>x \<in> set (inorder b). key h n < key h x"
    using srt by (simp_all add: inorder_plug sorted_wrt_append)
  have path: "\<forall>x \<in> set (before k). key h x < v" "\<forall>x \<in> set (behind k). v < key h x" using f(1) by (simp_all add: found_def)
  have "\<forall>x \<in> set ls. key h x < v"
    using path(1) sub(1) f(2) unfolding ls_def by (cases "v < key h n") (auto intro: less_trans simp: not_less_iff_gr_or_eq)
  moreover have "\<forall>x \<in> set rs. v < key h x"
    using path(2) sub(2) f(2) unfolding rs_def by (cases "v < key h n") (auto intro: less_trans)
  moreover have "n2 \<notin> set (ls @ rs)" using s_tree_nodes[OF t] n2(2) unfolding i(1)[symmetric] by blast
  then have "\<forall>x \<in> set (ls @ rs). entry h1 x = entry h x" using entries by metis
  moreover have "entry h1 n2 = Some (v, z)" using at(1) by (simp add: entry_def)
  ultimately show "contents h1 (plug (c # k) (Node Leaf n2 Leaf)) = omap_update v z (contents h ?t)" "size_of (contents h ?t) v = 0"
    unfolding contents_def i by (rule insert_entry)+
  show "set (inorder (plug (c # k) (Node Leaf n2 Leaf))) = insert n2 (set (inorder ?t))" unfolding i by simp
qed

lemma updated_splay:
  assumes t1: "s_tree h1 0 rt (plug k (Node a n b))" and c: "contents h1 (plug k (Node a n b)) = m" and m: "omap_inv m"
    and ok: "h1 0 = None" "0 < nx" "\<forall>x. h1 x \<noteq> None \<longrightarrow> x < nx" and nx: "as_next s \<le> nx" "nx \<le> as_next s + sizeof_s_node"
    and nodes: "set (inorder (plug k (Node a n b))) \<subseteq> set (inorder t) \<union> {as_next s..<nx}"
    and frame: "\<forall>x. x \<notin> set (inorder t) \<union> {as_next s..<nx} \<longrightarrow> h1 x = as_nodes s x"
    and kn: "key h1 n = v" and s1: "s1 = s\<lparr>as_nodes := h1, as_next := nx\<rparr>"
  shows "\<exists>h'. s_splay n h1 = Some h' \<and> updated s t m v n (s1\<lparr>as_nodes := h'\<rparr>)"
proof -
  obtain h' a' b' where h': "s_splay n h1 = Some h'" "s_tree h' 0 n (Node a' n b')"
      "inorder (Node a' n b') = inorder (plug k (Node a n b))" "contents h' (Node a' n b') = m" "entry h' = entry h1" "h' 0 = None"
      "\<forall>x. x \<notin> set (inorder (plug k (Node a n b))) \<longrightarrow> h' x = h1 x"
    using splayed[OF t1 ok(1)] c m by auto
  have "h' x \<noteq> None \<longleftrightarrow> h1 x \<noteq> None" for x using fun_cong[OF h'(5), of x] by (cases "h' x"; cases "h1 x") (auto simp: entry_def)
  then have "store_ok (s1\<lparr>as_nodes := h'\<rparr>)" using h'(6) ok by (simp add: store_ok_def s1)
  moreover have "h' x = as_nodes s x" if x: "x \<notin> set (inorder t) \<union> {as_next s..<nx}" for x
    using h'(7)[rule_format, of x] frame[rule_format, OF x] x nodes by (metis subsetD)
  ultimately have "updated s t m v n (s1\<lparr>as_nodes := h'\<rparr>)"
    unfolding updated_def using h'(2-5) kn nodes nx by (intro conjI exI[of _ "Node a' n b'"]) (simp_all add: s1 key_def)
  then show ?thesis using h'(1) by blast
qed

text \<open>Where the search for \<open>v\<close> ends in a tree of the store.\<close>

lemma search_cases:
  assumes t: "s_tree (as_nodes s) 0 rt t" and m: "omap_inv (contents (as_nodes s) t)"
  obtains (empty) "t = Leaf" "s_find rt v (as_nodes s) = Some 0" "v \<notin> fst ` set (contents (as_nodes s) t)"
    | (hit) k a n b nd where "s_find rt v (as_nodes s) = Some n" "t = plug k (Node a n b)" "found (as_nodes s) v k a n b"
      "key (as_nodes s) n = v" "as_nodes s n = Some nd" "n \<noteq> 0" "sn_val nd = v" "v \<in> fst ` set (contents (as_nodes s) t)"
    | (miss) k a n b nd where "s_find rt v (as_nodes s) = Some n" "t = plug k (Node a n b)" "found (as_nodes s) v k a n b"
      "key (as_nodes s) n \<noteq> v" "as_nodes s n = Some nd" "n \<noteq> 0" "sn_val nd \<noteq> v" "v \<notin> fst ` set (contents (as_nodes s) t)"
proof (cases "t = Leaf")
  case True
  then show ?thesis using empty t by (simp add: contents_def s_find_def s_find_loop.simps)
next
  case False
  let ?h = "as_nodes s"
  have keys: "fst ` set (contents ?h t) = key ?h ` set (inorder t)" by (metis keys_contents set_map)
  have srt: "sorted_wrt (<) (map (key ?h) (inorder t))" using m by (simp add: omap_inv_def flip: keys_contents)
  obtain k a n b where f: "s_find rt v ?h = Some n" "t = plug k (Node a n b)" "found ?h v k a n b"
    using s_find_ok[OF t m, of v] False by blast
  obtain nd where nd: "?h n = Some nd" "n \<noteq> 0" using t f(2) by (auto simp: s_tree_plug split: option.splits)
  then have kn: "sn_val nd = key ?h n" by (simp add: key_def entry_def)
  show ?thesis
  proof (cases "key ?h n = v")
    case True
    then have "v \<in> fst ` set (contents ?h t)" unfolding keys by (auto simp: f(2) inorder_plug)
    then show ?thesis using hit[OF f True nd] kn True by simp
  next
    case ne: False
    then have "v \<notin> fst ` set (contents ?h t)" unfolding keys using found_key srt f(2,3) by blast
    then show ?thesis using miss[OF f ne nd] kn ne by simp
  qed
qed

text \<open>Both updates of a key of the tree: the new size, then the splay.\<close>

lemma resized:
  fixes z :: "u64 \<Rightarrow> u64"
  assumes ok: "store_ok s" and t: "s_tree (as_nodes s) 0 rt t" and m: "omap_inv (contents (as_nodes s) t)"
    and f: "t = plug k (Node a n b)" "found (as_nodes s) v k a n b" "key (as_nodes s) n = v" "as_nodes s n = Some nd"
  defines "c \<equiv> contents (as_nodes s) t"
  shows "\<exists>h'. s_splay n (upd (\<lambda>nd. nd\<lparr>sn_sz := z (sn_sz nd)\<rparr>) n (as_nodes s)) = Some h' \<and>
    updated s t (omap_update v (z (size_of c v)) c) v n (s\<lparr>as_nodes := h'\<rparr>)"
proof -
  have "\<exists>h'. s_splay n (upd (\<lambda>nd. nd\<lparr>sn_sz := z (sn_sz nd)\<rparr>) n (as_nodes s)) = Some h' \<and> updated s t (omap_update v (z (size_of c v)) c) v n
      (s\<lparr>as_nodes := upd (\<lambda>nd. nd\<lparr>sn_sz := z (sn_sz nd)\<rparr>) n (as_nodes s), as_next := as_next s\<rparr>\<lparr>as_nodes := h'\<rparr>)"
  proof (rule updated_splay[where nx = "as_next s", OF changed_size(1)[OF t[unfolded f(1)] m[unfolded f(1)] f(2,3)]])
    show "contents (upd (\<lambda>nd. nd\<lparr>sn_sz := z (sn_sz nd)\<rparr>) n (as_nodes s)) (plug k (Node a n b)) = omap_update v (z (size_of c v)) c"
      using changed_size(2)[OF t[unfolded f(1)] m[unfolded f(1)] f(2,3), of z] by (simp add: c_def f(1))
    have "n \<in> set (inorder t)" by (simp add: f(1) inorder_plug)
    then show "\<forall>x. x \<notin> set (inorder t) \<union> {as_next s..<as_next s} \<longrightarrow>
        upd (\<lambda>nd. nd\<lparr>sn_sz := z (sn_sz nd)\<rparr>) n (as_nodes s) x = as_nodes s x" by (auto simp: upd_apply)
    show "key (upd (\<lambda>nd. nd\<lparr>sn_sz := z (sn_sz nd)\<rparr>) n (as_nodes s)) n = v"
      using f(3,4) by (simp add: key_def entry_def upd_apply)
  qed (use ok m f in \<open>auto simp: store_ok_def c_def\<close>)
  then show ?thesis by simp
qed

text \<open>A new leaf, then the splay.\<close>

lemma grafted:
  fixes z :: u64
  assumes ok: "store_ok s" and t: "s_tree (as_nodes s) 0 rt t" and m: "omap_inv (contents (as_nodes s) t)"
    and f: "t = plug k (Node a n b)" "found (as_nodes s) v k a n b" "key (as_nodes s) n \<noteq> v" "as_nodes s n = Some nd"
  defines "h2 \<equiv> (as_nodes s)(as_next s \<mapsto> \<lparr>sn_val = v, sn_sz = z, sn_parent = n, sn_left = 0, sn_right = 0\<rparr>)"
    and "c \<equiv> contents (as_nodes s) t"
  defines "h1 \<equiv> (if v < key (as_nodes s) n then upd (to_left (as_next s)) n h2 else upd (to_right (as_next s)) n h2)"
  defines "s1 \<equiv> s\<lparr>as_nodes := h1, as_next := as_next s + sizeof_s_node\<rparr>"
  shows "\<exists>h'. s_splay (as_next s) h1 = Some h' \<and> updated s t (omap_update v (size_of c v + z) c) v (as_next s) (s1\<lparr>as_nodes := h'\<rparr>)"
proof -
  let ?h = "as_nodes s" and ?n2 = "as_next s"
  have fresh: "?h ?n2 = None" "?n2 \<noteq> 0" and h0: "?h 0 = None" and dom: "\<forall>x. ?h x \<noteq> None \<longrightarrow> x < ?n2"
    using ok by (auto simp: store_ok_def)
  have n: "n \<in> set (inorder t)" by (simp add: f(1) inorder_plug)
  note leaf = new_leaf[OF t[unfolded f(1)] m[unfolded f(1)] f(2,3) fresh(2,1)]
  note lf = leaf(1,2)[where z = z, folded h2_def, folded h1_def] and lf' = leaf(3,4)
  have "size_of c v = 0" using lf'(1) by (simp add: c_def f(1))
  then have cont: "contents h1 (plug ((if v < key ?h n then AtL n b else AtR a n) # k) (Node Leaf ?n2 Leaf)) =
      omap_update v (size_of c v + z) c"
    using lf(2) by (simp add: c_def f(1))
  have h1: "h1 x = None \<longleftrightarrow> ?h x = None \<and> x \<noteq> ?n2" "x \<notin> {n, ?n2} \<Longrightarrow> h1 x = ?h x" for x
    by (auto simp: h1_def h2_def upd_apply)
  show ?thesis
  proof (rule updated_splay[where nx = "?n2 + sizeof_s_node", OF lf(1) cont])
    show "\<forall>x. h1 x \<noteq> None \<longrightarrow> x < ?n2 + sizeof_s_node" using h1(1) dom by (auto simp: sizeof_s_node_def intro: less_trans)
    show "\<forall>x. x \<notin> set (inorder t) \<union> {?n2..<?n2 + sizeof_s_node} \<longrightarrow> h1 x = ?h x"
      using n by (auto intro!: h1(2) simp: sizeof_s_node_def)
    show "set (inorder (plug ((if v < key ?h n then AtL n b else AtR a n) # k) (Node Leaf ?n2 Leaf))) \<subseteq>
        set (inorder t) \<union> {?n2..<?n2 + sizeof_s_node}"
      using lf'(2) f(1) by (auto simp: sizeof_s_node_def)
    show "key h1 ?n2 = v" using f(4) fresh by (auto simp: h1_def h2_def key_def entry_def upd_apply)
  qed (use m h0 h1(1)[of 0] fresh in \<open>auto simp: c_def s1_def\<close>)
qed

lemma new_node_eq:
  assumes "store_ok s"
  shows "new_node nd s = (if as_next s + sizeof_s_node \<le> as_limit s
    then Some (as_next s, s\<lparr>as_nodes := (as_nodes s)(as_next s \<mapsto> nd), as_next := as_next s + sizeof_s_node\<rparr>) else None)"
  using assms by (simp add: new_node_def malloc_def store_ok_def)

text \<open>Adding to the tree fails only when memory for a new node is needed and there is none.\<close>

lemma s_update_add_ok:
  assumes ok: "store_ok s" and t: "s_tree (as_nodes s) 0 rt t" and m: "omap_inv (contents (as_nodes s) t)"
  defines "c \<equiv> contents (as_nodes s) t"
  shows "if v \<in> fst ` set c \<or> as_next s + sizeof_s_node \<le> as_limit s
    then \<exists>n s'. s_update_add rt v sz s = Some (n, s') \<and> updated s t (omap_update v (size_of c v + ucast sz) c) v n s'
    else s_update_add rt v sz s = None"
  using t m
proof (cases rule: search_cases[of s rt t v])
  case empty
  let ?h = "as_nodes s" and ?n2 = "as_next s"
  let ?h1 = "?h(?n2 \<mapsto> \<lparr>sn_val = v, sn_sz = ucast sz, sn_parent = 0, sn_left = 0, sn_right = 0\<rparr>)"
  let ?s1 = "s\<lparr>as_nodes := ?h1, as_next := ?n2 + sizeof_s_node\<rparr>"
  have "\<exists>h'. s_splay ?n2 ?h1 = Some h' \<and> updated s t (omap_update v (size_of c v + ucast sz) c) v ?n2 (?s1\<lparr>as_nodes := h'\<rparr>)"
    using empty ok m
    by (intro updated_splay[where k = "[]" and a = Leaf and b = Leaf and rt = ?n2 and nx = "?n2 + sizeof_s_node"])
      (auto simp: store_ok_def c_def contents_def key_def entry_def size_of_def omap_inv_def sizeof_s_node_def intro: less_trans)
  then show ?thesis using empty new_node_eq[OF ok] by (auto simp: s_update_add_def c_def)
next
  case (hit k a n b nd)
  show ?thesis using resized[OF ok t m hit(2-5), of "\<lambda>z. z + ucast sz"] hit
    by (auto simp: s_update_add_def assign_eq c_def)
next
  case (miss k a n b nd)
  have "as_next s \<noteq> n" using ok miss(5) by (auto simp: store_ok_def)
  then show ?thesis using grafted[OF ok t m miss(2-5), of "ucast sz"] miss new_node_eq[OF ok]
    by (auto simp: s_update_add_def assign_eq c_def key_def entry_def split: if_splits)
qed

lemma s_update_sub_ok:
  assumes ok: "store_ok s" and t: "s_tree (as_nodes s) 0 rt t" and m: "omap_inv (contents (as_nodes s) t)"
  defines "c \<equiv> contents (as_nodes s) t"
  shows "if v \<in> fst ` set c
    then \<exists>n s'. s_update_sub rt v sz s = Some (n, s') \<and> updated s t (omap_update v (size_of c v - ucast sz) c) v n s' \<and>
        as_next s' = as_next s
    else s_update_sub rt v sz s = Some (rt, s\<lparr>as_err := as_err s @ [Str (''Free from unknown'' @ NL), Endl]\<rparr>)"
  using t m
proof (cases rule: search_cases[of s rt t v])
  case (hit k a n b nd)
  show ?thesis using resized[OF ok t m hit(2-5), of "\<lambda>z. z - ucast sz"] hit
    by (auto simp: s_update_sub_def assign_eq c_def)
qed (auto simp: s_update_sub_def c_def)

section \<open>Correctness of the tree\<close>

text \<open>The sorted list of entries a tree in the store stands for.\<close>

definition tree_map :: "alloc_store \<Rightarrow> ptr \<Rightarrow> (u32 \<times> u64) list \<Rightarrow> bool" where
  "tree_map s rt m \<longleftrightarrow> (\<exists>t. s_tree (as_nodes s) 0 rt t \<and> contents (as_nodes s) t = m \<and> omap_inv m)"

lemma updated_map: "updated s t m v n s' \<Longrightarrow> omap_inv m \<Longrightarrow> store_ok s' \<and> tree_map s' n m \<and> key (as_nodes s') n = v"
  by (auto simp: updated_def tree_map_def)

text \<open>
  C10. Updating a splay tree is updating the map it stands for: adding bytes to a caller adds them to its entry, or
  makes the entry, subtracting takes them off, and both return with the caller at the root; subtracting from a
  caller that is not in the tree only reports it.
\<close>

theorem tree_update_refines:
  assumes "store_ok s" "tree_map s rt m" "as_next s + sizeof_s_node \<le> as_limit s"
  shows "(\<exists>n s'. s_update_add rt v sz s = Some (n, s') \<and> store_ok s' \<and>
      tree_map s' n (omap_update v (size_of m v + ucast sz) m) \<and> key (as_nodes s') n = v) \<and>
    (if v \<in> fst ` set m
      then \<exists>n s'. s_update_sub rt v sz s = Some (n, s') \<and> store_ok s' \<and>
        tree_map s' n (omap_update v (size_of m v - ucast sz) m) \<and> key (as_nodes s') n = v
      else s_update_sub rt v sz s = Some (rt, s\<lparr>as_err := as_err s @ [Str (''Free from unknown'' @ NL), Endl]\<rparr>))"
    (is "?add \<and> ?sub")
proof
  obtain t where t: "s_tree (as_nodes s) 0 rt t" "contents (as_nodes s) t = m" "omap_inv m"
    using assms(2) unfolding tree_map_def by blast
  show ?add using s_update_add_ok[OF assms(1) t(1), of v sz] assms(3) t(2,3) updated_map by fastforce
  show ?sub using s_update_sub_ok[OF assms(1) t(1), of v sz] t(2,3) updated_map by (fastforce split: if_splits)
qed

text \<open>A tree of three callers, 10 below 20 below 30, at the addresses 72, 48 and 24.\<close>

definition chain_nodes :: node_heap where
  "chain_nodes = [24 \<mapsto> \<lparr>sn_val = 30, sn_sz = 3, sn_parent = 0, sn_left = 48, sn_right = 0\<rparr>,
     48 \<mapsto> \<lparr>sn_val = 20, sn_sz = 2, sn_parent = 24, sn_left = 72, sn_right = 0\<rparr>,
     72 \<mapsto> \<lparr>sn_val = 10, sn_sz = 1, sn_parent = 48, sn_left = 0, sn_right = 0\<rparr>]"

definition chain_store :: alloc_store where
  "chain_store = \<lparr>as_nodes = chain_nodes, as_blocks = Map.empty, as_callers = None, as_next = 96, as_limit = 1000,
     as_out = [], as_err = []\<rparr>"

lemma chain_tree: "s_tree chain_nodes 0 24 (Node (Node (Node Leaf 72 Leaf) 48 Leaf) 24 Leaf)"
  by (simp add: chain_nodes_def)

lemma chain_store_ok: "store_ok chain_store" "tree_map chain_store 24 [(10, 1), (20, 2), (30, 3)]"
proof -
  show "store_ok chain_store" by (simp add: store_ok_def chain_store_def chain_nodes_def)
  have "contents chain_nodes (Node (Node (Node Leaf 72 Leaf) 48 Leaf) 24 Leaf) = [(10, 1), (20, 2), (30, 3)]"
    by (simp add: contents_def entry_def chain_nodes_def)
  moreover have "omap_inv [(10 :: u32, 1 :: u64), (20, 2), (30, 3)]" "as_nodes chain_store = chain_nodes"
    by (simp_all add: omap_inv_def chain_store_def)
  ultimately show "tree_map chain_store 24 [(10, 1), (20, 2), (30, 3)]" using chain_tree unfolding tree_map_def by metis
qed

theorem tree_update_refines_witness:
  "(\<exists>n s'. s_update_add 24 25 4 chain_store = Some (n, s') \<and> tree_map s' n [(10, 1), (20, 2), (25, 4), (30, 3)]) \<and>
   (\<exists>n s'. s_update_sub 24 10 1 chain_store = Some (n, s') \<and> tree_map s' n [(10, 0), (20, 2), (30, 3)]) \<and>
   s_update_sub 24 11 1 chain_store = Some (24, chain_store\<lparr>as_err := [Str (''Free from unknown'' @ NL), Endl]\<rparr>)"
  using tree_update_refines[OF chain_store_ok, of 25 4] tree_update_refines[OF chain_store_ok, of 10 1]
    tree_update_refines[OF chain_store_ok, of 11 1]
  by (fastforce simp: size_of_def chain_store_def sizeof_s_node_def)

lemma split_at_node: "n \<in> set (inorder t) \<Longrightarrow> \<exists>k a b. t = plug k (Node a n b)"
proof (induction t)
  case (Node l x r)
  then consider "n = x" | "n \<in> set (inorder l)" | "n \<in> set (inorder r)" by auto
  then show ?case
  proof cases
    case 1
    then show ?thesis by (metis plug.simps(1))
  next
    case 2
    then obtain k a b where "l = plug k (Node a n b)" using Node.IH(1) by blast
    then have "Node l x r = plug (k @ [AtL x r]) (Node a n b)" by (simp add: plug_append)
    then show ?thesis by blast
  next
    case 3
    then obtain k a b where "r = plug k (Node a n b)" using Node.IH(2) by blast
    then have "Node l x r = plug (k @ [AtR l x]) (Node a n b)" by (simp add: plug_append)
    then show ?thesis by blast
  qed
qed simp

text \<open>
  C24. The splay loop terminates from every node of a tree: it makes the node the root of a tree with the same nodes
  in the same order and the same data, and touches no other node.
\<close>

theorem splay_terminates:
  assumes "s_tree h 0 rt t" "h 0 = None" "distinct (inorder t)" "n \<in> set (inorder t)"
  shows "\<exists>h' t'. s_splay n h = Some h' \<and> s_tree h' 0 n t' \<and> inorder t' = inorder t \<and> entry h' = entry h \<and>
    (\<forall>x. x \<notin> set (inorder t) \<longrightarrow> h' x = h x)"
proof -
  obtain k a b where t: "t = plug k (Node a n b)" using split_at_node[OF assms(4)] by blast
  show ?thesis using s_splay_ok[OF assms(1)[unfolded t] assms(2) assms(3)[unfolded t]] unfolding t by blast
qed

theorem splay_terminates_witness:
  "\<exists>h' t'. s_splay 72 chain_nodes = Some h' \<and> s_tree h' 0 72 t' \<and> inorder t' = [72, 48, 24] \<and> entry h' = entry chain_nodes"
proof -
  have "chain_nodes 0 = None" "distinct (inorder (Node (Node (Node Leaf 72 Leaf) 48 Leaf) (24 :: ptr) Leaf))"
    "72 \<in> set (inorder (Node (Node (Node Leaf 72 Leaf) 48 Leaf) (24 :: ptr) Leaf))"
    by (simp_all add: chain_nodes_def)
  from splay_terminates[OF chain_tree this] show ?thesis by auto
qed

end
