(* ===== verification/AllocHist.thy ===== *)
theory AllocHist
  imports Splay_Update
begin

text \<open>
  The allocation history (\<^verbatim>\<open>common/allochist.cc\<close>): the replaced \<open>operator new\<close> and \<open>operator delete\<close> put a header
  with the addresses of the callers before every block and keep, for each of the last \<open>NUM_FRAMES\<close> stack frames, one
  splay tree from caller to the bytes allocated and not freed.  The stack is the argument \<open>stk\<close> (word at an address,
  \<open>None\<close> where nothing is mapped), \<open>ebp\<close> the frame pointer of \<open>operator new\<close>.  A pointer written to a stream is a
  \<open>Hex\<close> item.
\<close>

definition sizeof_alloc_info :: nat where [const_defs]: "sizeof_alloc_info = 8 + 4 * NUM_FRAMES"

section \<open>The callers\<close>

definition get_prev_ebp :: "(u32 \<Rightarrow> u32 option) \<Rightarrow> u32 \<Rightarrow> u32 option" where
  "get_prev_ebp stk ebp = stk ebp"

definition get_caller :: "(u32 \<Rightarrow> u32 option) \<Rightarrow> u32 \<Rightarrow> u32 option" where
  "get_caller stk ebp = stk (ebp + 4)"

fun get_callers_loop :: "nat \<Rightarrow> (u32 \<Rightarrow> u32 option) \<Rightarrow> u32 \<Rightarrow> u32 list option" where
  "get_callers_loop 0 stk ebp = Some []"
| "get_callers_loop (Suc k) stk ebp = do {
     c \<leftarrow> get_caller stk ebp;
     ebp' \<leftarrow> get_prev_ebp stk ebp;
     cs \<leftarrow> get_callers_loop k stk ebp';
     Some (c # cs)
   }"

definition get_callers :: "(u32 \<Rightarrow> u32 option) \<Rightarrow> u32 \<Rightarrow> u32 list option" where
  "get_callers stk ebp = get_callers_loop NUM_FRAMES stk ebp"

section \<open>Operations\<close>

text \<open>The loops over the frames: \<open>i\<close> is the frame, the first argument how many are left.\<close>

fun update_frames :: "(ptr \<Rightarrow> u32 \<Rightarrow> u32 \<Rightarrow> alloc_store \<Rightarrow> (ptr \<times> alloc_store) option) \<Rightarrow> nat \<Rightarrow> nat \<Rightarrow> u32 list \<Rightarrow> u32 \<Rightarrow>
    alloc_store \<Rightarrow> alloc_store option" where
  "update_frames f 0 i vs sz s = Some s"
| "update_frames f (Suc k) i vs sz s = do {
     cs \<leftarrow> as_callers s;
     if i < length cs \<and> i < length vs then do {
       (r, s1) \<leftarrow> f (cs ! i) (vs ! i) sz s;
       update_frames f k (Suc i) vs sz (s1\<lparr>as_callers := Some (cs[i := r])\<rparr>)
     } else None
   }"

datatype new_result = Bad_alloc | New ptr

definition init_callers :: "alloc_store \<Rightarrow> alloc_store option" where
  "init_callers s =
     (case as_callers s of
        Some _ \<Rightarrow> Some s
      | None \<Rightarrow>
          (let (c, s1) = malloc (NUM_FRAMES * 4) s
           in if c = 0 then None else Some (s1\<lparr>as_callers := Some (replicate NUM_FRAMES 0)\<rparr>)))"

text \<open>A size so large that the sum with the header wraps around gives a block too small for the header.\<close>

definition operator_new :: "(u32 \<Rightarrow> u32 option) \<Rightarrow> u32 \<Rightarrow> u32 \<Rightarrow> alloc_store \<Rightarrow> (new_result \<times> alloc_store) option" where
  "operator_new stk ebp sz s =
     (let (ret, s1) = malloc (unat (sz + of_nat sizeof_alloc_info)) s
      in if ret = 0 then Some (Bad_alloc, s1)
         else do {
           s2 \<leftarrow> init_callers s1;
           cs \<leftarrow> get_callers stk ebp;
           if unat (sz + of_nat sizeof_alloc_info) < sizeof_alloc_info then None
           else do {
             let s3 = s2\<lparr>as_blocks := (as_blocks s2)(ret \<mapsto> \<lparr>ai_mark = 0xdeadcafe, ai_sz = sz, ai_caller = cs\<rparr>)\<rparr>;
             s4 \<leftarrow> update_frames s_update_add NUM_FRAMES 0 cs sz s3;
             Some (New (ret + sizeof_alloc_info), s4)
           }
         })"

definition operator_delete :: "ptr \<Rightarrow> alloc_store \<Rightarrow> alloc_store option" where
  "operator_delete x s =
     (if x = 0 then Some s
      else if x < sizeof_alloc_info then None
      else do {
        let mem = x - sizeof_alloc_info;
        ai \<leftarrow> as_blocks s mem;
        s1 \<leftarrow> update_frames s_update_sub NUM_FRAMES 0 (ai_caller ai) (ai_sz ai) s;
        Some (s1\<lparr>as_blocks := (as_blocks s1)(mem := None)\<rparr>)
      })"

partial_function (option) traverse_inorder :: "node_heap \<Rightarrow> ptr \<Rightarrow> ostream option" where
  "traverse_inorder h n =
     (if n = 0 then Some []
      else do {
        nd \<leftarrow> h n;
        l \<leftarrow> traverse_inorder h (sn_left nd);
        r \<leftarrow> traverse_inorder h (sn_right nd);
        Some (l @ [Hex (ucast (sn_val nd)), Str '' '', Dec (uint (sn_sz nd)), Endl] @ r)
      })"

fun dump_frames :: "nat \<Rightarrow> nat \<Rightarrow> alloc_store \<Rightarrow> ostream option" where
  "dump_frames 0 i s = Some []"
| "dump_frames (Suc k) i s = do {
     cs \<leftarrow> as_callers s;
     if i < length cs then do {
       t \<leftarrow> traverse_inorder (as_nodes s) (cs ! i);
       rest \<leftarrow> dump_frames k (Suc i) s;
       Some ([Str ''CALLER INFO('', Dec (int i), Str ''):'', Endl] @ t @ rest)
     } else None
   }"

definition dump_alloc_hist :: "alloc_store \<Rightarrow> alloc_store option" where
  "dump_alloc_hist s = map_option (\<lambda>o'. s\<lparr>as_out := as_out s @ o'\<rparr>) (dump_frames NUM_FRAMES 0 s)"

section \<open>The forest of the frames\<close>

definition forest :: "node_heap \<Rightarrow> ptr list \<Rightarrow> ptr tree list \<Rightarrow> bool" where
  "forest h cs ts \<longleftrightarrow> length ts = length cs \<and>
     (\<forall>i < length cs. s_tree h 0 (cs ! i) (ts ! i) \<and> omap_inv (contents h (ts ! i))) \<and>
     (\<forall>i < length cs. \<forall>j < length cs. i \<noteq> j \<longrightarrow> set (inorder (ts ! i)) \<inter> set (inorder (ts ! j)) = {})"

lemma updated_other:
  assumes u: "updated s t m v n s'" and ok: "store_ok s" and t2: "s_tree (as_nodes s) 0 p t2"
    and dis: "set (inorder t) \<inter> set (inorder t2) = {}"
  shows "s_tree (as_nodes s') 0 p t2" "contents (as_nodes s') t2 = contents (as_nodes s) t2"
proof -
  have "\<forall>x \<in> set (inorder t2). as_nodes s' x = as_nodes s x"
  proof
    fix x assume x: "x \<in> set (inorder t2)"
    then have "x < as_next s" using s_tree_nodes[OF t2] ok by (auto simp: store_ok_def)
    then have "x \<notin> set (inorder t) \<union> {as_next s..<as_next s'}" using x dis by auto
    then show "as_nodes s' x = as_nodes s x" using u unfolding updated_def by blast
  qed
  then show "s_tree (as_nodes s') 0 p t2" "contents (as_nodes s') t2 = contents (as_nodes s) t2"
    using s_tree_frame[OF t2] by (auto simp: contents_def entry_def)
qed

lemma forest_update:
  assumes f: "forest (as_nodes s) cs ts" and ok: "store_ok s" and i: "i < length cs" and om: "omap_inv m"
    and u: "updated s (ts ! i) m v n s'"
  shows "\<exists>t'. forest (as_nodes s') (cs[i := n]) (ts[i := t']) \<and>
    map (contents (as_nodes s')) (ts[i := t']) = (map (contents (as_nodes s)) ts)[i := m]"
proof -
  obtain t' where t': "s_tree (as_nodes s') 0 n t'" "contents (as_nodes s') t' = m"
      "set (inorder t') \<subseteq> set (inorder (ts ! i)) \<union> {as_next s..<as_next s'}"
    using u unfolding updated_def by blast
  have len: "length ts = length cs" using f by (simp add: forest_def)
  have old: "s_tree (as_nodes s) 0 (cs ! j) (ts ! j)" "omap_inv (contents (as_nodes s) (ts ! j))" if "j < length cs" for j
    using f that by (simp_all add: forest_def)
  have dis: "set (inorder (ts ! j)) \<inter> set (inorder (ts ! l)) = {}" if "j < length cs" "l < length cs" "j \<noteq> l" for j l
    using f that unfolding forest_def by blast
  have new: "set (inorder t') \<inter> set (inorder (ts ! j)) = {}" if j: "j < length cs" "j \<noteq> i" for j
  proof -
    have "x < as_next s" if "x \<in> set (inorder (ts ! j))" for x using s_tree_nodes[OF old(1)[OF j(1)] that] ok by (auto simp: store_ok_def)
    then show ?thesis using t'(3) dis[OF i j(1)] j(2) by fastforce
  qed
  have keep: "s_tree (as_nodes s') 0 (cs ! j) (ts ! j)" "contents (as_nodes s') (ts ! j) = contents (as_nodes s) (ts ! j)"
    if "j < length cs" "j \<noteq> i" for j
    using updated_other[OF u ok old(1)] dis[OF i] that by auto
  have "forest (as_nodes s') (cs[i := n]) (ts[i := t'])"
    unfolding forest_def using len i t'(1,2) om keep old new dis by (simp add: nth_list_update Int_commute)
  moreover have "map (contents (as_nodes s')) (ts[i := t']) = (map (contents (as_nodes s)) ts)[i := m]"
    using len i t'(2) keep(2) by (auto intro!: nth_equalityI simp: nth_list_update)
  ultimately show ?thesis by blast
qed

text \<open>The update \<open>g\<close> of \<open>k\<close> frames from frame \<open>i\<close> on, on the lists of entries.\<close>

primrec on_frames :: "(u32 \<Rightarrow> u32 \<Rightarrow> (u32 \<times> u64) list \<Rightarrow> (u32 \<times> u64) list) \<Rightarrow> nat \<Rightarrow> nat \<Rightarrow> u32 list \<Rightarrow> u32 \<Rightarrow>
    (u32 \<times> u64) list list \<Rightarrow> (u32 \<times> u64) list list" where
  "on_frames g 0 i vs sz ms = ms"
| "on_frames g (Suc k) i vs sz ms = on_frames g k (Suc i) vs sz (ms[i := g (vs ! i) sz (ms ! i)])"

lemma length_on_frames [simp]: "length (on_frames g k i vs sz ms) = length ms"
  by (induction k arbitrary: i ms) auto

lemma nth_on_frames:
  "j < length ms \<Longrightarrow> on_frames g k i vs sz ms ! j = (if i \<le> j \<and> j < i + k then g (vs ! j) sz (ms ! j) else ms ! j)"
  by (induction k arbitrary: i ms) (auto simp: nth_list_update Suc_le_eq le_less)

text \<open>
  What both updates of a tree promise to the loops over the frames: \<open>g\<close> is what the update does to the sorted list of
  entries, \<open>pre\<close> what the entry has to satisfy, \<open>need\<close> the memory with which it surely returns.
\<close>

locale frame_update =
  fixes f :: "ptr \<Rightarrow> u32 \<Rightarrow> u32 \<Rightarrow> alloc_store \<Rightarrow> (ptr \<times> alloc_store) option"
    and g :: "u32 \<Rightarrow> u32 \<Rightarrow> (u32 \<times> u64) list \<Rightarrow> (u32 \<times> u64) list"
    and pre :: "u32 \<Rightarrow> (u32 \<times> u64) list \<Rightarrow> bool"
    and need :: nat
  assumes runs: "store_ok s \<Longrightarrow> s_tree (as_nodes s) 0 rt t \<Longrightarrow> omap_inv (contents (as_nodes s) t) \<Longrightarrow>
      pre v (contents (as_nodes s) t) \<Longrightarrow>
      f rt v sz s = None \<and> 0 < need \<and> as_limit s < as_next s + need \<or>
      (\<exists>n s'. f rt v sz s = Some (n, s') \<and> updated s t (g v sz (contents (as_nodes s) t)) v n s' \<and> as_next s' \<le> as_next s + need)"
    and sorts: "omap_inv m \<Longrightarrow> omap_inv (g v sz m)"
begin

definition frames_done :: "nat \<Rightarrow> nat \<Rightarrow> u32 list \<Rightarrow> u32 \<Rightarrow> alloc_store \<Rightarrow> ptr tree list \<Rightarrow> alloc_store \<Rightarrow> bool" where
  "frames_done k i vs sz s ts s' \<longleftrightarrow> (\<exists>cs' ts'. as_callers s' = Some cs' \<and> length cs' = length ts \<and>
     forest (as_nodes s') cs' ts' \<and> store_ok s' \<and> as_next s \<le> as_next s' \<and> as_next s' \<le> as_next s + k * need \<and>
     map (contents (as_nodes s')) ts' = on_frames g k i vs sz (map (contents (as_nodes s)) ts) \<and>
     s' = s\<lparr>as_nodes := as_nodes s', as_next := as_next s', as_callers := as_callers s'\<rparr>)"

lemma frames_ok:
  assumes "forest (as_nodes s) cs ts" "store_ok s" "as_callers s = Some cs" "i + k = length cs" "length vs = length cs"
    "\<forall>j < length cs. i \<le> j \<longrightarrow> pre (vs ! j) (contents (as_nodes s) (ts ! j))"
  shows "update_frames f k i vs sz s = None \<and> 0 < need \<and> as_limit s < as_next s + k * need \<or>
    (\<exists>s'. update_frames f k i vs sz s = Some s' \<and> frames_done k i vs sz s ts s')"
  using assms
proof (induction k arbitrary: i s cs ts)
  case 0
  then show ?case by (auto simp: frames_done_def forest_def)
next
  case (Suc k)
  have i: "i < length cs" "i < length vs" using Suc.prems(4,5) by auto
  have len: "length ts = length cs" using Suc.prems(1) by (simp add: forest_def)
  let ?c = "contents (as_nodes s) (ts ! i)"
  have ti: "s_tree (as_nodes s) 0 (cs ! i) (ts ! i)" "omap_inv ?c" using Suc.prems(1) i by (auto simp: forest_def)
  have "pre (vs ! i) ?c" using Suc.prems(6) i by auto
  then consider "f (cs ! i) (vs ! i) sz s = None" "0 < need" "as_limit s < as_next s + need"
    | n s1 where "f (cs ! i) (vs ! i) sz s = Some (n, s1)" "updated s (ts ! i) (g (vs ! i) sz ?c) (vs ! i) n s1"
      "as_next s1 \<le> as_next s + need"
    using runs[OF Suc.prems(2) ti, of "vs ! i" sz] by auto
  then show ?case
  proof cases
    case 1
    then show ?thesis using Suc.prems(3) i by auto
  next
    case s1: 2
    have s1_eq: "s1 = s\<lparr>as_nodes := as_nodes s1, as_next := as_next s1\<rparr>" "store_ok s1" "as_next s \<le> as_next s1"
      using s1(2) unfolding updated_def by blast+
    obtain t' where t': "forest (as_nodes s1) (cs[i := n]) (ts[i := t'])"
        "map (contents (as_nodes s1)) (ts[i := t']) = (map (contents (as_nodes s)) ts)[i := g (vs ! i) sz ?c]"
      using forest_update[OF Suc.prems(1,2) i(1) sorts[OF ti(2)] s1(2)] by blast
    let ?s1 = "s1\<lparr>as_callers := Some (cs[i := n])\<rparr>"
    have same: "contents (as_nodes s1) (ts[i := t'] ! j) = contents (as_nodes s) (ts ! j)" if "j < length cs" "Suc i \<le> j" for j
      using arg_cong[OF t'(2), of "\<lambda>l. l ! j"] that len by simp
    have lim: "as_limit s1 = as_limit s" using arg_cong[OF s1_eq(1), of as_limit] by simp
    have "update_frames f k (Suc i) vs sz ?s1 = None \<and> 0 < need \<and> as_limit ?s1 < as_next ?s1 + k * need \<or>
        (\<exists>s'. update_frames f k (Suc i) vs sz ?s1 = Some s' \<and> frames_done k (Suc i) vs sz ?s1 (ts[i := t']) s')"
      using Suc.prems(4-6) t'(1) s1_eq(2) same len by (intro Suc.IH[of _ "cs[i := n]"]) (auto simp: store_ok_def)
    moreover have "update_frames f (Suc k) i vs sz s = update_frames f k (Suc i) vs sz ?s1" using Suc.prems(3) i s1(1) by simp
    moreover have "frames_done (Suc k) i vs sz s ts s'" if d: "frames_done k (Suc i) vs sz ?s1 (ts[i := t']) s'" for s'
    proof -
      have e: "s' = ?s1\<lparr>as_nodes := as_nodes s', as_next := as_next s', as_callers := as_callers s'\<rparr>"
        using d unfolding frames_done_def by blast
      have "s' = s\<lparr>as_nodes := as_nodes s', as_next := as_next s', as_callers := as_callers s'\<rparr>"
        by (subst e, subst s1_eq(1)) simp
      then show ?thesis using d s1(3) s1_eq(3) t'(2) i len unfolding frames_done_def by auto
    qed
    ultimately show ?thesis using s1(3) lim by auto
  qed
qed

end

definition grown :: "u32 \<Rightarrow> u32 \<Rightarrow> (u32 \<times> u64) list \<Rightarrow> (u32 \<times> u64) list" where
  "grown v sz m = omap_update v (size_of m v + ucast sz) m"

definition shrunk :: "u32 \<Rightarrow> u32 \<Rightarrow> (u32 \<times> u64) list \<Rightarrow> (u32 \<times> u64) list" where
  "shrunk v sz m = omap_update v (size_of m v - ucast sz) m"

interpretation adding: frame_update s_update_add grown "\<lambda>_ _. True" sizeof_s_node
proof
  fix s rt t v sz
  assume "store_ok s" "s_tree (as_nodes s) 0 rt t" "omap_inv (contents (as_nodes s) t)"
  from s_update_add_ok[OF this, of v sz] show "s_update_add rt v sz s = None \<and> 0 < sizeof_s_node \<and> as_limit s < as_next s + sizeof_s_node \<or>
      (\<exists>n s'. s_update_add rt v sz s = Some (n, s') \<and> updated s t (grown v sz (contents (as_nodes s) t)) v n s' \<and>
        as_next s' \<le> as_next s + sizeof_s_node)"
    unfolding grown_def by (auto split: if_splits simp: updated_def sizeof_s_node_def)
qed (simp add: grown_def)

interpretation freeing: frame_update s_update_sub shrunk "\<lambda>v m. v \<in> fst ` set m" 0
proof
  fix s rt t v sz
  assume "store_ok s" "s_tree (as_nodes s) 0 rt t" "omap_inv (contents (as_nodes s) t)" "v \<in> fst ` set (contents (as_nodes s) t)"
  then have "\<exists>n s'. s_update_sub rt v sz s = Some (n, s') \<and>
      updated s t (shrunk v sz (contents (as_nodes s) t)) v n s' \<and> as_next s' = as_next s"
    using s_update_sub_ok[of s rt t v sz] unfolding shrunk_def by simp
  then show "s_update_sub rt v sz s = None \<and> (0::nat) < 0 \<and> as_limit s < as_next s + 0 \<or> (\<exists>n s'. s_update_sub rt v sz s = Some (n, s') \<and>
      updated s t (shrunk v sz (contents (as_nodes s) t)) v n s' \<and> as_next s' \<le> as_next s + 0)"
    by auto
qed (simp add: shrunk_def)

section \<open>Runs\<close>

text \<open>The live blocks whose caller in frame \<open>i\<close> is \<open>v\<close>, and their bytes.\<close>

definition blocks_of :: "alloc_store \<Rightarrow> nat \<Rightarrow> u32 \<Rightarrow> ptr set" where
  "blocks_of s i v = {p. \<exists>ai. as_blocks s p = Some ai \<and> ai_caller ai ! i = v}"

definition live_bytes :: "alloc_store \<Rightarrow> nat \<Rightarrow> u32 \<Rightarrow> u64" where
  "live_bytes s i v = (\<Sum>p \<in> blocks_of s i v. ucast (ai_sz (the (as_blocks s p))))"

text \<open>The lists of entries \<open>ms\<close> account for all live blocks.\<close>

definition accounts :: "alloc_store \<Rightarrow> (u32 \<times> u64) list list \<Rightarrow> bool" where
  "accounts s ms \<longleftrightarrow> length ms = NUM_FRAMES \<and> (\<forall>i < NUM_FRAMES. omap_inv (ms ! i) \<and>
     (\<forall>v. size_of (ms ! i) v = live_bytes s i v \<and> (blocks_of s i v \<noteq> {} \<longrightarrow> v \<in> fst ` set (ms ! i))))"

definition hist_ok :: "alloc_store \<Rightarrow> bool" where
  "hist_ok s \<longleftrightarrow> store_ok s \<and> finite (dom (as_blocks s)) \<and> as_err s = [] \<and>
     (\<forall>p ai. as_blocks s p = Some ai \<longrightarrow> 0 < p \<and> p < as_next s \<and> length (ai_caller ai) = NUM_FRAMES) \<and>
     (case as_callers s of
        None \<Rightarrow> as_blocks s = Map.empty
      | Some cs \<Rightarrow> length cs = NUM_FRAMES \<and>
          (\<exists>ts. forest (as_nodes s) cs ts \<and> accounts s (map (contents (as_nodes s)) ts)))"

definition hist_initial :: "alloc_store \<Rightarrow> bool" where
  "hist_initial s \<longleftrightarrow> as_nodes s = Map.empty \<and> as_blocks s = Map.empty \<and> as_callers s = None \<and> 0 < as_next s \<and> as_err s = []"

text \<open>A program that frees only what it holds.\<close>

inductive hist_step :: "alloc_store \<Rightarrow> alloc_store \<Rightarrow> bool" where
  step_new: "operator_new stk ebp sz s = Some (r, s') \<Longrightarrow> hist_step s s'"
| step_delete: "as_blocks s p = Some ai \<Longrightarrow> operator_delete (p + sizeof_alloc_info) s = Some s' \<Longrightarrow> hist_step s s'"

lemma grown_shrunk [simp]:
  "fst ` set (grown v sz m) = insert v (fst ` set m)" "fst ` set (shrunk v sz m) = insert v (fst ` set m)"
  "omap_inv m \<Longrightarrow> omap_inv (grown v sz m)" "omap_inv m \<Longrightarrow> omap_inv (shrunk v sz m)"
  by (simp_all add: grown_def shrunk_def)

lemma size_of_grown: "omap_inv m \<Longrightarrow> size_of (grown v sz m) w = size_of m w + (if w = v then ucast sz else 0)"
  by (simp add: size_of_def grown_def)

lemma size_of_shrunk: "omap_inv m \<Longrightarrow> size_of (shrunk v sz m) w = size_of m w - (if w = v then ucast sz else 0)"
  by (simp add: size_of_def shrunk_def)

lemma live_bytes_insert:
  assumes fin: "finite (dom (as_blocks s))" and p: "as_blocks s p = None" and b: "as_blocks s' = (as_blocks s)(p \<mapsto> ai)"
  shows "live_bytes s' i v = live_bytes s i v + (if v = ai_caller ai ! i then ucast (ai_sz ai) else 0)"
    "blocks_of s' i v = blocks_of s i v \<union> (if v = ai_caller ai ! i then {p} else {})"
proof -
  show set: "blocks_of s' i v = blocks_of s i v \<union> (if v = ai_caller ai ! i then {p} else {})"
    using p b by (auto simp: blocks_of_def)
  have f: "finite (blocks_of s i v)" by (rule finite_subset[OF _ fin]) (auto simp: blocks_of_def)
  have p': "p \<notin> blocks_of s i v" using p by (simp add: blocks_of_def)
  have same: "(\<Sum>q \<in> blocks_of s i v. ucast (ai_sz (the (as_blocks s' q)))) = live_bytes s i v"
    unfolding live_bytes_def using p' b by (intro sum.cong) auto
  show "live_bytes s' i v = live_bytes s i v + (if v = ai_caller ai ! i then ucast (ai_sz ai) else 0)"
  proof (cases "v = ai_caller ai ! i")
    case True
    then show ?thesis using f p' same b unfolding live_bytes_def[of s'] set by (simp add: add.commute)
  next
    case False
    then show ?thesis using same unfolding live_bytes_def[of s'] set by simp
  qed
qed

lemma accounts_new:
  assumes a: "accounts s ms" and fin: "finite (dom (as_blocks s))" and p: "as_blocks s p = None" "length vs = NUM_FRAMES"
    and b: "as_blocks s' = (as_blocks s)(p \<mapsto> \<lparr>ai_mark = mk, ai_sz = sz, ai_caller = vs\<rparr>)"
  shows "accounts s' (on_frames grown NUM_FRAMES 0 vs sz ms)"
  using a live_bytes_insert[OF fin p(1) b] unfolding accounts_def
  by (auto simp: nth_on_frames size_of_grown)

lemma accounts_delete:
  assumes a: "accounts s ms" and fin: "finite (dom (as_blocks s))" and p: "as_blocks s p = Some ai" "length (ai_caller ai) = NUM_FRAMES"
    and b: "as_blocks s' = (as_blocks s)(p := None)"
  shows "accounts s' (on_frames shrunk NUM_FRAMES 0 (ai_caller ai) (ai_sz ai) ms)"
proof -
  have f: "finite (dom (as_blocks s'))" and "as_blocks s' p = None" using fin b by simp_all
  moreover have "as_blocks s = (as_blocks s')(p \<mapsto> ai)" using p(1) b by (simp add: fun_eq_iff)
  ultimately have ins: "live_bytes s i v = live_bytes s' i v + (if v = ai_caller ai ! i then ucast (ai_sz ai) else 0)"
    "blocks_of s i v = blocks_of s' i v \<union> (if v = ai_caller ai ! i then {p} else {})" for i v by (rule live_bytes_insert)+
  show ?thesis using a unfolding accounts_def ins by (auto simp: nth_on_frames size_of_shrunk)
qed

lemma get_callers_length: "get_callers stk ebp = Some cs \<Longrightarrow> length cs = NUM_FRAMES"
proof -
  have "get_callers_loop k stk ebp = Some cs \<Longrightarrow> length cs = k" for k cs
    by (induction k arbitrary: ebp cs) (auto split: bind_splits)
  then show "get_callers stk ebp = Some cs \<Longrightarrow> length cs = NUM_FRAMES" by (simp add: get_callers_def)
qed

lemma accounts_cong: "as_blocks s' = as_blocks s \<Longrightarrow> accounts s' ms = accounts s ms"
  by (simp add: accounts_def live_bytes_def blocks_of_def)

lemma hist_ok_next:
  assumes ok: "hist_ok s" and n: "as_next s \<le> n" shows "hist_ok (s\<lparr>as_next := n\<rparr>)"
proof -
  have "store_ok (s\<lparr>as_next := n\<rparr>)" using ok n unfolding hist_ok_def store_ok_def by (auto intro: less_le_trans)
  then show ?thesis using ok n accounts_cong[of "s\<lparr>as_next := n\<rparr>" s]
    unfolding hist_ok_def by (auto intro: less_le_trans split: option.splits)
qed

text \<open>The first allocation makes empty trees.\<close>

lemma init_callers_ok:
  assumes ok: "hist_ok s" and r: "init_callers s = Some s'"
  shows "hist_ok s'" "as_callers s' \<noteq> None" "as_next s \<le> as_next s'"
    "s' = s\<lparr>as_next := as_next s', as_callers := as_callers s'\<rparr>"
proof -
  have "hist_ok s' \<and> as_callers s' \<noteq> None \<and> as_next s \<le> as_next s' \<and> s' = s\<lparr>as_next := as_next s', as_callers := as_callers s'\<rparr>"
  proof (cases "as_callers s")
    case None
    let ?ts = "replicate NUM_FRAMES Leaf :: ptr tree list"
    have s': "s' = s\<lparr>as_next := as_next s + NUM_FRAMES * 4, as_callers := Some (replicate NUM_FRAMES 0)\<rparr>"
      using r None by (auto simp: init_callers_def malloc_def split: if_splits)
    have "forest (as_nodes s) (replicate NUM_FRAMES 0) ?ts" by (simp add: forest_def contents_def)
    moreover have "as_blocks s = Map.empty" using ok None by (simp add: hist_ok_def)
    then have "accounts s' (map (contents (as_nodes s)) ?ts)"
      by (simp add: s' accounts_def contents_def live_bytes_def blocks_of_def size_of_def)
    ultimately show ?thesis using ok None
      by (auto simp: s' hist_ok_def store_ok_def intro: exI[of _ ?ts] trans_less_add1)
  qed (use r ok in \<open>simp add: init_callers_def\<close>)
  then show "hist_ok s'" "as_callers s' \<noteq> None" "as_next s \<le> as_next s'"
    "s' = s\<lparr>as_next := as_next s', as_callers := as_callers s'\<rparr>" by blast+
qed

lemma malloc_ok:
  assumes ok: "hist_ok s" and r: "malloc n s = (p, s')"
  shows "hist_ok s'" "as_blocks s p = None" "p \<noteq> 0 \<Longrightarrow> 0 < n \<Longrightarrow> p < as_next s'" "s' = s\<lparr>as_next := as_next s'\<rparr>"
proof -
  have "as_blocks s (as_next s) = None" "as_blocks s 0 = None"
    using ok unfolding hist_ok_def by (metis less_irrefl not_None_eq)+
  then show "as_blocks s p = None" using r by (auto simp: malloc_def split: if_splits)
  show "hist_ok s'" using ok r by (auto simp: malloc_def hist_ok_next split: if_splits)
qed (use r in \<open>auto simp: malloc_def split: if_splits\<close>)

lemma hist_okI:
  assumes "store_ok s" "finite (dom (as_blocks s))" "as_err s = []" "as_callers s = Some cs" "length cs = NUM_FRAMES"
    "forest (as_nodes s) cs ts" "accounts s (map (contents (as_nodes s)) ts)"
    "\<And>p ai. as_blocks s p = Some ai \<Longrightarrow> 0 < p \<and> p < as_next s \<and> length (ai_caller ai) = NUM_FRAMES"
  shows "hist_ok s"
  using assms by (auto simp: hist_ok_def)

lemma hist_ok_block:
  "hist_ok s \<Longrightarrow> as_blocks s p = Some ai \<Longrightarrow> 0 < p \<and> p < as_next s \<and> length (ai_caller ai) = NUM_FRAMES"
  by (simp add: hist_ok_def)

lemma frames_new:
  assumes ok: "hist_ok s" and c: "as_callers s \<noteq> None" and p: "as_blocks s p = None" "0 < p" "p < as_next s" and vs: "length vs = NUM_FRAMES"
    and s1: "s1 = s\<lparr>as_blocks := (as_blocks s)(p \<mapsto> \<lparr>ai_mark = mk, ai_sz = sz, ai_caller = vs\<rparr>)\<rparr>"
  shows "update_frames s_update_add NUM_FRAMES 0 vs sz s1 = None \<and> as_limit s < as_next s + NUM_FRAMES * sizeof_s_node \<or>
    (\<exists>s'. update_frames s_update_add NUM_FRAMES 0 vs sz s1 = Some s' \<and> hist_ok s' \<and> as_blocks s' = as_blocks s1)"
proof -
  obtain cs ts where f: "as_callers s = Some cs" "length cs = NUM_FRAMES" "forest (as_nodes s) cs ts"
      "accounts s (map (contents (as_nodes s)) ts)"
    using ok c unfolding hist_ok_def by (auto split: option.splits)
  have "update_frames s_update_add NUM_FRAMES 0 vs sz s1 = None \<and> 0 < sizeof_s_node \<and> as_limit s1 < as_next s1 + NUM_FRAMES * sizeof_s_node \<or>
      (\<exists>s'. update_frames s_update_add NUM_FRAMES 0 vs sz s1 = Some s' \<and> adding.frames_done NUM_FRAMES 0 vs sz s1 ts s')"
    using f vs ok by (intro adding.frames_ok[of _ cs]) (simp_all add: s1 hist_ok_def store_ok_def)
  moreover have "hist_ok s' \<and> as_blocks s' = as_blocks s1" if d: "adding.frames_done NUM_FRAMES 0 vs sz s1 ts s'" for s'
  proof -
    obtain cs' ts' where d': "as_callers s' = Some cs'" "length cs' = length ts" "forest (as_nodes s') cs' ts'" "store_ok s'" "as_next s1 \<le> as_next s'"
        "map (contents (as_nodes s')) ts' = on_frames grown NUM_FRAMES 0 vs sz (map (contents (as_nodes s1)) ts)"
        and e: "s' = s1\<lparr>as_nodes := as_nodes s', as_next := as_next s', as_callers := as_callers s'\<rparr>"
      using d unfolding adding.frames_done_def by blast
    have b: "as_blocks s' = as_blocks s1" "as_err s' = as_err s1" by (subst e, simp)+
    have fin: "finite (dom (as_blocks s))" and err: "as_err s = []" using ok by (simp_all add: hist_ok_def)
    have acc: "accounts s' (map (contents (as_nodes s')) ts')"
      unfolding d'(6) using accounts_new[OF f(4) fin p(1) vs] b(1) by (simp add: s1)
    have blk: "0 < q \<and> q < as_next s' \<and> length (ai_caller ai) = NUM_FRAMES" if "as_blocks s' q = Some ai" for q ai
      using that hist_ok_block[OF ok] b(1) d'(5) p vs by (fastforce simp: s1 split: if_splits)
    have "length cs' = NUM_FRAMES" using d'(2) f(2,3) by (simp add: forest_def)
    then have "hist_ok s'" using blk fin err b d' by (intro hist_okI[OF d'(4) _ _ d'(1) _ d'(3) acc]) (simp_all add: s1)
    then show ?thesis using b(1) by simp
  qed
  ultimately show ?thesis by (auto simp: s1)
qed

lemma operator_new_ok:
  assumes ok: "hist_ok s" and r: "operator_new stk ebp sz s = Some (r, s')"
  shows "hist_ok s'"
proof -
  let ?n = "unat (sz + of_nat sizeof_alloc_info)"
  obtain p s1 where m: "malloc ?n s = (p, s1)" by fastforce
  note ok1 = malloc_ok[OF ok m]
  show ?thesis
  proof (cases "p = 0")
    case True
    then show ?thesis using r m ok1(1) by (simp add: operator_new_def)
  next
    case False
    then obtain s2 vs where s2: "init_callers s1 = Some s2" "get_callers stk ebp = Some vs" "sizeof_alloc_info \<le> ?n"
        "update_frames s_update_add NUM_FRAMES 0 vs sz
          (s2\<lparr>as_blocks := (as_blocks s2)(p \<mapsto> \<lparr>ai_mark = 0xdeadcafe, ai_sz = sz, ai_caller = vs\<rparr>)\<rparr>) = Some s'"
      using r m by (auto simp: operator_new_def Let_def not_less split: bind_splits if_splits)
    note ok2 = init_callers_ok[OF ok1(1) s2(1)]
    have "0 < ?n" using s2(3) by (simp add: sizeof_alloc_info_def)
    then have "p < as_next s2" using ok1(3) ok2(3) False by simp
    moreover have "as_blocks s2 p = None" using ok1(2) arg_cong[OF ok1(4), of as_blocks] arg_cong[OF ok2(4), of as_blocks] by simp
    ultimately show ?thesis using frames_new[OF ok2(1,2) _ _ _ get_callers_length[OF s2(2)] refl, of p sz "0xdeadcafe"] False s2(4) by auto
  qed
qed

lemma operator_delete_ok:
  assumes ok: "hist_ok s" and p: "as_blocks s p = Some ai"
  shows "\<exists>s'. operator_delete (p + sizeof_alloc_info) s = Some s' \<and> hist_ok s' \<and> as_blocks s' = (as_blocks s)(p := None)"
proof -
  have vs: "length (ai_caller ai) = NUM_FRAMES" "0 < p" using ok p by (auto simp: hist_ok_def)
  have "as_callers s \<noteq> None" using ok p by (auto simp: hist_ok_def split: option.splits)
  then obtain cs ts where f: "as_callers s = Some cs" "length cs = NUM_FRAMES" "forest (as_nodes s) cs ts"
      "accounts s (map (contents (as_nodes s)) ts)"
    using ok unfolding hist_ok_def by (auto split: option.splits)
  have "ai_caller ai ! j \<in> fst ` set (contents (as_nodes s) (ts ! j))" if "j < length cs" for j
  proof -
    have "p \<in> blocks_of s j (ai_caller ai ! j)" using p by (simp add: blocks_of_def)
    then have "blocks_of s j (ai_caller ai ! j) \<noteq> {}" by blast
    then have "ai_caller ai ! j \<in> fst ` set (map (contents (as_nodes s)) ts ! j)" using f(2,4) that unfolding accounts_def by metis
    then show ?thesis using f(3) that by (simp add: forest_def)
  qed
  then obtain s' where s': "update_frames s_update_sub NUM_FRAMES 0 (ai_caller ai) (ai_sz ai) s = Some s'"
      "freeing.frames_done NUM_FRAMES 0 (ai_caller ai) (ai_sz ai) s ts s'"
    using freeing.frames_ok[OF f(3) _ f(1), of 0 NUM_FRAMES "ai_caller ai" "ai_sz ai"] ok f(2) vs(1) by (auto simp: hist_ok_def)
  obtain cs' ts' where d': "as_callers s' = Some cs'" "length cs' = length ts" "forest (as_nodes s') cs' ts'" "store_ok s'" "as_next s \<le> as_next s'"
      "map (contents (as_nodes s')) ts' = on_frames shrunk NUM_FRAMES 0 (ai_caller ai) (ai_sz ai) (map (contents (as_nodes s)) ts)"
      and e: "s' = s\<lparr>as_nodes := as_nodes s', as_next := as_next s', as_callers := as_callers s'\<rparr>"
    using s'(2) unfolding freeing.frames_done_def by blast
  have b: "as_blocks s' = as_blocks s" "as_err s' = as_err s" by (subst e, simp)+
  have fin: "finite (dom (as_blocks s))" and err: "as_err s = []" using ok by (simp_all add: hist_ok_def)
  let ?s = "s'\<lparr>as_blocks := (as_blocks s')(p := None)\<rparr>"
  have acc: "accounts ?s (map (contents (as_nodes s')) ts')"
    unfolding d'(6) using accounts_delete[OF f(4) fin p vs(1), of ?s] b(1) by simp
  have blk: "0 < q \<and> q < as_next s' \<and> length (ai_caller x) = NUM_FRAMES" if "as_blocks s q = Some x" for q x
    using that hist_ok_block[OF ok that] d'(5) by simp
  have "length cs' = NUM_FRAMES" using d'(2) f(2,3) by (simp add: forest_def)
  then have "hist_ok ?s" using acc blk fin err b d' by (intro hist_okI[where cs = cs' and ts = ts']) (auto simp: store_ok_def split: if_splits)
  moreover have "operator_delete (p + sizeof_alloc_info) s = Some ?s" using p s'(1) vs(2) by (simp add: operator_delete_def)
  ultimately show ?thesis using b(1) by auto
qed

interpretation history: transition_system hist_initial hist_step hist_ok
proof
  show "hist_ok s" if "hist_initial s" for s using that by (simp add: hist_initial_def hist_ok_def store_ok_def)
  show "hist_ok t" if ok: "hist_ok s" and st: "hist_step s t" for s t
    using st
  proof cases
    case step_new
    then show ?thesis using operator_new_ok[OF ok] by blast
  next
    case (step_delete p ai)
    then show ?thesis using operator_delete_ok[OF ok] by (metis option.inject)
  qed
qed

section \<open>The report\<close>

definition entry_line :: "u32 \<times> u64 \<Rightarrow> ostream" where
  "entry_line e = [Hex (ucast (fst e)), Str '' '', Dec (uint (snd e)), Endl]"

primrec frame_lines :: "nat \<Rightarrow> (u32 \<times> u64) list list \<Rightarrow> ostream" where
  "frame_lines i [] = []"
| "frame_lines i (m # ms) = [Str ''CALLER INFO('', Dec (int i), Str ''):'', Endl] @ concat (map entry_line m) @ frame_lines (Suc i) ms"

lemma traverse_ok: "s_tree h q p t \<Longrightarrow> traverse_inorder h p = Some (concat (map entry_line (contents h t)))"
proof (induction t arbitrary: q p)
  case (Node l x r)
  then obtain n where n: "p = x" "x \<noteq> 0" "h x = Some n" "s_tree h x (sn_left n) l" "s_tree h x (sn_right n) r"
    by (auto split: option.splits)
  have "the (entry h x) = (sn_val n, sn_sz n)" using n(3) by (simp add: entry_def)
  then show ?case using n Node.IH(1)[OF n(4)] Node.IH(2)[OF n(5)]
    by (simp add: traverse_inorder.simps[of h x] contents_def entry_line_def)
qed (simp add: traverse_inorder.simps[of h 0] contents_def)

lemma dump_frames_ok:
  assumes f: "forest (as_nodes s) cs ts" and c: "as_callers s = Some cs"
  shows "i + k = length cs \<Longrightarrow> dump_frames k i s = Some (frame_lines i (drop i (map (contents (as_nodes s)) ts)))"
proof (induction k arbitrary: i)
  case 0
  then show ?case using f by (simp add: forest_def)
next
  case (Suc k)
  then have i: "i < length cs" "i < length ts" "s_tree (as_nodes s) 0 (cs ! i) (ts ! i)" using f by (auto simp: forest_def)
  then have "drop i (map (contents (as_nodes s)) ts) = contents (as_nodes s) (ts ! i) # drop (Suc i) (map (contents (as_nodes s)) ts)"
    by (simp add: Cons_nth_drop_Suc[symmetric] drop_map)
  then show ?case using Suc i c traverse_ok[OF i(3)] by simp
qed

lemma dump_ok:
  assumes "forest (as_nodes s) cs ts" "as_callers s = Some cs" "length cs = NUM_FRAMES"
  shows "dump_alloc_hist s = Some (s\<lparr>as_out := as_out s @ frame_lines 0 (map (contents (as_nodes s)) ts)\<rparr>)"
  using dump_frames_ok[OF assms(1,2), of 0 NUM_FRAMES] assms(3) by (simp add: dump_alloc_hist_def)

text \<open>
  C11. After any allocations and releases the history is exact: for each of the three frames the report lists, in
  ascending order of the caller, the bytes of the live blocks of that caller (modulo $2^{64}$).  Releasing a live
  block always returns and never meets an unknown caller.
\<close>

theorem alloc_hist_exact:
  assumes "hist_initial s0" "hist_step\<^sup>*\<^sup>* s0 s" "as_callers s \<noteq> None"
  shows "(\<exists>ms. length ms = NUM_FRAMES \<and> (\<forall>i < NUM_FRAMES. omap_inv (ms ! i) \<and> (\<forall>v. size_of (ms ! i) v = live_bytes s i v)) \<and>
      dump_alloc_hist s = Some (s\<lparr>as_out := as_out s @ frame_lines 0 ms\<rparr>)) \<and>
    (\<forall>p. as_blocks s p \<noteq> None \<longrightarrow> (\<exists>s'. operator_delete (p + sizeof_alloc_info) s = Some s' \<and>
      as_blocks s' = (as_blocks s)(p := None) \<and> as_err s' = []))"
proof (rule conjI)
  have ok: "hist_ok s" using history.reachable_good[OF assms(1,2)] .
  obtain cs ts where f: "as_callers s = Some cs" "length cs = NUM_FRAMES" "forest (as_nodes s) cs ts"
      "accounts s (map (contents (as_nodes s)) ts)"
    using ok assms(3) unfolding hist_ok_def by (auto split: option.splits)
  then show "\<exists>ms. length ms = NUM_FRAMES \<and> (\<forall>i < NUM_FRAMES. omap_inv (ms ! i) \<and> (\<forall>v. size_of (ms ! i) v = live_bytes s i v)) \<and>
      dump_alloc_hist s = Some (s\<lparr>as_out := as_out s @ frame_lines 0 ms\<rparr>)"
    using dump_ok[OF f(3,1,2)] unfolding accounts_def by blast
  show "\<forall>p. as_blocks s p \<noteq> None \<longrightarrow> (\<exists>s'. operator_delete (p + sizeof_alloc_info) s = Some s' \<and>
      as_blocks s' = (as_blocks s)(p := None) \<and> as_err s' = [])"
  proof (intro allI impI)
    fix p assume "as_blocks s p \<noteq> None"
    then obtain ai where "as_blocks s p = Some ai" by blast
    from operator_delete_ok[OF ok this] show "\<exists>s'. operator_delete (p + sizeof_alloc_info) s = Some s' \<and>
        as_blocks s' = (as_blocks s)(p := None) \<and> as_err s' = []"
      unfolding hist_ok_def by blast
  qed
qed

text \<open>The first allocation of a program: 4 bytes, on a stack whose words are 100 more than their addresses.\<close>

definition hist_start :: alloc_store where
  "hist_start = \<lparr>as_nodes = Map.empty, as_blocks = Map.empty, as_callers = None, as_next = 8, as_limit = 1000,
     as_out = [], as_err = []\<rparr>"

definition hist_demo :: alloc_store where
  "hist_demo = \<lparr>as_nodes = [44 \<mapsto> \<lparr>sn_val = 1104, sn_sz = 4, sn_parent = 0, sn_left = 0, sn_right = 0\<rparr>,
       68 \<mapsto> \<lparr>sn_val = 1204, sn_sz = 4, sn_parent = 0, sn_left = 0, sn_right = 0\<rparr>,
       92 \<mapsto> \<lparr>sn_val = 1304, sn_sz = 4, sn_parent = 0, sn_left = 0, sn_right = 0\<rparr>],
     as_blocks = [8 \<mapsto> \<lparr>ai_mark = 0xdeadcafe, ai_sz = 4, ai_caller = [1104, 1204, 1304]\<rparr>],
     as_callers = Some [44, 68, 92], as_next = 116, as_limit = 1000, as_out = [], as_err = []\<rparr>"

lemma numeral_frames: "NUM_FRAMES = Suc (Suc (Suc 0))"
  by (simp add: NUM_FRAMES_def)

lemma demo_new: "operator_new (\<lambda>a. Some (a + 100)) 1000 4 hist_start = Some (New 28, hist_demo)"
  by (simp add: operator_new_def malloc_def hist_start_def hist_demo_def sizeof_alloc_info_def numeral_frames init_callers_def
      get_callers_def get_caller_def get_prev_ebp_def s_update_add_def s_find_def s_find_loop.simps[of _ _ 0] new_node_def sizeof_s_node_def
      s_splay.simps[of 44] s_splay.simps[of 68] s_splay.simps[of 92] field_def)

theorem alloc_hist_exact_witness:
  "(\<exists>ms. length ms = NUM_FRAMES \<and> size_of (ms ! 0) 1104 = live_bytes hist_demo 0 1104 \<and>
     dump_alloc_hist hist_demo = Some (hist_demo\<lparr>as_out := frame_lines 0 ms\<rparr>)) \<and>
   (\<exists>s'. operator_delete 28 hist_demo = Some s' \<and> as_blocks s' = Map.empty \<and> as_err s' = [])"
proof -
  have "hist_initial hist_start" by (simp add: hist_initial_def hist_start_def)
  moreover have "hist_step\<^sup>*\<^sup>* hist_start hist_demo" using step_new[OF demo_new] by blast
  moreover have "as_callers hist_demo \<noteq> None" by (simp add: hist_demo_def)
  ultimately have ex: "(\<exists>ms. length ms = NUM_FRAMES \<and> (\<forall>i < NUM_FRAMES. omap_inv (ms ! i) \<and>
        (\<forall>v. size_of (ms ! i) v = live_bytes hist_demo i v)) \<and>
      dump_alloc_hist hist_demo = Some (hist_demo\<lparr>as_out := as_out hist_demo @ frame_lines 0 ms\<rparr>)) \<and>
    (\<forall>p. as_blocks hist_demo p \<noteq> None \<longrightarrow> (\<exists>s'. operator_delete (p + sizeof_alloc_info) hist_demo = Some s' \<and>
      as_blocks s' = (as_blocks hist_demo)(p := None) \<and> as_err s' = []))"
    by (rule alloc_hist_exact)
  have "as_blocks hist_demo 8 \<noteq> None" "8 + sizeof_alloc_info = 28" "(as_blocks hist_demo)(8 := None) = Map.empty" "as_out hist_demo = []"
    by (auto simp: hist_demo_def sizeof_alloc_info_def NUM_FRAMES_def)
  with ex show ?thesis by (metis append_Nil numeral_frames zero_less_Suc)
qed

end
