(* ===== verification/Staller.thy ===== *)
theory Staller
  imports Simulator "HOL-Library.Monad_Syntax"
begin

text \<open>
  The memory staller at the end of the cache hierarchy (\<^verbatim>\<open>trans-staller-plus/\<close>): how long a memory operation stalls,
  when the front bus counts as busy, and the time series of the bandwidth consumed.  \<^verbatim>\<open>int\<close> and \<^verbatim>\<open>cycles_t\<close> are
  integers wrapped to 32 and 64 bits where they are stored; \<^verbatim>\<open>float\<close> and \<^verbatim>\<open>double\<close> are reals.  The cycle counter of
  the processor (\<open>cyc\<close>), the attribute \<^verbatim>\<open>fast_caches\<close> of the object \<^verbatim>\<open>common\<close> (\<open>None\<close> without that object) and the
  values of \<^verbatim>\<open>random()\<close> (\<open>rnd k\<close> is the \<open>k\<close>-th) are arguments.  \<open>None\<close> is a division by zero.
\<close>

section \<open>Integers\<close>

definition s32 :: "int \<Rightarrow> int" where
  "s32 x = (x + 2 ^ 31) mod 2 ^ 32 - 2 ^ 31"

definition s64 :: "int \<Rightarrow> int" where
  "s64 x = (x + 2 ^ 63) mod 2 ^ 64 - 2 ^ 63"

text \<open>The remainder of C has the sign of the dividend.\<close>

definition c_rem :: "int \<Rightarrow> int \<Rightarrow> int option" where
  "c_rem x y = (if y = 0 then None else Some (if x < 0 then - ((- x) mod \<bar>y\<bar>) else x mod \<bar>y\<bar>))"

section \<open>Configuration and statistics\<close>

definition STALL_CHECK_INTERVAL :: int where [const_defs]: "STALL_CHECK_INTERVAL = 10000"
definition FB_BW_bc :: int where [const_defs]: "FB_BW_bc = 16"
definition FB_BUSY_PENALTY_FACTOR :: int where [const_defs]: "FB_BUSY_PENALTY_FACTOR = 10"
definition STALLER_STAT_INTERVAL :: u32 where [const_defs]: "STALLER_STAT_INTERVAL = 10000"
definition BW_STAT_SIZE :: u32 where [const_defs]: "BW_STAT_SIZE = 100"
definition BIG_BW :: real where [const_defs]: "BIG_BW = 1000000000"
definition DEF_STALL_TIME :: int where [const_defs]: "DEF_STALL_TIME = 200"
definition DEF_SEED :: u32 where [const_defs]: "DEF_SEED = 0"
definition DEF_STRESS_TEST :: int where [const_defs]: "DEF_STRESS_TEST = 0"
definition DEF_STRESS_RANGE :: int where [const_defs]: "DEF_STRESS_RANGE = 0"

record stconfig =
  cf_stall_time :: int
  cf_seed :: u32
  cf_perturb_range :: int
  cf_cache_perturb :: int
  cf_stress_test :: int
  cf_stress_range :: int
  cf_bw_ts_index :: int
  cf_frontbus_bandwidth_limit_bpc :: int
  cf_frontbus_busy_penalty_factor :: int
  cf_frontbus_check_interval :: int
  cf_frontbus_stat_size :: u32
  cf_frontbus_stat_interval :: u32

text \<open>The configuration as the constructor leaves it, and as zeroed memory.\<close>

definition stconfig_defaults :: stconfig where
  "stconfig_defaults = \<lparr>cf_stall_time = DEF_STALL_TIME, cf_seed = DEF_SEED, cf_perturb_range = 4, cf_cache_perturb = 0,
     cf_stress_test = DEF_STRESS_TEST, cf_stress_range = DEF_STRESS_RANGE, cf_bw_ts_index = 0,
     cf_frontbus_bandwidth_limit_bpc = FB_BW_bc, cf_frontbus_busy_penalty_factor = FB_BUSY_PENALTY_FACTOR,
     cf_frontbus_check_interval = STALL_CHECK_INTERVAL, cf_frontbus_stat_size = BW_STAT_SIZE,
     cf_frontbus_stat_interval = STALLER_STAT_INTERVAL\<rparr>"

definition stconfig_zero :: stconfig where
  "stconfig_zero = \<lparr>cf_stall_time = 0, cf_seed = 0, cf_perturb_range = 0, cf_cache_perturb = 0, cf_stress_test = 0,
     cf_stress_range = 0, cf_bw_ts_index = 0, cf_frontbus_bandwidth_limit_bpc = 0, cf_frontbus_busy_penalty_factor = 0,
     cf_frontbus_check_interval = 0, cf_frontbus_stat_size = 0, cf_frontbus_stat_interval = 0\<rparr>"

record stdatapoint =
  dp_min :: real
  dp_max :: real
  dp_avg :: real
  dp_stdev :: real
  dp_tx_min :: real
  dp_tx_max :: real
  dp_tx_avg :: real
  dp_tx_stdev :: real
  dp_penalty_evts :: u64

definition stdatapoint_reset :: stdatapoint where
  "stdatapoint_reset = \<lparr>dp_min = 10 ^ 308, dp_max = 0, dp_avg = 0, dp_stdev = 0, dp_tx_min = 10 ^ 308, dp_tx_max = 0,
     dp_tx_avg = 0, dp_tx_stdev = 0, dp_penalty_evts = 0\<rparr>"

definition stdatapoint_zero :: stdatapoint where
  "stdatapoint_zero = \<lparr>dp_min = 0, dp_max = 0, dp_avg = 0, dp_stdev = 0, dp_tx_min = 0, dp_tx_max = 0,
     dp_tx_avg = 0, dp_tx_stdev = 0, dp_penalty_evts = 0\<rparr>"

definition print_stdatapoint :: "stdatapoint \<Rightarrow> ostream" where
  "print_stdatapoint dp =
     [Str ''min: ('', Flt (dp_min dp), Str '','', Flt (dp_tx_min dp), Str '') '',
      Str ''max: ('', Flt (dp_max dp), Str '','', Flt (dp_tx_max dp), Str '') '',
      Str ''avg: ('', Flt (dp_avg dp), Str '','', Flt (dp_tx_avg dp), Str '') '',
      Str ''std: ('', Flt (dp_stdev dp), Str '','', Flt (dp_tx_stdev dp), Str '') '',
      Str ''penevts: '', Dec (uint (dp_penalty_evts dp))]"

record ststats =
  ss_ts :: "real list"
  ss_tx_ts :: "real list"
  ss_time_series :: "stdatapoint list"
  ss_current :: stdatapoint

definition ststats_reset :: "ststats \<Rightarrow> ststats" where
  "ststats_reset ss = ss\<lparr>ss_current := stdatapoint_reset, ss_time_series := []\<rparr>"

section \<open>The staller\<close>

record simple_staller =
  past_bios :: int
  memops_counter :: int
  staller_previous_cycle :: int
  penaltycounter :: int
  memops_probe_counter :: int
  memops_tx_probe_counter :: int
  frontbus_previous_probe_cycle :: int
  frontbus_previous_tx_probe_cycle :: int
  frontbus_bandwidth_probe :: real
  frontbus_bandwidth_tx_probe :: real
  logcounter :: int
  verbose :: int
  st_config :: stconfig
  st_stats :: ststats

text \<open>
  The variables of the module that all stallers share, how many values of \<^verbatim>\<open>random()\<close> were drawn, the intervals after
  which a tick was posted, the console, and the messages with which the simulation was stopped.
\<close>

record staller_globals =
  booted :: bool
  st_initialized :: bool
  current_penalty :: int
  max_penalty :: int
  st_draws :: nat
  st_posted :: "u32 list"
  st_out :: ostream
  st_breaks :: "ostream list"

definition globals_initial :: staller_globals where
  "globals_initial = \<lparr>booted = False, st_initialized = False, current_penalty = 0, max_penalty = 0, st_draws = 0, st_posted = [],
     st_out = [], st_breaks = []\<rparr>"

text \<open>The memory of the object is zeroed; the constructors of its configuration and statistics do not run.\<close>

definition st_new_instance :: simple_staller where
  "st_new_instance = \<lparr>past_bios = 0, memops_counter = 0, staller_previous_cycle = 0, penaltycounter = 0, memops_probe_counter = 0,
     memops_tx_probe_counter = 0, frontbus_previous_probe_cycle = 0, frontbus_previous_tx_probe_cycle = 0,
     frontbus_bandwidth_probe = 0, frontbus_bandwidth_tx_probe = 0, logcounter = 0, verbose = 0,
     st_config = stconfig_zero\<lparr>cf_perturb_range := 4, cf_frontbus_bandwidth_limit_bpc := FB_BW_bc,
       cf_frontbus_busy_penalty_factor := FB_BUSY_PENALTY_FACTOR, cf_frontbus_check_interval := STALL_CHECK_INTERVAL,
       cf_frontbus_stat_size := BW_STAT_SIZE, cf_frontbus_stat_interval := STALLER_STAT_INTERVAL\<rparr>,
     st_stats = \<lparr>ss_ts = [], ss_tx_ts = [], ss_time_series = [], ss_current = stdatapoint_zero\<rparr>\<rparr>"

definition st_assert_fail :: "string \<Rightarrow> string \<Rightarrow> int \<Rightarrow> staller_globals \<Rightarrow> staller_globals" where
  "st_assert_fail assertion fl line g = g\<lparr>st_breaks := st_breaks g @
     [[Str ''STALLER ASSERT FAILURE : '', Str assertion, Str '' '', Str fl, Str '':'', Dec line, Endl]]\<rparr>"

subsection \<open>The probes\<close>

definition get_frontbus_bandwidth_probe :: "int \<Rightarrow> simple_staller \<Rightarrow> real \<times> simple_staller" where
  "get_frontbus_bandwidth_probe cyc st =
     (let st' = (if cyc = frontbus_previous_probe_cycle st then st\<lparr>frontbus_bandwidth_probe := -1\<rparr>
        else st\<lparr>frontbus_bandwidth_probe :=
            real_of_int (memops_probe_counter st) / real_of_int (s64 (cyc - frontbus_previous_probe_cycle st)),
          frontbus_previous_probe_cycle := cyc, memops_probe_counter := 0\<rparr>)
      in (frontbus_bandwidth_probe st', st'))"

definition get_frontbus_bandwidth_tx_probe :: "int \<Rightarrow> simple_staller \<Rightarrow> real \<times> simple_staller" where
  "get_frontbus_bandwidth_tx_probe cyc st =
     (let st' = (if cyc = frontbus_previous_tx_probe_cycle st then st\<lparr>frontbus_bandwidth_tx_probe := -1\<rparr>
        else st\<lparr>frontbus_bandwidth_tx_probe :=
            real_of_int (memops_tx_probe_counter st) / real_of_int (s64 (cyc - frontbus_previous_tx_probe_cycle st)),
          frontbus_previous_tx_probe_cycle := cyc, memops_tx_probe_counter := 0\<rparr>)
      in (frontbus_bandwidth_tx_probe st', st'))"

definition set_frontbus_bandwidth_probe :: "int \<Rightarrow> simple_staller \<Rightarrow> simple_staller" where
  "set_frontbus_bandwidth_probe v st = st\<lparr>frontbus_bandwidth_probe := real_of_int v\<rparr>"

definition set_frontbus_bandwidth_tx_probe :: "int \<Rightarrow> simple_staller \<Rightarrow> simple_staller" where
  "set_frontbus_bandwidth_tx_probe v st = st\<lparr>frontbus_bandwidth_tx_probe := real_of_int v\<rparr>"

subsection \<open>The tick\<close>

text \<open>The two loops over the samples of an epoch, plain and transactional side by side.\<close>

record epoch_acc =
  ea_min :: real
  ea_mintx :: real
  ea_max :: real
  ea_maxtx :: real
  ea_sum :: real
  ea_sumtx :: real

fun epoch_loop :: "real list \<Rightarrow> real list \<Rightarrow> epoch_acc \<Rightarrow> epoch_acc" where
  "epoch_loop (dp # pts) (txdp # ptxts) a = epoch_loop pts ptxts
     \<lparr>ea_min = min (ea_min a) dp, ea_mintx = min (ea_mintx a) txdp, ea_max = max (ea_max a) dp, ea_maxtx = max (ea_maxtx a) txdp,
      ea_sum = ea_sum a + dp, ea_sumtx = ea_sumtx a + txdp\<rparr>"
| "epoch_loop _ _ a = a"

fun dev_loop :: "real \<Rightarrow> real \<Rightarrow> real list \<Rightarrow> real list \<Rightarrow> real \<times> real \<Rightarrow> real \<times> real" where
  "dev_loop avg txavg (dp # pts) (txdp # ptxts) (sumsq, sumsqtx) =
     dev_loop avg txavg pts ptxts (sumsq + (dp - avg) * (dp - avg), sumsqtx + (txdp - txavg) * (txdp - txavg))"
| "dev_loop _ _ _ _ a = a"

definition epoch_sample :: "real list \<Rightarrow> real list \<Rightarrow> int \<Rightarrow> stdatapoint" where
  "epoch_sample pts ptxts penalties =
     (let a = epoch_loop pts ptxts \<lparr>ea_min = BIG_BW, ea_mintx = BIG_BW, ea_max = 0, ea_maxtx = 0, ea_sum = 0, ea_sumtx = 0\<rparr>;
          avg = ea_sum a / real (length pts);
          txavg = ea_sumtx a / real (length ptxts);
          (sumsq, sumsqtx) = dev_loop avg txavg pts ptxts (0, 0)
      in \<lparr>dp_min = ea_min a, dp_max = ea_max a, dp_avg = avg, dp_stdev = sqrt sumsq / real (length pts),
          dp_tx_min = ea_mintx a, dp_tx_max = ea_maxtx a, dp_tx_avg = txavg, dp_tx_stdev = sqrt sumsqtx / real (length ptxts),
          dp_penalty_evts = of_int penalties\<rparr>)"

definition close_epoch :: "simple_staller \<Rightarrow> staller_globals \<Rightarrow> simple_staller \<times> staller_globals" where
  "close_epoch st g =
     (let ss = st_stats st;
          sample = epoch_sample (ss_ts ss) (ss_tx_ts ss) (penaltycounter st);
          g' = (if verbose st \<noteq> 0 then
              g\<lparr>st_out := st_out g @ (if booted g then [Str ''HEY kernel booted'', Endl] else []) @ print_stdatapoint sample @ [Endl]\<rparr>
            else g)
      in (st\<lparr>st_stats := \<lparr>ss_ts = [], ss_tx_ts = [], ss_time_series = ss_time_series ss @ [sample], ss_current = sample\<rparr>,
            penaltycounter := 0\<rparr>, g'))"

definition staller_stat_tick :: "int \<Rightarrow> simple_staller \<Rightarrow> staller_globals \<Rightarrow> simple_staller \<times> staller_globals" where
  "staller_stat_tick cyc st g =
     (let g1 = (if length (ss_ts (st_stats st)) = length (ss_tx_ts (st_stats st)) then g
          else st_assert_fail ''pts->size() == ptxts->size()'' ''staller.cc'' 37 g);
          (st2, g2) = (if unat (cf_frontbus_stat_size (st_config st)) \<le> length (ss_ts (st_stats st)) then close_epoch st g1 else (st, g1));
          (bw, st3) = get_frontbus_bandwidth_probe cyc st2;
          (bwtx, st4) = get_frontbus_bandwidth_tx_probe cyc st3;
          ss = st_stats st4
      in (st4\<lparr>st_stats := ss\<lparr>ss_ts := ss_ts ss @ [bw], ss_tx_ts := ss_tx_ts ss @ [bwtx]\<rparr>\<rparr>,
          g2\<lparr>st_posted := st_posted g2 @ [cf_frontbus_stat_interval (st_config st)]\<rparr>))"

subsection \<open>Memory operations\<close>

record mem_op =
  mo_size :: u32
  mo_may_stall :: bool
  mo_user_ptr :: u32
  mo_reissue :: bool
  mo_block_STC :: bool

text \<open>The bytes since the last probe, of all stallable operations and of the transactional ones among them.\<close>

definition count_probe :: "mem_op \<Rightarrow> simple_staller \<Rightarrow> simple_staller" where
  "count_probe op st =
     (if mo_may_stall op then
        (let st1 = st\<lparr>memops_probe_counter := s32 (memops_probe_counter st + uint (mo_size op))\<rparr>
         in if mo_user_ptr op AND 0x7fffffff \<noteq> 0
            then st1\<lparr>memops_tx_probe_counter := s32 (memops_tx_probe_counter st1 + uint (mo_size op))\<rparr> else st1)
      else st)"

text \<open>Whether the front bus is over its limit; the penalty grows as long as it is.\<close>

definition check_bandwidth :: "int \<Rightarrow> bool \<Rightarrow> mem_op \<Rightarrow> simple_staller \<Rightarrow> staller_globals \<Rightarrow> int \<times> simple_staller \<times> staller_globals" where
  "check_bandwidth cyc fast_caches op st g =
     (let c = st_config st; limit = cf_frontbus_bandwidth_limit_bpc c in
      if limit \<noteq> 0 \<and> \<not> fast_caches then
        (let st1 = st\<lparr>memops_counter := s32 (memops_counter st + uint (mo_size op))\<rparr>;
             elapsed = s64 (cyc - staller_previous_cycle st1) in
         if elapsed > cf_frontbus_check_interval c then
           if s64 (elapsed * limit) \<le> s32 (memops_counter st1 * 8) then
             (let g1 = g\<lparr>current_penalty := s32 (current_penalty g + 1)\<rparr>;
                  g2 = (if current_penalty g1 > max_penalty g1
                    then g1\<lparr>max_penalty := current_penalty g1,
                      st_out := st_out g1 @ [Str ''MAX penalty is '', Dec (current_penalty g1), Str NL]\<rparr> else g1)
              in (current_penalty g, st1\<lparr>penaltycounter := s32 (penaltycounter st1 + 1)\<rparr>, g2))
           else (1, st1\<lparr>staller_previous_cycle := cyc, memops_counter := 0\<rparr>, g\<lparr>current_penalty := cf_frontbus_busy_penalty_factor c\<rparr>)
         else (1, st1, g))
      else (1, st, g))"

text \<open>The stall of one operation: the configured time, perturbed at random once the BIOS is through.\<close>

definition stress_stall :: "(nat \<Rightarrow> int) \<Rightarrow> stconfig \<Rightarrow> nat \<Rightarrow> (int \<times> nat) option" where
  "stress_stall rnd c k =
     (let r = s32 (cf_stress_range c) in do {
        s \<leftarrow> c_rem (rnd k) (s32 (r + 1));
        if r > cf_stall_time c then Some (s, k + 1)
        else (let s' = (if rnd (k + 1) mod 2 = 1 then - s else s) in Some (s32 (cf_stall_time c + s'), k + 2))
      })"

definition stall_of :: "(nat \<Rightarrow> int) \<Rightarrow> simple_staller \<Rightarrow> nat \<Rightarrow> (int \<times> nat) option" where
  "stall_of rnd st k =
     (let c = st_config st in do {
        (stall, k1) \<leftarrow> (if past_bios st \<noteq> 0 \<and> cf_stress_test c \<noteq> 0 \<and> cf_stress_range c > 0 then stress_stall rnd c k
          else Some (cf_stall_time c, k));
        if past_bios st \<noteq> 0 \<and> cf_perturb_range c > 0 then do {
          p \<leftarrow> c_rem (rnd k1) (s64 (cf_perturb_range c + 1));
          Some (s32 (stall + p), k1 + 1)
        } else Some (stall, k1)
      })"

definition st_operate :: "int \<Rightarrow> bool option \<Rightarrow> (nat \<Rightarrow> int) \<Rightarrow> mem_op \<Rightarrow> simple_staller \<Rightarrow> staller_globals \<Rightarrow>
    (int \<times> mem_op \<times> simple_staller \<times> staller_globals) option" where
  "st_operate cyc common_fast rnd op st g =
     (let fast_caches = (case common_fast of Some b \<Rightarrow> b | None \<Rightarrow> True);
          g1 = (if \<not> fast_caches then g\<lparr>booted := True\<rparr> else g);
          g2 = (if \<not> st_initialized g1 then g1\<lparr>st_posted := st_posted g1 @ [cf_frontbus_stat_interval (st_config st)], st_initialized := True\<rparr>
            else g1);
          st1 = count_probe op st;
          g3 = (if current_penalty g2 = 0 then g2\<lparr>current_penalty := cf_frontbus_busy_penalty_factor (st_config st1)\<rparr> else g2);
          (factor, st2, g4) = check_bandwidth cyc fast_caches op st1 g3;
          op' = op\<lparr>mo_reissue := False, mo_block_STC := True\<rparr>
      in if mo_may_stall op' then do {
           (stall, k) \<leftarrow> stall_of rnd st2 (st_draws g4);
           Some (s32 (factor * stall), op', st2, g4\<lparr>st_draws := k\<rparr>)
         } else Some (0, op', st2, g4))"

section \<open>Attributes\<close>

text \<open>A setter gets the value, a getter the cycle count; the table holds what the class registers.\<close>

type_synonym setter = "attr_value \<Rightarrow> simple_staller \<Rightarrow> set_error \<times> simple_staller"
type_synonym getter = "int \<Rightarrow> simple_staller \<Rightarrow> attr_value \<times> simple_staller"

definition staller_config_attr :: "(int \<Rightarrow> stconfig \<Rightarrow> stconfig) \<Rightarrow> (stconfig \<Rightarrow> int) \<Rightarrow> setter \<times> getter" where
  "staller_config_attr put get =
     (\<lambda>v st. case v of Sim_Val_Integer i \<Rightarrow> (Sim_Set_Ok, st\<lparr>st_config := put i (st_config st)\<rparr>) | _ \<Rightarrow> (Sim_Set_Need_Integer, st),
      \<lambda>cyc st. (Sim_Val_Integer (get (st_config st)), st))"

definition staller_attr :: "(int \<Rightarrow> simple_staller \<Rightarrow> simple_staller) \<Rightarrow> (simple_staller \<Rightarrow> int) \<Rightarrow> setter \<times> getter" where
  "staller_attr put get =
     (\<lambda>v st. case v of Sim_Val_Integer i \<Rightarrow> (Sim_Set_Ok, put i st) | _ \<Rightarrow> (Sim_Set_Need_Integer, st),
      \<lambda>cyc st. (Sim_Val_Integer (get st), st))"

definition on_current :: "(stdatapoint \<Rightarrow> stdatapoint) \<Rightarrow> simple_staller \<Rightarrow> simple_staller" where
  "on_current f st = st\<lparr>st_stats := (st_stats st)\<lparr>ss_current := f (ss_current (st_stats st))\<rparr>\<rparr>"

definition staller_stats_attr :: "(real \<Rightarrow> stdatapoint \<Rightarrow> stdatapoint) \<Rightarrow> (stdatapoint \<Rightarrow> real) \<Rightarrow> setter \<times> getter" where
  "staller_stats_attr put get =
     (\<lambda>v st. case v of Sim_Val_Floating x \<Rightarrow> (Sim_Set_Ok, on_current (put x) st) | _ \<Rightarrow> (Sim_Set_Need_Floating, st),
      \<lambda>cyc st. (Sim_Val_Floating (get (ss_current (st_stats st))), st))"

definition staller_stats_int_attr :: "(int \<Rightarrow> stdatapoint \<Rightarrow> stdatapoint) \<Rightarrow> (stdatapoint \<Rightarrow> int) \<Rightarrow> setter \<times> getter" where
  "staller_stats_int_attr put get =
     (\<lambda>v st. case v of Sim_Val_Integer i \<Rightarrow> (Sim_Set_Ok, on_current (put i) st) | _ \<Rightarrow> (Sim_Set_Need_Integer, st),
      \<lambda>cyc st. (Sim_Val_Integer (get (ss_current (st_stats st))), st))"

definition overall_stats :: "stdatapoint list \<Rightarrow> stdatapoint" where
  "overall_stats samples =
     (let sum = foldl (\<lambda>a p. \<lparr>dp_min = min (dp_min a) (dp_min p), dp_max = max (dp_max a) (dp_max p), dp_avg = dp_avg a + dp_avg p,
            dp_stdev = dp_stdev a + dp_stdev p, dp_tx_min = min (dp_tx_min a) (dp_tx_min p), dp_tx_max = max (dp_tx_max a) (dp_tx_max p),
            dp_tx_avg = dp_tx_avg a + dp_tx_avg p, dp_tx_stdev = dp_tx_stdev a + dp_tx_stdev p,
            dp_penalty_evts = dp_penalty_evts a + dp_penalty_evts p\<rparr>) stdatapoint_reset samples;
          n = length samples
      in if n \<noteq> 0 then sum\<lparr>dp_avg := dp_avg sum / real n, dp_stdev := dp_stdev sum / real n,
           dp_penalty_evts := dp_penalty_evts sum div of_nat n\<rparr> else sum)"

definition csv_line :: "stdatapoint \<Rightarrow> ostream" where
  "csv_line dp =
     [Flt (dp_min dp), Str '', '', Flt (dp_max dp), Str '', '', Flt (dp_avg dp), Str '', '', Flt (dp_stdev dp), Str '', '',
      Flt (dp_tx_min dp), Str '', '', Flt (dp_tx_max dp), Str '', '', Flt (dp_tx_avg dp), Str '', '', Flt (dp_tx_stdev dp), Str '', '',
      Dec (uint (dp_penalty_evts dp)), Endl]"

definition get_st_stats :: "simple_staller \<Rightarrow> ostream" where
  "get_st_stats st =
     [Str ''staller stats:'', Str ''       , min, max, avg, stdev, tx_min, tx_max, tx_avg, tx_stdev, penevts'', Endl] @
     [Str ''current, ''] @ csv_line (ss_current (st_stats st)) @
     [Str ''overall, ''] @ csv_line (overall_stats (ss_time_series (st_stats st)))"

definition get_epoch_time_series :: getter where
  "get_epoch_time_series cyc st =
     (Sim_Val_List (map (\<lambda>p. Sim_Val_List (map Sim_Val_Floating
        [dp_min p, dp_max p, dp_avg p, dp_stdev p, dp_tx_min p, dp_tx_max p, dp_tx_avg p, dp_tx_stdev p,
         real (unat (dp_penalty_evts p))])) (ss_time_series (st_stats st))), st)"

definition set_epoch_time_series :: setter where
  "set_epoch_time_series v st = (Sim_Set_Ok, st\<lparr>st_stats := (st_stats st)\<lparr>ss_time_series := []\<rparr>\<rparr>)"

definition get_bw_time_series :: getter where
  "get_bw_time_series cyc st = (Sim_Val_List (map Sim_Val_Floating (ss_ts (st_stats st))), st)"

definition set_bw_time_series :: setter where
  "set_bw_time_series v st = (Sim_Set_Ok, st\<lparr>st_stats := (st_stats st)\<lparr>ss_ts := []\<rparr>\<rparr>)"

definition get_tx_bw_time_series :: getter where
  "get_tx_bw_time_series cyc st = (Sim_Val_List (map Sim_Val_Floating (ss_tx_ts (st_stats st))), st)"

definition set_tx_bw_time_series :: setter where
  "set_tx_bw_time_series v st = (Sim_Set_Ok, st\<lparr>st_stats := (st_stats st)\<lparr>ss_tx_ts := []\<rparr>\<rparr>)"

text \<open>
  Three setters read the integer member of a value that was registered as a string or a floating point number;
  \<open>as_integer\<close> is what that member holds.
\<close>

definition set_st_stats :: "(attr_value \<Rightarrow> int) \<Rightarrow> setter" where
  "set_st_stats as_integer v st = (Sim_Set_Ok, st\<lparr>frontbus_bandwidth_probe := real_of_int (as_integer v)\<rparr>)"

definition st_register :: "(attr_value \<Rightarrow> int) \<Rightarrow> (ostream \<Rightarrow> string) \<Rightarrow> (string \<times> setter \<times> getter) list" where
  "st_register as_integer text =
     [(''frontbus_bandwidth_limit_bpc'', staller_config_attr (\<lambda>i c. c\<lparr>cf_frontbus_bandwidth_limit_bpc := s32 i\<rparr>) cf_frontbus_bandwidth_limit_bpc),
      (''frontbus_busy_penalty_factor'', staller_config_attr (\<lambda>i c. c\<lparr>cf_frontbus_busy_penalty_factor := s32 i\<rparr>) cf_frontbus_busy_penalty_factor),
      (''frontbus_check_interval'', staller_config_attr (\<lambda>i c. c\<lparr>cf_frontbus_check_interval := s32 i\<rparr>) cf_frontbus_check_interval),
      (''frontbus_stat_interval'',
         staller_config_attr (\<lambda>i c. c\<lparr>cf_frontbus_stat_interval := word_of_int i\<rparr>) (\<lambda>c. uint (cf_frontbus_stat_interval c))),
      (''frontbus_stat_size'', staller_config_attr (\<lambda>i c. c\<lparr>cf_frontbus_stat_size := word_of_int i\<rparr>) (\<lambda>c. uint (cf_frontbus_stat_size c))),
      (''stall_time'', staller_config_attr (\<lambda>i c. c\<lparr>cf_stall_time := s32 i\<rparr>) cf_stall_time),
      (''cache_perturb'', staller_config_attr (\<lambda>i c. c\<lparr>cf_cache_perturb := s32 i\<rparr>) cf_cache_perturb),
      (''seed'', staller_config_attr (\<lambda>i c. c\<lparr>cf_seed := word_of_int i\<rparr>) (\<lambda>c. uint (cf_seed c))),
      (''stress_test'', staller_config_attr (\<lambda>i c. c\<lparr>cf_stress_test := s32 i\<rparr>) cf_stress_test),
      (''stress_range'', staller_config_attr (\<lambda>i c. c\<lparr>cf_stress_range := s64 i\<rparr>) cf_stress_range),
      (''past_bios'', staller_attr (\<lambda>i st. st\<lparr>past_bios := s32 i\<rparr>) past_bios),
      (''verbose'', staller_attr (\<lambda>i st. st\<lparr>verbose := s32 i\<rparr>) verbose),
      (''stat_min'', staller_stats_attr (\<lambda>x d. d\<lparr>dp_min := x\<rparr>) dp_min),
      (''stat_max'', staller_stats_attr (\<lambda>x d. d\<lparr>dp_max := x\<rparr>) dp_max),
      (''stat_avg'', staller_stats_attr (\<lambda>x d. d\<lparr>dp_avg := x\<rparr>) dp_avg),
      (''stat_stdev'', staller_stats_attr (\<lambda>x d. d\<lparr>dp_stdev := x\<rparr>) dp_stdev),
      (''stat_tx_min'', staller_stats_attr (\<lambda>x d. d\<lparr>dp_tx_min := x\<rparr>) dp_tx_min),
      (''stat_tx_max'', staller_stats_attr (\<lambda>x d. d\<lparr>dp_tx_max := x\<rparr>) dp_tx_max),
      (''stat_tx_avg'', staller_stats_attr (\<lambda>x d. d\<lparr>dp_tx_avg := x\<rparr>) dp_tx_avg),
      (''stat_tx_stdev'', staller_stats_attr (\<lambda>x d. d\<lparr>dp_tx_stdev := x\<rparr>) dp_tx_stdev),
      (''stat_penalty_evts'', staller_stats_int_attr (\<lambda>i d. d\<lparr>dp_penalty_evts := word_of_int i\<rparr>) (\<lambda>d. sint (dp_penalty_evts d))),
      (''bw_time_series'', set_bw_time_series, get_bw_time_series),
      (''tx_bw_time_series'', set_tx_bw_time_series, get_tx_bw_time_series),
      (''epoch_time_series'', set_epoch_time_series, get_epoch_time_series),
      (''statistics'', set_st_stats as_integer, \<lambda>cyc st. (Sim_Val_String (text (get_st_stats st)), st)),
      (''frontbus_bandwidth_probe'', \<lambda>v st. (Sim_Set_Ok, set_frontbus_bandwidth_probe (as_integer v) st),
         \<lambda>cyc st. (case get_frontbus_bandwidth_probe cyc st of (bw, st') \<Rightarrow> (Sim_Val_Floating bw, st'))),
      (''frontbus_bandwidth_tx_probe'', \<lambda>v st. (Sim_Set_Ok, set_frontbus_bandwidth_tx_probe (as_integer v) st),
         \<lambda>cyc st. (case get_frontbus_bandwidth_tx_probe cyc st of (bw, st') \<Rightarrow> (Sim_Val_Floating bw, st')))]"

section \<open>The stall of an operation\<close>

lemma s32_id: "- (2 ^ 31) \<le> x \<Longrightarrow> x < 2 ^ 31 \<Longrightarrow> s32 x = x"
  by (simp add: s32_def)

lemma s32_times8: "0 \<le> n \<Longrightarrow> n < 2 ^ 28 \<Longrightarrow> s32 n = n \<and> s32 (n * 8) = n * 8"
  by (auto intro!: s32_id)

lemma s64_id: "- (2 ^ 63) \<le> x \<Longrightarrow> x < 2 ^ 63 \<Longrightarrow> s64 x = x"
  by (simp add: s64_def)

lemma c_rem_bounds: "0 \<le> x \<Longrightarrow> 0 < y \<Longrightarrow> \<exists>r. c_rem x y = Some r \<and> 0 \<le> r \<and> r < y"
  by (auto simp: c_rem_def)

text \<open>The interval a configuration allows for the stall of one operation.\<close>

definition stall_low :: "simple_staller \<Rightarrow> int" where
  "stall_low st = (let c = st_config st in
     if past_bios st \<noteq> 0 \<and> cf_stress_test c \<noteq> 0 \<and> cf_stress_range c > 0 then max 0 (cf_stall_time c - cf_stress_range c)
     else cf_stall_time c)"

definition stall_high :: "simple_staller \<Rightarrow> int" where
  "stall_high st = (let c = st_config st in
     (if past_bios st \<noteq> 0 \<and> cf_stress_test c \<noteq> 0 \<and> cf_stress_range c > 0
      then if cf_stress_range c > cf_stall_time c then cf_stress_range c else cf_stall_time c + cf_stress_range c
      else cf_stall_time c) +
     (if past_bios st \<noteq> 0 \<and> cf_perturb_range c > 0 then cf_perturb_range c else 0))"

text \<open>The configurations whose stalls fit into an \<^verbatim>\<open>int\<close>.\<close>

definition stalls_fit :: "simple_staller \<Rightarrow> bool" where
  "stalls_fit st \<longleftrightarrow> (let c = st_config st in 0 \<le> cf_stall_time c \<and> cf_stall_time c < 2 ^ 29 \<and> 0 \<le> cf_stress_range c \<and>
     cf_stress_range c < 2 ^ 29 \<and> 0 \<le> cf_perturb_range c \<and> cf_perturb_range c < 2 ^ 29)"

lemma stress_stall_bounds:
  assumes rnd: "\<forall>k. 0 \<le> rnd k" and fit: "0 \<le> cf_stall_time c" "cf_stall_time c < 2 ^ 29" "0 < cf_stress_range c" "cf_stress_range c < 2 ^ 29"
  shows "\<exists>s k'. stress_stall rnd c k = Some (s, k') \<and> max 0 (cf_stall_time c - cf_stress_range c) \<le> s \<and>
    s \<le> (if cf_stress_range c > cf_stall_time c then cf_stress_range c else cf_stall_time c + cf_stress_range c)"
proof -
  let ?r = "cf_stress_range c"
  have r: "s32 ?r = ?r" "s32 (?r + 1) = ?r + 1" using fit by (auto intro!: s32_id)
  obtain s where s: "c_rem (rnd k) (?r + 1) = Some s" "0 \<le> s" "s < ?r + 1"
    using c_rem_bounds[of "rnd k" "?r + 1"] rnd fit(3) by auto
  have "s32 (cf_stall_time c + x) = cf_stall_time c + x" if "\<bar>x\<bar> \<le> ?r" for x using that fit by (intro s32_id) auto
  from this[of s] this[of "- s"] show ?thesis using s r by (auto simp: stress_stall_def)
qed

lemma stall_bounds_one:
  assumes rnd: "\<forall>k. 0 \<le> rnd k" and fit: "stalls_fit st"
  shows "\<exists>s k'. stall_of rnd st k = Some (s, k') \<and> stall_low st \<le> s \<and> s \<le> stall_high st"
proof -
  let ?c = "st_config st"
  have f: "0 \<le> cf_stall_time ?c" "cf_stall_time ?c < 2 ^ 29" "0 \<le> cf_stress_range ?c" "cf_stress_range ?c < 2 ^ 29"
    "0 \<le> cf_perturb_range ?c" "cf_perturb_range ?c < 2 ^ 29" using fit by (auto simp: stalls_fit_def Let_def)
  define base where "base = (if past_bios st \<noteq> 0 \<and> cf_stress_test ?c \<noteq> 0 \<and> cf_stress_range ?c > 0 then stress_stall rnd ?c k
      else Some (cf_stall_time ?c, k))"
  define high where "high = (if past_bios st \<noteq> 0 \<and> cf_stress_test ?c \<noteq> 0 \<and> cf_stress_range ?c > 0
      then if cf_stress_range ?c > cf_stall_time ?c then cf_stress_range ?c else cf_stall_time ?c + cf_stress_range ?c
      else cf_stall_time ?c)"
  have "\<exists>s k1. base = Some (s, k1) \<and> stall_low st \<le> s \<and> s \<le> high"
  proof (cases "past_bios st \<noteq> 0 \<and> cf_stress_test ?c \<noteq> 0 \<and> cf_stress_range ?c > 0")
    case True
    then show ?thesis using stress_stall_bounds[OF rnd f(1,2) _ f(4), of k] by (simp add: base_def high_def stall_low_def Let_def)
  next
    case False
    then show ?thesis by (auto simp: base_def high_def stall_low_def Let_def)
  qed
  then obtain s k1 where s: "base = Some (s, k1)" "stall_low st \<le> s" "s \<le> high" by blast
  have h: "high < 2 ^ 30" "0 \<le> stall_low st" using f by (auto simp: high_def stall_low_def Let_def)
  show ?thesis
  proof (cases "past_bios st \<noteq> 0 \<and> cf_perturb_range ?c > 0")
    case True
    have "s64 (cf_perturb_range ?c + 1) = cf_perturb_range ?c + 1" using f by (intro s64_id) auto
    moreover obtain p where p: "c_rem (rnd k1) (cf_perturb_range ?c + 1) = Some p" "0 \<le> p" "p < cf_perturb_range ?c + 1"
      using c_rem_bounds[of "rnd k1" "cf_perturb_range ?c + 1"] rnd True by auto
    moreover have "s32 (s + p) = s + p" using s h p f by (intro s32_id) auto
    moreover have "stall_of rnd st k = do { p \<leftarrow> c_rem (rnd k1) (s64 (cf_perturb_range ?c + 1)); Some (s32 (s + p), k1 + 1) }"
      using True s(1) unfolding stall_of_def base_def[symmetric] Let_def by simp
    moreover have "stall_high st = high + cf_perturb_range ?c" using True by (simp add: stall_high_def high_def Let_def)
    ultimately show ?thesis using s by (auto intro: order_trans)
  next
    case False
    then have "stall_of rnd st k = Some (s, k1)" using s(1) unfolding stall_of_def base_def[symmetric] Let_def by auto
    moreover have "stall_high st = high" using False by (simp add: stall_high_def high_def Let_def)
    ultimately show ?thesis using s by auto
  qed
qed

text \<open>The bandwidth check without wrap-around: the bits of the operations since the last quiet check reach the limit.\<close>

definition limited :: "int \<Rightarrow> bool \<Rightarrow> simple_staller \<Rightarrow> bool" where
  "limited cyc fast_caches st \<longleftrightarrow> \<not> fast_caches \<and> cf_frontbus_bandwidth_limit_bpc (st_config st) \<noteq> 0 \<and>
     cyc - staller_previous_cycle st > cf_frontbus_check_interval (st_config st)"

definition over_limit :: "int \<Rightarrow> bool \<Rightarrow> mem_op \<Rightarrow> simple_staller \<Rightarrow> bool" where
  "over_limit cyc fast_caches op st \<longleftrightarrow> limited cyc fast_caches st \<and>
     (cyc - staller_previous_cycle st) * cf_frontbus_bandwidth_limit_bpc (st_config st) \<le> 8 * (memops_counter st + uint (mo_size op))"

definition penalty_in_force :: "simple_staller \<Rightarrow> staller_globals \<Rightarrow> int" where
  "penalty_in_force st g = (if current_penalty g = 0 then cf_frontbus_busy_penalty_factor (st_config st) else current_penalty g)"

definition counters_fit :: "int \<Rightarrow> mem_op \<Rightarrow> simple_staller \<Rightarrow> bool" where
  "counters_fit cyc op st \<longleftrightarrow> 0 \<le> staller_previous_cycle st \<and> staller_previous_cycle st \<le> cyc \<and> cyc < 2 ^ 63 \<and>
     \<bar>(cyc - staller_previous_cycle st) * cf_frontbus_bandwidth_limit_bpc (st_config st)\<bar> < 2 ^ 63 \<and>
     0 \<le> memops_counter st \<and> memops_counter st + uint (mo_size op) < 2 ^ 28"

lemma count_probe_fields [simp]:
  "st_config (count_probe op st) = st_config st" "past_bios (count_probe op st) = past_bios st"
  "memops_counter (count_probe op st) = memops_counter st" "staller_previous_cycle (count_probe op st) = staller_previous_cycle st"
  "st_stats (count_probe op st) = st_stats st" "penaltycounter (count_probe op st) = penaltycounter st"
  "verbose (count_probe op st) = verbose st"
  by (simp_all add: count_probe_def Let_def)

lemma check_bandwidth_ok:
  assumes fit: "counters_fit cyc op st" and p: "0 < current_penalty g" "current_penalty g < 2 ^ 31 - 1"
    and r: "check_bandwidth cyc fast op st g = (f, st', g')"
  shows "f = (if over_limit cyc fast op st then current_penalty g else 1)" "st_config st' = st_config st" "past_bios st' = past_bios st"
    "current_penalty g' = (if over_limit cyc fast op st then current_penalty g + 1
       else if limited cyc fast st then cf_frontbus_busy_penalty_factor (st_config st) else current_penalty g)"
proof -
  let ?n = "memops_counter st + uint (mo_size op)"
  have n: "0 \<le> ?n" "?n < 2 ^ 28" using fit by (auto simp: counters_fit_def)
  have e: "s32 ?n = ?n" "s32 (?n * 8) = ?n * 8" using s32_times8[OF n] by blast+
  have e': "s64 (cyc - staller_previous_cycle st) = cyc - staller_previous_cycle st"
    "s64 ((cyc - staller_previous_cycle st) * cf_frontbus_bandwidth_limit_bpc (st_config st)) =
      (cyc - staller_previous_cycle st) * cf_frontbus_bandwidth_limit_bpc (st_config st)"
    using fit by (auto intro!: s64_id simp: counters_fit_def)
  have p': "s32 (current_penalty g + 1) = current_penalty g + 1" using p by (auto intro!: s32_id)
  show "f = (if over_limit cyc fast op st then current_penalty g else 1)" "st_config st' = st_config st" "past_bios st' = past_bios st"
    "current_penalty g' = (if over_limit cyc fast op st then current_penalty g + 1
       else if limited cyc fast st then cf_frontbus_busy_penalty_factor (st_config st) else current_penalty g)"
    using r e e' p' by (auto simp: check_bandwidth_def over_limit_def limited_def Let_def split: if_splits)
qed


text \<open>A staller past the BIOS with a stall time of 200 cycles that has moved 50000 bytes in 20000 cycles.\<close>

definition busy_staller :: simple_staller where
  "busy_staller = st_new_instance\<lparr>past_bios := 1, memops_counter := 50000,
     st_config := (st_config st_new_instance)\<lparr>cf_stall_time := 200\<rparr>\<rparr>"

definition cache_line_read :: mem_op where
  "cache_line_read = \<lparr>mo_size = 64, mo_may_stall = True, mo_user_ptr = 0, mo_reissue = True, mo_block_STC = False\<rparr>"


section \<open>The time series\<close>

record staller_input =
  si_cyc :: int
  si_fast :: "bool option"
  si_rnd :: "nat \<Rightarrow> int"
  si_op :: mem_op

primrec operate_all :: "staller_input list \<Rightarrow> simple_staller \<times> staller_globals \<Rightarrow> (simple_staller \<times> staller_globals) option" where
  "operate_all [] sg = Some sg"
| "operate_all (i # is) sg =
     (case st_operate (si_cyc i) (si_fast i) (si_rnd i) (si_op i) (fst sg) (snd sg) of
        None \<Rightarrow> None
      | Some (ret, op', st', g') \<Rightarrow> operate_all is (st', g'))"

text \<open>The bytes the stallable operations move, and the transactional ones.\<close>

definition stall_bytes :: "staller_input list \<Rightarrow> int" where
  "stall_bytes is = (\<Sum>i \<leftarrow> is. if mo_may_stall (si_op i) then uint (mo_size (si_op i)) else 0)"

definition tx_bytes :: "staller_input list \<Rightarrow> int" where
  "tx_bytes is = (\<Sum>i \<leftarrow> is. if mo_may_stall (si_op i) \<and> mo_user_ptr (si_op i) AND 0x7fffffff \<noteq> 0 then uint (mo_size (si_op i)) else 0)"

definition same_probes :: "simple_staller \<Rightarrow> simple_staller \<Rightarrow> bool" where
  "same_probes st st' \<longleftrightarrow> memops_probe_counter st' = memops_probe_counter st \<and> memops_tx_probe_counter st' = memops_tx_probe_counter st \<and>
     frontbus_previous_probe_cycle st' = frontbus_previous_probe_cycle st \<and>
     frontbus_previous_tx_probe_cycle st' = frontbus_previous_tx_probe_cycle st \<and> st_stats st' = st_stats st \<and> st_config st' = st_config st"

lemma check_bandwidth_probes: "check_bandwidth cyc fast op st g = (f, st', g') \<Longrightarrow> same_probes st st'"
  by (auto simp: check_bandwidth_def same_probes_def Let_def split: if_splits)

lemma st_operate_probes:
  assumes "st_operate cyc cf rnd op st g = Some (ret, op', st', g')"
  shows "same_probes (count_probe op st) st'"
  using assms by (auto simp: st_operate_def Let_def split: if_splits prod.splits bind_splits dest!: check_bandwidth_probes)

lemma tx_bytes_le: "0 \<le> tx_bytes is \<and> tx_bytes is \<le> stall_bytes is"
  by (induction "is") (auto simp: tx_bytes_def stall_bytes_def intro: add_increasing)

lemma operate_all_probes:
  assumes "operate_all is (st, g) = Some (st', g')" "0 \<le> memops_tx_probe_counter st" "memops_tx_probe_counter st \<le> memops_probe_counter st"
    "memops_probe_counter st + stall_bytes is < 2 ^ 31"
  shows "memops_probe_counter st' = memops_probe_counter st + stall_bytes is"
    "memops_tx_probe_counter st' = memops_tx_probe_counter st + tx_bytes is"
    "frontbus_previous_probe_cycle st' = frontbus_previous_probe_cycle st"
    "frontbus_previous_tx_probe_cycle st' = frontbus_previous_tx_probe_cycle st" "st_stats st' = st_stats st" "st_config st' = st_config st"
proof -
  have "memops_probe_counter st' = memops_probe_counter st + stall_bytes is \<and>
    memops_tx_probe_counter st' = memops_tx_probe_counter st + tx_bytes is \<and>
    frontbus_previous_probe_cycle st' = frontbus_previous_probe_cycle st \<and>
    frontbus_previous_tx_probe_cycle st' = frontbus_previous_tx_probe_cycle st \<and> st_stats st' = st_stats st \<and> st_config st' = st_config st"
    using assms
  proof (induction "is" arbitrary: st g)
    case Nil
    then show ?case by (simp add: stall_bytes_def tx_bytes_def)
  next
    case (Cons i rest)
    obtain ret op' st1 g1 where s: "st_operate (si_cyc i) (si_fast i) (si_rnd i) (si_op i) st g = Some (ret, op', st1, g1)"
        "operate_all rest (st1, g1) = Some (st', g')"
      using Cons.prems(1) by (auto split: option.splits)
    define n where "n = (if mo_may_stall (si_op i) then uint (mo_size (si_op i)) else 0)"
    define t where "t = (if mo_may_stall (si_op i) \<and> mo_user_ptr (si_op i) AND 0x7fffffff \<noteq> 0 then uint (mo_size (si_op i)) else 0)"
    have nt: "0 \<le> t" "t \<le> n" and b: "stall_bytes (i # rest) = n + stall_bytes rest" "tx_bytes (i # rest) = t + tx_bytes rest"
      by (auto simp: n_def t_def stall_bytes_def tx_bytes_def)
    have m: "memops_probe_counter st + n < 2 ^ 31" using Cons.prems(4) b(1) tx_bytes_le[of rest] by linarith
    have "s32 (memops_probe_counter st + n) = memops_probe_counter st + n"
      "s32 (memops_tx_probe_counter st + t) = memops_tx_probe_counter st + t"
      using m Cons.prems(2,3) nt by (auto intro!: s32_id)
    then have p: "memops_probe_counter st1 = memops_probe_counter st + n" "memops_tx_probe_counter st1 = memops_tx_probe_counter st + t"
        "frontbus_previous_probe_cycle st1 = frontbus_previous_probe_cycle st"
        "frontbus_previous_tx_probe_cycle st1 = frontbus_previous_tx_probe_cycle st" "st_stats st1 = st_stats st" "st_config st1 = st_config st"
      using st_operate_probes[OF s(1)] by (auto simp: same_probes_def count_probe_def Let_def n_def t_def split: if_splits)
    then show ?case using Cons.IH[OF s(2)] Cons.prems(2-4) nt b by simp
  qed
  then show "memops_probe_counter st' = memops_probe_counter st + stall_bytes is"
    "memops_tx_probe_counter st' = memops_tx_probe_counter st + tx_bytes is"
    "frontbus_previous_probe_cycle st' = frontbus_previous_probe_cycle st"
    "frontbus_previous_tx_probe_cycle st' = frontbus_previous_tx_probe_cycle st" "st_stats st' = st_stats st" "st_config st' = st_config st"
    by blast+
qed

text \<open>A tick after some operations: the sample it adds, and what it leaves for the next one.\<close>

lemma tick_parts:
  assumes len: "length (ss_ts (st_stats st)) = length (ss_tx_ts (st_stats st))"
  shows "st_stats (fst (staller_stat_tick cyc st g)) =
    (let full = unat (cf_frontbus_stat_size (st_config st)) \<le> length (ss_ts (st_stats st));
         ss = (if full then st_stats (fst (close_epoch st g)) else st_stats st);
         bw = fst (get_frontbus_bandwidth_probe cyc st);
         bwtx = fst (get_frontbus_bandwidth_tx_probe cyc st)
     in ss\<lparr>ss_ts := ss_ts ss @ [bw], ss_tx_ts := ss_tx_ts ss @ [bwtx]\<rparr>)"
  using len
  by (auto simp: staller_stat_tick_def close_epoch_def get_frontbus_bandwidth_probe_def get_frontbus_bandwidth_tx_probe_def Let_def
      split: prod.splits)

lemma tick_rest:
  assumes "length (ss_ts (st_stats st)) = length (ss_tx_ts (st_stats st))" "staller_stat_tick cyc st g = (st', g')"
    "frontbus_previous_probe_cycle st \<noteq> cyc" "frontbus_previous_tx_probe_cycle st \<noteq> cyc"
  shows "memops_probe_counter st' = 0" "memops_tx_probe_counter st' = 0" "frontbus_previous_probe_cycle st' = cyc"
    "frontbus_previous_tx_probe_cycle st' = cyc" "st_breaks g' = st_breaks g"
    "st_posted g' = st_posted g @ [cf_frontbus_stat_interval (st_config st)]"
  using assms
  by (auto simp: staller_stat_tick_def close_epoch_def get_frontbus_bandwidth_probe_def get_frontbus_bandwidth_tx_probe_def Let_def
      split: prod.splits if_splits)

text \<open>
  C25. The time series is exact: between two ticks the staller counts the bytes of all stallable operations, and of
  the transactional ones among them, and the tick appends these bytes per cycle elapsed to the two series (to the
  empty series when an epoch has just been completed), starts both counts again and posts the next tick.
\<close>

theorem bandwidth_recorded:
  assumes run: "operate_all is (st, g) = Some (st1, g1)" and tick: "staller_stat_tick cyc st1 g1 = (st2, g2)"
    and start: "memops_probe_counter st = 0" "memops_tx_probe_counter st = 0" "frontbus_previous_probe_cycle st = c0"
      "frontbus_previous_tx_probe_cycle st = c0" "length (ss_ts (st_stats st)) = length (ss_tx_ts (st_stats st))"
    and fit: "0 \<le> c0" "c0 < cyc" "cyc < 2 ^ 63" "stall_bytes is < 2 ^ 31"
  shows "(let full = unat (cf_frontbus_stat_size (st_config st)) \<le> length (ss_ts (st_stats st)) in
      ss_ts (st_stats st2) = (if full then [] else ss_ts (st_stats st)) @ [real_of_int (stall_bytes is) / real_of_int (cyc - c0)] \<and>
      ss_tx_ts (st_stats st2) = (if full then [] else ss_tx_ts (st_stats st)) @ [real_of_int (tx_bytes is) / real_of_int (cyc - c0)]) \<and>
    memops_probe_counter st2 = 0 \<and> memops_tx_probe_counter st2 = 0 \<and> frontbus_previous_probe_cycle st2 = cyc \<and>
    frontbus_previous_tx_probe_cycle st2 = cyc \<and> st_breaks g2 = st_breaks g1 \<and>
    st_posted g2 = st_posted g1 @ [cf_frontbus_stat_interval (st_config st)]"
proof -
  have p: "memops_probe_counter st1 = stall_bytes is" "memops_tx_probe_counter st1 = tx_bytes is" "frontbus_previous_probe_cycle st1 = c0"
      "frontbus_previous_tx_probe_cycle st1 = c0" "st_stats st1 = st_stats st" "st_config st1 = st_config st"
    using operate_all_probes[OF run] start fit(4) by simp_all
  have "s64 (cyc - c0) = cyc - c0" using fit by (intro s64_id) auto
  then have bw: "fst (get_frontbus_bandwidth_probe cyc st1) = real_of_int (stall_bytes is) / real_of_int (cyc - c0)"
    "fst (get_frontbus_bandwidth_tx_probe cyc st1) = real_of_int (tx_bytes is) / real_of_int (cyc - c0)"
    using p fit(2) by (simp_all add: get_frontbus_bandwidth_probe_def get_frontbus_bandwidth_tx_probe_def)
  have len: "length (ss_ts (st_stats st1)) = length (ss_tx_ts (st_stats st1))" using start(5) p(5) by simp
  note parts = tick_parts[OF len, of cyc g1] and rest = tick_rest[OF len tick]
  show ?thesis using parts rest tick p bw fit(2) by (auto simp: Let_def close_epoch_def)
qed

definition demo_input :: staller_input where
  "demo_input = \<lparr>si_cyc = 100, si_fast = Some False, si_rnd = (\<lambda>_. 0), si_op = cache_line_read\<rparr>"

theorem bandwidth_recorded_witness:
  "\<exists>st1 g1 st2 g2. operate_all [demo_input] (st_new_instance, globals_initial) = Some (st1, g1) \<and>
     staller_stat_tick 10000 st1 g1 = (st2, g2) \<and> ss_ts (st_stats st2) = [64 / 10000] \<and> ss_tx_ts (st_stats st2) = [0] \<and>
     st_posted g2 = st_posted g1 @ [10000]"
proof -
  note d = demo_input_def cache_line_read_def st_new_instance_def stconfig_zero_def const_defs globals_initial_def
  have "\<exists>st1 g1. operate_all [demo_input] (st_new_instance, globals_initial) = Some (st1, g1)"
    by (simp add: d st_operate_def count_probe_def check_bandwidth_def stall_of_def Let_def)
  then obtain st1 g1 where run: "operate_all [demo_input] (st_new_instance, globals_initial) = Some (st1, g1)" by blast
  obtain st2 g2 where tick: "staller_stat_tick 10000 st1 g1 = (st2, g2)" by fastforce
  have "stall_bytes [demo_input] = 64" "tx_bytes [demo_input] = 0" by (simp_all add: d stall_bytes_def tx_bytes_def)
  with bandwidth_recorded[OF run tick, of 0] run tick show ?thesis
    by (intro exI[of _ st1] exI[of _ g1] exI[of _ st2] exI[of _ g2]) (simp add: d)
qed

section \<open>The statistics of an epoch\<close>

lemma epoch_loop_eq:
  "length ps = length qs \<Longrightarrow> epoch_loop ps qs a =
    \<lparr>ea_min = fold min ps (ea_min a), ea_mintx = fold min qs (ea_mintx a), ea_max = fold max ps (ea_max a), ea_maxtx = fold max qs (ea_maxtx a),
     ea_sum = ea_sum a + sum_list ps, ea_sumtx = ea_sumtx a + sum_list qs\<rparr>"
  by (induction ps qs arbitrary: a rule: list_induct2) (simp_all add: min.commute max.commute)

lemma dev_loop_eq:
  "length ps = length qs \<Longrightarrow> dev_loop m m' ps qs a =
    (fst a + (\<Sum>x \<leftarrow> ps. (x - m)\<^sup>2), snd a + (\<Sum>x \<leftarrow> qs. (x - m')\<^sup>2))"
  by (induction ps qs arbitrary: a rule: list_induct2) (auto simp: power2_eq_square)

lemma fold_min_Min: "xs \<noteq> [] \<Longrightarrow> \<forall>x \<in> set xs. x \<le> (b::real) \<Longrightarrow> fold min xs b = Min (set xs)"
  using Min.set_eq_fold[of b xs] by (simp add: Min_insert min_absorb2)

lemma fold_max_Max: "xs \<noteq> [] \<Longrightarrow> \<forall>x \<in> set xs. (b::real) \<le> x \<Longrightarrow> fold max xs b = Max (set xs)"
  using Max.set_eq_fold[of b xs] by (simp add: Max_insert max_absorb2)

lemma mean_bounds:
  assumes "xs \<noteq> []" shows "Min (set xs) \<le> sum_list xs / real (length xs)" "sum_list xs / real (length xs) \<le> Max (set xs)"
proof -
  have "(\<Sum>x \<leftarrow> xs. Min (set xs)) \<le> sum_list xs" "sum_list xs \<le> (\<Sum>x \<leftarrow> xs. Max (set xs))"
    using sum_list_mono[of xs "\<lambda>_. Min (set xs)" "\<lambda>x. x"] sum_list_mono[of xs "\<lambda>x. x" "\<lambda>_. Max (set xs)"] by simp_all
  then show "Min (set xs) \<le> sum_list xs / real (length xs)" "sum_list xs / real (length xs) \<le> Max (set xs)"
    using assms by (simp_all add: sum_list_triv field_simps)
qed


text \<open>A staller with two samples in each series and an epoch of two samples.\<close>

definition epoch_staller :: simple_staller where
  "epoch_staller = st_new_instance\<lparr>penaltycounter := 5,
     st_config := (st_config st_new_instance)\<lparr>cf_frontbus_stat_size := 2\<rparr>,
     st_stats := \<lparr>ss_ts = [1, 3], ss_tx_ts = [0, 1], ss_time_series = [], ss_current = stdatapoint_zero\<rparr>\<rparr>"


end
