(* ===== verification/SimApi.thy ===== *)
theory SimApi
  imports Os
begin

text \<open>
  The configuration interface of the simulator as the common modules call it (\<^verbatim>\<open>common/simics.h\<close>).  The simulator
  is not part of the sources: its calls are the fields of \<open>sim_api\<close>, functions on an abstract state \<open>'w\<close> that holds the
  configuration objects and the pending exception.  An object is named by its name, \<open>None\<close> is the null pointer.
  An interface is the object that provides it, because the modules always pass an object to its own interface.
\<close>

type_synonym obj = string

text \<open>The fields of \<^verbatim>\<open>generic_transaction_t\<close> that the modules fill in.\<close>

record generic_transaction =
  gt_logical_address :: u64
  gt_physical_address :: u64
  gt_size :: u32
  gt_may_stall :: bool
  gt_ini_ptr :: obj
  gt_type :: memop_type

record 'w sim_api =
  SIM_get_object :: "string \<Rightarrow> 'w \<Rightarrow> obj option \<times> 'w"
  SIM_get_attribute :: "obj \<Rightarrow> string \<Rightarrow> 'w \<Rightarrow> attr_value \<times> 'w"
  SIM_set_attribute :: "obj \<Rightarrow> string \<Rightarrow> attr_value \<Rightarrow> 'w \<Rightarrow> set_error \<times> 'w"
  SIM_get_interface :: "obj \<Rightarrow> string \<Rightarrow> 'w \<Rightarrow> obj option \<times> 'w"
  SIM_get_pending_exception :: "'w \<Rightarrow> sim_exception option"
  SIM_clear_exception :: "'w \<Rightarrow> sim_exception option \<times> 'w"
  union_integer :: "attr_value \<Rightarrow> int"
  ifc_operate :: "obj \<Rightarrow> generic_transaction \<Rightarrow> 'w \<Rightarrow> cycles \<times> 'w"
  ifc_commitTx :: "obj \<Rightarrow> int \<Rightarrow> 'w \<Rightarrow> cycles \<times> 'w"
  ifc_abortTx :: "obj \<Rightarrow> int \<Rightarrow> 'w \<Rightarrow> cycles \<times> 'w"
  ifc_earlyRelease :: "obj \<Rightarrow> u64 \<Rightarrow> u64 \<Rightarrow> int \<Rightarrow> 'w \<Rightarrow> 'w"

text \<open>
  The members of the union in an attribute value.  The integer member of a value of another kind is whatever the union
  holds (\<open>union_integer\<close>); the object member of an invalid or nil value is null, that of any other kind no pointer at all.
\<close>

definition u_integer :: "'w sim_api \<Rightarrow> attr_value \<Rightarrow> int" where
  "u_integer A v = (case v of Sim_Val_Integer i \<Rightarrow> i | _ \<Rightarrow> union_integer A v)"

definition u_object :: "attr_value \<Rightarrow> obj option option" where
  "u_object v = (case v of
       Sim_Val_Object n \<Rightarrow> Some (Some n)
     | Sim_Val_Nil \<Rightarrow> Some None
     | Sim_Val_Invalid \<Rightarrow> Some None
     | _ \<Rightarrow> None)"

definition osa_sim_get_integer_attribute :: "'w sim_api \<Rightarrow> obj \<Rightarrow> string \<Rightarrow> 'w \<Rightarrow> int \<times> 'w" where
  "osa_sim_get_integer_attribute A p a w = (let (v, w1) = SIM_get_attribute A p a w in (to_int (u_integer A v), w1))"

definition osa_sim_get_generic_attribute :: "'w sim_api \<Rightarrow> obj \<Rightarrow> string \<Rightarrow> 'w \<Rightarrow> (obj option \<times> 'w) option" where
  "osa_sim_get_generic_attribute A p a w =
     (let (v, w1) = SIM_get_attribute A p a w in map_option (\<lambda>p'. (p', w1)) (u_object v))"

text \<open>\<^verbatim>\<open>if (osa_sim_get_error() != NO_ERROR) osa_sim_clear_error();\<close>\<close>

definition clear_pending :: "'w sim_api \<Rightarrow> 'w \<Rightarrow> 'w" where
  "clear_pending A w = (if SIM_get_pending_exception A w \<noteq> None then snd (SIM_clear_exception A w) else w)"

text \<open>
  The attributes named in \<open>S\<close> are plain: \<open>val\<close> reads them, setting one changes that one only, setting any other
  attribute, looking up objects and clearing the exception leave them alone.
\<close>

definition plain_attributes :: "'w sim_api \<Rightarrow> string set \<Rightarrow> ('w \<Rightarrow> obj \<Rightarrow> string \<Rightarrow> attr_value) \<Rightarrow> bool" where
  "plain_attributes A S val \<longleftrightarrow>
     (\<forall>p a v w q b. b \<in> S \<longrightarrow>
        val (snd (SIM_set_attribute A p a v w)) q b = (if q = p \<and> b = a then v else val w q b)) \<and>
     (\<forall>n w. val (snd (SIM_get_object A n w)) = val w) \<and>
     (\<forall>w. val (snd (SIM_clear_exception A w)) = val w)"

text \<open>The set of objects does not change while the configuration is read and written.\<close>

definition fixed_objects :: "'w sim_api \<Rightarrow> (string \<Rightarrow> bool) \<Rightarrow> bool" where
  "fixed_objects A ex \<longleftrightarrow> (\<forall>n w. fst (SIM_get_object A n w) = (if ex n then Some n else None))"

end
