(* ===== verification/OsaCache.thy ===== *)
theory OsaCache
  imports SimApi
begin

text \<open>
  The cache side of the modules (\<^verbatim>\<open>common/osacache.cc\<close>): the tables of statistics and the routines that reset and print
  them, the chain of timing models with the per-processor cache list, the walks through the cache hierarchy, and the
  transactional operations of the first level cache and the store buffer.
\<close>

section \<open>Tables of statistics\<close>

text \<open>A null terminated table is a list.\<close>

definition gnGCacheAttrs :: int where "gnGCacheAttrs = 17"

definition gvszGCacheStats :: "string list" where
  "gvszGCacheStats = [''stat_copy_back'', ''stat_data_read'', ''stat_data_read_miss'', ''stat_data_write'',
     ''stat_data_write_miss'', ''stat_dev_data_read'', ''stat_dev_data_write'', ''stat_inst_fetch'', ''stat_inst_fetch_miss'',
     ''stat_lost_stall_cycles'', ''stat_mesi_exclusive_to_shared'', ''stat_mesi_invalidate'', ''stat_mesi_modified_to_shared'',
     ''stat_transaction'', ''stat_uc_data_read'', ''stat_uc_data_write'', ''stat_uc_inst_fetch'']"

definition gvszTxCacheStats :: "string list" where
  "gvszTxCacheStats = [''stat_transactions'', ''stat_dev_data_read'', ''stat_dev_data_write'', ''stat_uc_inst_fetch'',
     ''stat_uc_data_read'', ''stat_uc_data_write'', ''stat_lost_stall_cycles'', ''stat_data_read_miss'',
     ''stat_inst_fetch_miss'', ''stat_tmesi_invalidate'', ''stat_tmesi_modified_to_shared'', ''stat_tmesi_shared_to_modified'',
     ''stat_tmesi_exclusive_to_shared'', ''stat_tmesi_tm_to_ts'', ''stat_tmesi_tm_to_tmi'', ''stat_tmesi_ts_to_tmi'',
     ''stat_tmesi_m_to_tm'', ''stat_tmesi_m_to_tmi'', ''stat_tmesi_m_to_ts'', ''stat_tmesi_exclusive_to_modified'',
     ''stat_tmesi_e_to_tmi'', ''stat_tmesi_e_to_te'', ''stat_tmesi_e_to_ts'', ''stat_tmesi_s_to_tmi'', ''stat_tmesi_s_to_ts'',
     ''stat_tmesi_tm_to_m'', ''stat_tmesi_tm_to_s'', ''stat_tmesi_tmi_to_m'', ''stat_tmesi_tmi_to_e'', ''stat_tmesi_tmi_to_s'',
     ''stat_tmesi_te_to_m'', ''stat_tmesi_te_to_e'', ''stat_tmesi_te_to_s'', ''stat_tmesi_te_to_tmi'', ''stat_tmesi_te_to_ts'',
     ''stat_tmesi_ts_to_m'', ''stat_tmesi_ts_to_e'', ''stat_tmesi_ts_to_s'', ''stat_conflicting_reads'',
     ''stat_conflicting_write'', ''stat_detected_conflicts'', ''stat_local_undetected_conflicts'', ''stat_predicted_conflicts'',
     ''stat_unpredicted_conflicts'', ''stat_asymmetric_conflicts'', ''stat_data_write'', ''stat_data_write_miss'',
     ''stat_write_back'', ''stat_overflow_count'', ''stat_ov_conflicts'', ''stat_data_read'', ''stat_inst_fetch'',
     ''stat_copy_back'', ''stat_txR_miss'', ''stat_txR_hit'', ''stat_txW_miss'', ''stat_txW_hit'', ''stat_tx_upgrade'',
     ''stat_tx_upgrade_noblock'', ''stat_tx_commits'', ''stat_tx_aborts'', ''stat_tx_references'', ''stat_tx_reads'',
     ''stat_tx_writes'', ''stat_stack_asymmetric_conflicts'', ''stat_tx_early_releases'']"

definition gvszTxsbStats :: "string list" where
  "gvszTxsbStats = [''stat_tx_memops'', ''stat_tx_loads'', ''stat_tx_stores'', ''stat_tx_commits'', ''stat_tx_aborts'',
     ''stat_tx_overflows'', ''stat_tx_conflicts'', ''stat_tx_asymmetric_conflicts'', ''stat_tx_coherence_inv'', ''stat_memops'',
     ''stat_unstallable'', ''stat_loads'', ''stat_stores'', ''stat_coherence_inv'', ''stat_loads_from_q'',
     ''stat_tx_loads_from_q'', ''stat_repeat_stores'', ''stat_tx_repeat_stores'', ''stat_total_latency'',
     ''stat_cumulative_len'', ''stat_cumulative_deferred'', ''stat_enqueued_memops'', ''stat_tx_enqueued_memops'',
     ''stat_qfull_memops'', ''stat_tx_qfull_memops'', ''stat_max_qlen'', ''stat_min_qlen'', ''stat_qsamples'']"

definition gnTxCacheAttrs :: int where "gnTxCacheAttrs = 66"

record cache_stats =
  gnCacheAttrs :: int
  gvszCacheStats :: "string list option"

definition cache_stats_new :: cache_stats where
  "cache_stats_new = \<lparr>gnCacheAttrs = - 1, gvszCacheStats = None\<rparr>"

definition initialize_cache_stats :: "bool \<Rightarrow> cache_stats \<Rightarrow> cache_stats" where
  "initialize_cache_stats busetx g =
     g\<lparr>gnCacheAttrs := if busetx then gnTxCacheAttrs else gnGCacheAttrs,
       gvszCacheStats := Some (if busetx then gvszTxCacheStats else gvszGCacheStats)\<rparr>"

section \<open>Reset\<close>

fun reset_attrs :: "'w sim_api \<Rightarrow> obj \<Rightarrow> string list \<Rightarrow> 'w \<Rightarrow> 'w" where
  "reset_attrs A p [] w = w"
| "reset_attrs A p (a # as) w = reset_attrs A p as (snd (SIM_set_attribute A p a (Sim_Val_Integer 0) w))"

definition reset_one_cache_stats :: "'w sim_api \<Rightarrow> cache_stats \<Rightarrow> obj \<Rightarrow> 'w \<Rightarrow> 'w option" where
  "reset_one_cache_stats A g p w = map_option (\<lambda>as. reset_attrs A p as w) (gvszCacheStats g)"

definition reset_one_storebuffer_stats :: "'w sim_api \<Rightarrow> obj \<Rightarrow> 'w \<Rightarrow> 'w" where
  "reset_one_storebuffer_stats A p w = reset_attrs A p gvszTxsbStats w"

text \<open>A name is printed into a buffer of \<open>OSATXM_BUFSIZE\<close> bytes; a longer one overruns it.\<close>

definition OSATXM_BUFSIZE :: nat where [const_defs]: "OSATXM_BUFSIZE = 32"

definition device_name :: "string \<Rightarrow> string \<Rightarrow> nat \<Rightarrow> string" where
  "device_name prefix kind i = prefix @ kind @ digits 10 i"

definition sprintf_name :: "string \<Rightarrow> string \<Rightarrow> nat \<Rightarrow> string option" where
  "sprintf_name prefix kind i =
     (let n = device_name prefix kind i in if length n < OSATXM_BUFSIZE then Some n else None)"

definition reset_if :: "'w sim_api \<Rightarrow> cache_stats \<Rightarrow> obj option \<Rightarrow> 'w \<Rightarrow> 'w option" where
  "reset_if A g po w = (case po of None \<Rightarrow> Some w | Some p \<Rightarrow> reset_one_cache_stats A g p w)"

definition reset_cpu :: "'w sim_api \<Rightarrow> cache_stats \<Rightarrow> string \<Rightarrow> nat \<Rightarrow> 'w \<Rightarrow> 'w option" where
  "reset_cpu A g prefix i w = do {
     szICacheName \<leftarrow> sprintf_name prefix ''icache'' i;
     szDCacheName \<leftarrow> sprintf_name prefix ''dcache'' i;
     szL2CacheName \<leftarrow> sprintf_name prefix ''l2cache'' i;
     szStorebufferName \<leftarrow> sprintf_name prefix ''sb'' i;
     let (picache, w) = SIM_get_object A szICacheName w;
     let (pdcache, w) = SIM_get_object A szDCacheName w;
     let (pl2cache, w) = SIM_get_object A szL2CacheName w;
     let (pstorebuffer, w) = SIM_get_object A szStorebufferName w;
     w \<leftarrow> reset_if A g picache w;
     w \<leftarrow> reset_if A g pdcache w;
     w \<leftarrow> reset_if A g pl2cache w;
     w \<leftarrow> reset_if A g pstorebuffer w;
     Some (if SIM_get_pending_exception A w = Some SimExc_General then snd (SIM_clear_exception A w) else w)
   }"

fun reset_cpus :: "'w sim_api \<Rightarrow> cache_stats \<Rightarrow> string \<Rightarrow> nat list \<Rightarrow> 'w \<Rightarrow> 'w option" where
  "reset_cpus A g prefix [] w = Some w"
| "reset_cpus A g prefix (i # is) w = do { w \<leftarrow> reset_cpu A g prefix i w; reset_cpus A g prefix is w }"

definition reset_cache_statistics :: "'w sim_api \<Rightarrow> cache_stats \<Rightarrow> int \<Rightarrow> string \<Rightarrow> 'w \<Rightarrow> 'w option" where
  "reset_cache_statistics A g nCaches prefix w = do {
     w \<leftarrow> reset_cpus A g prefix [0..<nat nCaches] w;
     let (staller, w) = SIM_get_object A ''staller'' w;
     Some (case staller of
         None \<Rightarrow> w
       | Some p \<Rightarrow> snd (SIM_set_attribute A p ''statistics'' (Sim_Val_String '''') w))
   }"

section \<open>Printing\<close>

fun dump_attrs :: "'w sim_api \<Rightarrow> obj \<Rightarrow> string \<Rightarrow> string list \<Rightarrow> 'w \<Rightarrow> ostream \<times> 'w" where
  "dump_attrs A p name [] w = ([], w)"
| "dump_attrs A p name (a # as) w =
     (let (i, w1) = osa_sim_get_integer_attribute A p a w;
          (out, w2) = dump_attrs A p name as w1
      in ([Str name, Str '': '', Str a, Str ('':'' @ TAB), Dec i, Endl] @ out, w2))"

definition dump_cache_stat_attrs :: "'w sim_api \<Rightarrow> cache_stats \<Rightarrow> obj \<Rightarrow> string \<Rightarrow> 'w \<Rightarrow> (ostream \<times> 'w) option" where
  "dump_cache_stat_attrs A g p name w = map_option (\<lambda>as. dump_attrs A p name as w) (gvszCacheStats g)"

definition dump_sb_stat_attrs :: "'w sim_api \<Rightarrow> obj \<Rightarrow> string \<Rightarrow> 'w \<Rightarrow> ostream \<times> 'w" where
  "dump_sb_stat_attrs A p name w = dump_attrs A p name gvszTxsbStats w"

fun tabular_attrs :: "'w sim_api \<Rightarrow> obj \<Rightarrow> string \<Rightarrow> string list \<Rightarrow> 'w \<Rightarrow> ostream \<times> 'w" where
  "tabular_attrs A p delim [] w = ([Endl], w)"
| "tabular_attrs A p delim (a # as) w =
     (let (i, w1) = osa_sim_get_integer_attribute A p a w;
          (out, w2) = tabular_attrs A p delim as w1
      in ([Dec i, Str delim] @ out, w2))"

definition tabular_row :: "'w sim_api \<Rightarrow> string list \<Rightarrow> obj \<Rightarrow> string \<Rightarrow> string \<Rightarrow> bool \<Rightarrow> 'w \<Rightarrow> ostream \<times> 'w" where
  "tabular_row A as p name delim bRowNames w =
     (let (out, w1) = tabular_attrs A p delim as w
      in ((if bRowNames then [Str name, Str delim] else []) @ out, w1))"

definition tabular_cache_stat_attrs ::
  "'w sim_api \<Rightarrow> cache_stats \<Rightarrow> obj \<Rightarrow> string \<Rightarrow> string \<Rightarrow> bool \<Rightarrow> 'w \<Rightarrow> (ostream \<times> 'w) option" where
  "tabular_cache_stat_attrs A g p name delim bRowNames w =
     map_option (\<lambda>as. tabular_row A as p name delim bRowNames w) (gvszCacheStats g)"

definition tabular_sb_stat_attrs :: "'w sim_api \<Rightarrow> obj \<Rightarrow> string \<Rightarrow> string \<Rightarrow> bool \<Rightarrow> 'w \<Rightarrow> ostream \<times> 'w" where
  "tabular_sb_stat_attrs A p name delim bRowNames w = tabular_row A gvszTxsbStats p name delim bRowNames w"

definition table_headers :: "string list \<Rightarrow> string \<Rightarrow> bool \<Rightarrow> ostream" where
  "table_headers as delim bRowNames =
     (if bRowNames then [Str '''', Str delim] else []) @ concat (map (\<lambda>a. [Str a, Str delim]) as) @ [Endl]"

definition dump_cache_table_headers :: "cache_stats \<Rightarrow> string \<Rightarrow> bool \<Rightarrow> bool \<Rightarrow> ostream option" where
  "dump_cache_table_headers g delim bRowNames bColNames =
     (if \<not> bColNames then Some []
      else map_option (\<lambda>as. table_headers as delim bRowNames) (gvszCacheStats g))"

definition dump_sb_table_headers :: "string \<Rightarrow> bool \<Rightarrow> bool \<Rightarrow> ostream" where
  "dump_sb_table_headers delim bRowNames bColNames =
     (if \<not> bColNames then [] else table_headers gvszTxsbStats delim bRowNames)"

definition RULE :: ostream where
  "RULE = [Str ''--------------------------------------------------'', Endl]"

definition dump_one :: "'w sim_api \<Rightarrow> cache_stats \<Rightarrow> bool \<Rightarrow> string \<Rightarrow> obj option \<Rightarrow> string \<Rightarrow> 'w \<Rightarrow> (ostream \<times> 'w) option" where
  "dump_one A g bTabular delim po name w =
     (case po of
        None \<Rightarrow> Some ([], w)
      | Some p \<Rightarrow>
          if bTabular then tabular_cache_stat_attrs A g p name delim True w
          else dump_cache_stat_attrs A g p name w)"

definition dump_cpu :: "'w sim_api \<Rightarrow> cache_stats \<Rightarrow> bool \<Rightarrow> string \<Rightarrow> string \<Rightarrow> nat \<Rightarrow> 'w \<Rightarrow> (ostream \<times> 'w) option" where
  "dump_cpu A g bTabular delim prefix i w = do {
     szICacheName \<leftarrow> sprintf_name prefix ''icache'' i;
     szDCacheName \<leftarrow> sprintf_name prefix ''dcache'' i;
     szL2CacheName \<leftarrow> sprintf_name prefix ''l2cache'' i;
     let (picache, w) = SIM_get_object A szICacheName w;
     let (pdcache, w) = SIM_get_object A szDCacheName w;
     let (pl2cache, w) = SIM_get_object A szL2CacheName w;
     let title = [Str ''Cache Statistics for CPU '', Dec (int i), Str '': (''] @
           (if picache \<noteq> None then [Str szICacheName, Str '',''] else []) @
           (if pdcache \<noteq> None then [Str szDCacheName] else []) @
           (if pl2cache \<noteq> None then [Str '', '', Str szL2CacheName] else []) @
           [Str '')'', Endl] @ RULE;
     head \<leftarrow> (if bTabular then dump_cache_table_headers g delim True True else Some []);
     (oi, w) \<leftarrow> dump_one A g bTabular delim picache szICacheName w;
     (od, w) \<leftarrow> dump_one A g bTabular delim pdcache szDCacheName w;
     (ol, w) \<leftarrow> dump_one A g bTabular delim pl2cache szL2CacheName w;
     Some (title @ head @ oi @ od @ ol, clear_pending A w)
   }"

fun dump_cpus :: "'w sim_api \<Rightarrow> cache_stats \<Rightarrow> bool \<Rightarrow> string \<Rightarrow> string \<Rightarrow> nat list \<Rightarrow> 'w \<Rightarrow> (ostream \<times> 'w) option" where
  "dump_cpus A g bTabular delim prefix [] w = Some ([], w)"
| "dump_cpus A g bTabular delim prefix (i # is) w = do {
     (o1, w) \<leftarrow> dump_cpu A g bTabular delim prefix i w;
     (o2, w) \<leftarrow> dump_cpus A g bTabular delim prefix is w;
     Some (o1 @ o2, w)
   }"

definition dump_storebuffer :: "'w sim_api \<Rightarrow> bool \<Rightarrow> string \<Rightarrow> string \<Rightarrow> nat \<Rightarrow> 'w \<Rightarrow> (ostream \<times> 'w) option" where
  "dump_storebuffer A bTabular delim prefix i w = do {
     szsb \<leftarrow> sprintf_name prefix ''sb'' i;
     let (pstorebuffer, w) = SIM_get_object A szsb w;
     Some (case pstorebuffer of
         None \<Rightarrow> ([], w)
       | Some p \<Rightarrow>
           (let title = [Str ''Store Buffer Statistics for CPU '', Dec (int i), Str '': ('', Str szsb, Str '')'', Endl] @ RULE;
                (out, w1) =
                  (if bTabular
                   then (let (r, w') = tabular_sb_stat_attrs A p szsb delim True w
                         in (dump_sb_table_headers delim True True @ r, w'))
                   else dump_sb_stat_attrs A p szsb w)
            in (title @ out, clear_pending A w1)))
   }"

fun dump_storebuffers :: "'w sim_api \<Rightarrow> bool \<Rightarrow> string \<Rightarrow> string \<Rightarrow> nat list \<Rightarrow> 'w \<Rightarrow> (ostream \<times> 'w) option" where
  "dump_storebuffers A bTabular delim prefix [] w = Some ([], w)"
| "dump_storebuffers A bTabular delim prefix (i # is) w = do {
     (o1, w) \<leftarrow> dump_storebuffer A bTabular delim prefix i w;
     (o2, w) \<leftarrow> dump_storebuffers A bTabular delim prefix is w;
     Some (o1 @ o2, w)
   }"

text \<open>The time series of the staller is a list of lists of floating point numbers.\<close>

fun epoch_items :: "attr_value list \<Rightarrow> ostream option" where
  "epoch_items [] = Some []"
| "epoch_items [Sim_Val_Floating x] = Some [Flt x]"
| "epoch_items (Sim_Val_Floating x # vs) = map_option (\<lambda>out. Flt x # Str '','' # out) (epoch_items vs)"
| "epoch_items _ = None"

fun epoch_lines :: "attr_value list \<Rightarrow> ostream option" where
  "epoch_lines [] = Some []"
| "epoch_lines (Sim_Val_List vs # es) = do {
     o1 \<leftarrow> epoch_items vs;
     o2 \<leftarrow> epoch_lines es;
     Some ([Str ''[''] @ o1 @ [Str '']'', Endl] @ o2)
   }"
| "epoch_lines _ = None"

definition dump_staller :: "'w sim_api \<Rightarrow> 'w \<Rightarrow> (ostream \<times> 'w) option" where
  "dump_staller A w =
     (case SIM_get_object A ''staller'' w of
        (None, w) \<Rightarrow> Some ([], w)
      | (Some p, w) \<Rightarrow>
          (case SIM_get_attribute A p ''statistics'' w of
             (Sim_Val_String ststats, w) \<Rightarrow>
               (case SIM_get_attribute A p ''epoch_time_series'' w of
                  (Sim_Val_List es, w) \<Rightarrow>
                    map_option (\<lambda>out. ([Str ''Staller statistics'', Endl, Str ststats, Str ''Staller time series'', Endl]
                                        @ out @ RULE, w)) (epoch_lines es)
                | _ \<Rightarrow> None)
           | _ \<Rightarrow> None))"

definition dump_cache_statistics ::
  "'w sim_api \<Rightarrow> cache_stats \<Rightarrow> int \<Rightarrow> bool \<Rightarrow> string \<Rightarrow> bool \<Rightarrow> bool \<Rightarrow> string \<Rightarrow> 'w \<Rightarrow> (ostream \<times> 'w) option" where
  "dump_cache_statistics A g nCaches bTabular delim bRowNames bColNames prefix w = do {
     (o1, w) \<leftarrow> dump_cpus A g bTabular delim prefix [0..<nat nCaches] w;
     (o2, w) \<leftarrow> dump_storebuffers A bTabular delim prefix [0..<nat nCaches] w;
     (o3, w) \<leftarrow> dump_staller A w;
     Some (o1 @ RULE @ o2 @ RULE @ o3, w)
   }"

section \<open>The chain of timing models\<close>

datatype mod_type = OSATXM | SYNCCHAR | SYNCCOUNT | COMMON

text \<open>
  The part of a module these functions use.  An array is a list, \<open>None\<close> the null pointer; an index outside it has no result.
\<close>

record cachemod =
  cm_type :: mod_type
  cm_use_txcache :: bool
  cm_minfo :: minfo
  timing_model :: "obj option"
  timing_ifc :: "obj option"
  ppCaches :: "obj option list option"
  ppCachesIfc :: "obj option list option"
  nCaches :: int
  abort_commit_ifc :: "obj option"

definition TIMING_MODEL_INTERFACE :: string where "TIMING_MODEL_INTERFACE = ''timing_model''"

text \<open>An element of an array of pointers.\<close>

definition elem :: "'a list option \<Rightarrow> int \<Rightarrow> 'a option" where
  "elem arr i = (case arr of None \<Rightarrow> None | Some xs \<Rightarrow> if 0 \<le> i \<and> i < int (length xs) then Some (xs ! nat i) else None)"

text \<open>
  The sum is an \<^verbatim>\<open>int\<close>, converted to cycles when it is returned.  A processor without a cache is reported, and then
  read from behind the arrays.
\<close>

definition collect_cache_timing ::
  "'w sim_api \<Rightarrow> nat \<Rightarrow> generic_transaction \<Rightarrow> cachemod \<Rightarrow> 'w \<Rightarrow> (cycles \<times> 'w) option" where
  "collect_cache_timing A cpu mt m w = do {
     (penalty, w) \<leftarrow>
       (if ppCaches m \<noteq> None \<and> \<not> (cm_type m \<in> {SYNCCHAR, SYNCCOUNT, COMMON} \<and> timing_model m \<noteq> None)
        then let nProcessor = getCpuNum (cm_minfo m) cpu in do {
          pTIfc \<leftarrow> elem (ppCachesIfc m) nProcessor;
          pCache \<leftarrow> elem (ppCaches m) nProcessor;
          ifc \<leftarrow> pTIfc;
          cache \<leftarrow> pCache;
          let (c, w) = ifc_operate A cache mt w;
          Some (ucast c :: u32, w)
        }
        else Some (0, w));
     (penalty, w) \<leftarrow>
       (case timing_model m of
          None \<Rightarrow> Some (penalty, w)
        | Some tm \<Rightarrow> do {
            ifc \<leftarrow> timing_ifc m;
            let (c, w) = ifc_operate A tm mt w;
            Some (penalty + ucast c, w)
          });
     Some (scast penalty, w)
   }"

definition set_timing_model :: "'w sim_api \<Rightarrow> attr_value \<Rightarrow> cachemod \<Rightarrow> 'w \<Rightarrow> (set_error \<times> cachemod \<times> 'w) option" where
  "set_timing_model A v m w =
     (if v = Sim_Val_Nil then Some (Sim_Set_Ok, m\<lparr>timing_model := None, timing_ifc := None\<rparr>, w)
      else do {
        po \<leftarrow> u_object v;
        p \<leftarrow> po;
        let (ifc, w) = SIM_get_interface A p TIMING_MODEL_INTERFACE w;
        let (err, w) = SIM_clear_exception A w;
        Some (if err \<noteq> None then (Sim_Set_Interface_Not_Found, m\<lparr>timing_ifc := ifc\<rparr>, w)
              else (Sim_Set_Ok, m\<lparr>timing_ifc := ifc, timing_model := Some p\<rparr>, w))
      })"

definition attr_object :: "obj option \<Rightarrow> attr_value" where
  "attr_object po = (case po of None \<Rightarrow> Sim_Val_Nil | Some p \<Rightarrow> Sim_Val_Object p)"

definition get_timing_model :: "cachemod \<Rightarrow> attr_value" where
  "get_timing_model m = attr_object (timing_model m)"

text \<open>The loop of \<^verbatim>\<open>set_caches\<close>: the two arrays filled so far, or \<open>None\<close> at the first object without the interface.\<close>

fun fill_caches :: "'w sim_api \<Rightarrow> attr_value list \<Rightarrow> obj option list \<Rightarrow> obj option list \<Rightarrow> 'w
    \<Rightarrow> ((obj option list \<times> obj option list) option \<times> 'w) option" where
  "fill_caches A [] cs is w = Some (Some (cs, is), w)"
| "fill_caches A (v # vs) cs is w = do {
     po \<leftarrow> u_object v;
     p \<leftarrow> po;
     let (ifc, w) = SIM_get_interface A p TIMING_MODEL_INTERFACE w;
     let (err, w) = SIM_clear_exception A w;
     if err \<noteq> None then Some (None, w) else fill_caches A vs (cs @ [Some p]) (is @ [ifc]) w
   }"

definition set_caches :: "'w sim_api \<Rightarrow> attr_value \<Rightarrow> cachemod \<Rightarrow> 'w \<Rightarrow> (set_error \<times> cachemod \<times> 'w) option" where
  "set_caches A v m w =
     (case v of
        Sim_Val_List vs \<Rightarrow> do {
          (res, w) \<leftarrow> fill_caches A vs [] [] w;
          Some (case res of
              None \<Rightarrow> (Sim_Set_Interface_Not_Found, m\<lparr>nCaches := 0, ppCaches := None, ppCachesIfc := None\<rparr>, w)
            | Some (cs, is) \<Rightarrow>
                (Sim_Set_Ok, m\<lparr>nCaches := int (length vs), ppCaches := Some cs, ppCachesIfc := Some is\<rparr>, w))
        }
      | _ \<Rightarrow> None)"

fun list_caches :: "cachemod \<Rightarrow> nat list \<Rightarrow> attr_value list option" where
  "list_caches m [] = Some []"
| "list_caches m (i # is) = do {
     po \<leftarrow> elem (ppCaches m) (int i);
     vs \<leftarrow> list_caches m is;
     Some (attr_object po # vs)
   }"

definition get_caches :: "cachemod \<Rightarrow> attr_value option" where
  "get_caches m =
     (if ppCaches m = None then Some Sim_Val_Nil
      else map_option Sim_Val_List (list_caches m [0..<nat (nCaches m)]))"

section \<open>Walks through the cache hierarchy\<close>

text \<open>
  A walk follows object attributes; where one is null it clears the exception that the missing attribute raised and
  returns null.
\<close>

definition follow :: "'w sim_api \<Rightarrow> string \<Rightarrow> obj option \<times> 'w \<Rightarrow> (obj option \<times> 'w) option" where
  "follow A a pw = (case pw of
       (None, w) \<Rightarrow> Some (None, w)
     | (Some p, w) \<Rightarrow> do {
         (q, w) \<leftarrow> osa_sim_get_generic_attribute A p a w;
         Some (q, if q = None then clear_pending A w else w)
       })"

definition hierarchy_entry :: "'w sim_api \<Rightarrow> int \<Rightarrow> cachemod \<Rightarrow> 'w \<Rightarrow> (obj option \<times> 'w) option" where
  "hierarchy_entry A procNum m w =
     (if ppCaches m = None then Some (None, w)
      else do {
        psplitter \<leftarrow> elem (ppCaches m) procNum;
        Some (psplitter, if psplitter = None then clear_pending A w else w)
      })"

definition find_storebuffer :: "'w sim_api \<Rightarrow> int \<Rightarrow> cachemod \<Rightarrow> 'w \<Rightarrow> (obj option \<times> 'w) option" where
  "find_storebuffer A procNum m w = do {
     pw \<leftarrow> hierarchy_entry A procNum m w;
     pw \<leftarrow> follow A ''dbranch'' pw;
     follow A ''cache'' pw
   }"

definition find_l1_dcache :: "'w sim_api \<Rightarrow> int \<Rightarrow> cachemod \<Rightarrow> 'w \<Rightarrow> (obj option \<times> 'w) option" where
  "find_l1_dcache A procNum m w = do {
     pw \<leftarrow> find_storebuffer A procNum m w;
     follow A ''timing_model'' pw
   }"

text \<open>The loop of \<^verbatim>\<open>find_staller\<close> ends only at a staller or at an object without a timing model.\<close>

partial_function (option) chase_staller :: "'w sim_api \<Rightarrow> obj option \<times> 'w \<Rightarrow> (obj option \<times> 'w) option" where
  "chase_staller A pw = do {
     pw \<leftarrow> follow A ''timing_model'' pw;
     case fst pw of
       None \<Rightarrow> Some pw
     | Some q \<Rightarrow> if take 7 q = ''staller'' then Some pw else chase_staller A pw
   }"

definition find_staller :: "'w sim_api \<Rightarrow> int \<Rightarrow> cachemod \<Rightarrow> 'w \<Rightarrow> (obj option \<times> 'w) option" where
  "find_staller A procNum m w = do {
     pw \<leftarrow> find_l1_dcache A procNum m w;
     chase_staller A pw
   }"

section \<open>Exercising the hierarchy\<close>

text \<open>\<open>self\<close> is the module's own object.\<close>

definition memhier_exercise ::
  "'w sim_api \<Rightarrow> obj \<Rightarrow> u64 \<Rightarrow> u64 \<Rightarrow> u32 \<Rightarrow> int \<Rightarrow> bool \<Rightarrow> cachemod \<Rightarrow> 'w \<Rightarrow> (cycles \<times> 'w) option" where
  "memhier_exercise A self laddr pa bytes procNum isread m w = do {
     (hole, w) \<leftarrow> hierarchy_entry A procNum m w;
     Some (case hole of
         None \<Rightarrow> (0, w)
       | Some p \<Rightarrow>
           (let mt = \<lparr>gt_logical_address = laddr, gt_physical_address = pa, gt_size = bytes, gt_may_stall = True,
                      gt_ini_ptr = self, gt_type = (if isread then Sim_Trans_Load else Sim_Trans_Store)\<rparr>;
                (ifc, w1) = SIM_get_interface A p TIMING_MODEL_INTERFACE w;
                (latency, w2) = (if ifc \<noteq> None then ifc_operate A p mt w1 else (0, w1))
            in (latency, clear_pending A w2)))
   }"

definition memhier_load :: "'w sim_api \<Rightarrow> obj \<Rightarrow> u64 \<Rightarrow> u64 \<Rightarrow> u32 \<Rightarrow> int \<Rightarrow> cachemod \<Rightarrow> 'w \<Rightarrow> (cycles \<times> 'w) option" where
  "memhier_load A self laddr pa bytes procNum m w = memhier_exercise A self laddr pa bytes procNum True m w"

definition memhier_store :: "'w sim_api \<Rightarrow> obj \<Rightarrow> u64 \<Rightarrow> u64 \<Rightarrow> u32 \<Rightarrow> int \<Rightarrow> cachemod \<Rightarrow> 'w \<Rightarrow> (cycles \<times> 'w) option" where
  "memhier_store A self laddr pa bytes procNum m w = memhier_exercise A self laddr pa bytes procNum False m w"

text \<open>The mask is 32 bits wide and is extended with zeros, so the block address keeps the low 32 bits only.\<close>

definition block_base :: "u32 \<Rightarrow> u64 \<Rightarrow> u64" where
  "block_base granularity addr = addr AND ucast (NOT (granularity - 1))"

definition memhier_load_block ::
  "'w sim_api \<Rightarrow> obj \<Rightarrow> u64 \<Rightarrow> u64 \<Rightarrow> u32 \<Rightarrow> u32 \<Rightarrow> int \<Rightarrow> cachemod \<Rightarrow> 'w \<Rightarrow> (cycles \<times> 'w) option" where
  "memhier_load_block A self laddr pa granularity bytes procNum m w =
     memhier_load A self (block_base granularity laddr) (block_base granularity pa) granularity procNum m w"

definition memhier_store_block ::
  "'w sim_api \<Rightarrow> obj \<Rightarrow> u64 \<Rightarrow> u64 \<Rightarrow> u32 \<Rightarrow> u32 \<Rightarrow> int \<Rightarrow> cachemod \<Rightarrow> 'w \<Rightarrow> (cycles \<times> 'w) option" where
  "memhier_store_block A self laddr pa granularity bytes procNum m w =
     memhier_store A self (block_base granularity laddr) (block_base granularity pa) granularity procNum m w"

section \<open>Configuration of the first level cache\<close>

definition get_l1_dcache_size :: "'w sim_api \<Rightarrow> int \<Rightarrow> cachemod \<Rightarrow> 'w \<Rightarrow> (int \<times> 'w) option" where
  "get_l1_dcache_size A procNum m w =
     (if ppCaches m = None then Some (0, w)
      else do {
        (pdcache, w) \<leftarrow> find_l1_dcache A procNum m w;
        Some (case pdcache of
            None \<Rightarrow> (0, clear_pending A w)
          | Some p \<Rightarrow>
              (let (line_number, w1) = osa_sim_get_integer_attribute A p ''config_line_number'' w;
                   (line_size, w2) = osa_sim_get_integer_attribute A p ''config_line_size'' w1
               in (to_int (line_number * line_size), w2)))
      })"

definition get_txcache_size :: "'w sim_api \<Rightarrow> int \<Rightarrow> cachemod \<Rightarrow> 'w \<Rightarrow> (u32 \<times> 'w) option" where
  "get_txcache_size A procNum m w = map_option (\<lambda>(i, w). (of_int i, w)) (get_l1_dcache_size A procNum m w)"

definition get_txcache_block_size :: "'w sim_api \<Rightarrow> int \<Rightarrow> cachemod \<Rightarrow> 'w \<Rightarrow> (u32 \<times> 'w) option" where
  "get_txcache_block_size A procNum m w =
     (if ppCaches m = None then Some (0, w)
      else do {
        entry \<leftarrow> elem (ppCaches m) procNum;
        if entry = None then Some (0, w)
        else do {
          (pdcache, w) \<leftarrow> find_l1_dcache A procNum m w;
          Some (case pdcache of
              None \<Rightarrow> (0, clear_pending A w)
            | Some p \<Rightarrow> (let (s, w1) = osa_sim_get_integer_attribute A p ''config_line_size'' w in (of_int s, w1)))
        }
      })"

definition get_cache_perturb :: "'w sim_api \<Rightarrow> int \<Rightarrow> cachemod \<Rightarrow> 'w \<Rightarrow> (int \<times> int \<times> 'w) option" where
  "get_cache_perturb A procNum m w =
     (if ppCaches m = None then Some (0, 0, w)
      else do {
        (pstaller, w) \<leftarrow> find_staller A procNum m w;
        Some (case pstaller of
            None \<Rightarrow> (0, 0, w)
          | Some p \<Rightarrow>
              (let (perturb, w1) = osa_sim_get_integer_attribute A p ''cache_perturb'' w;
                   (seed, w2) = osa_sim_get_integer_attribute A p ''seed'' w1
               in (perturb, seed, w2)))
      })"

definition enable_cache_perturb :: "'w sim_api \<Rightarrow> int \<Rightarrow> cachemod \<Rightarrow> 'w \<Rightarrow> (ostream \<times> 'w) option" where
  "enable_cache_perturb A procNum m w =
     (if nCaches m = 0 then Some ([], w)
      else if ppCaches m = None
      then Some ([Str ''Warning - cannot enable cache perturbation without the cache hierarchy'', Endl], w)
      else do {
        (pstaller, w) \<leftarrow> find_staller A procNum m w;
        Some (case pstaller of
            None \<Rightarrow> ([], w)
          | Some p \<Rightarrow>
              (let (err, w1) = SIM_set_attribute A p ''past_bios'' (Sim_Val_Boolean True) w
               in ([], if err \<noteq> Sim_Set_Ok then clear_pending A w1 else w1)))
      })"

section \<open>Transactions in the caches\<close>

definition ABORT_COMMIT :: string where "ABORT_COMMIT = ''abort-commit-interface''"

text \<open>
  The common shape of \<^verbatim>\<open>commitTxCache\<close>, \<^verbatim>\<open>abortTxCache\<close> and \<^verbatim>\<open>earlyRelease\<close>: the operation \<open>f\<close> on the first level data cache,
  then on the store buffer; an object without the interface is called through a null pointer.
\<close>

definition on_txcache :: "'w sim_api \<Rightarrow> (obj \<Rightarrow> 'w \<Rightarrow> cycles \<times> 'w) \<Rightarrow> int \<Rightarrow> cachemod \<Rightarrow> 'w
    \<Rightarrow> (cycles \<times> cachemod \<times> 'w) option" where
  "on_txcache A f procNum m w = do {
     (pdcache, w) \<leftarrow> find_l1_dcache A procNum m w;
     case pdcache of
       None \<Rightarrow> Some (0, m, clear_pending A w)
     | Some d \<Rightarrow> do {
         let (ifc, w) = SIM_get_interface A d ABORT_COMMIT w;
         if ifc = None then None
         else let (l1, w) = f d w; m = m\<lparr>abort_commit_ifc := ifc\<rparr> in do {
           (psb, w) \<leftarrow> find_storebuffer A procNum m w;
           case psb of
             None \<Rightarrow> Some (l1, m, clear_pending A w)
           | Some s \<Rightarrow>
               (let (ifc2, w) = SIM_get_interface A s ABORT_COMMIT w
                in if ifc2 = None then None
                   else let (l2, w) = f s w in Some (l1 + l2, m, w))
         }
       }
   }"

text \<open>The guard that \<^verbatim>\<open>commitTxCache\<close> and \<^verbatim>\<open>earlyRelease\<close> share; \<^verbatim>\<open>abortTxCache\<close> leaves the entry of the processor to the walk.\<close>

definition tx_guard :: "'w sim_api \<Rightarrow> (obj \<Rightarrow> 'w \<Rightarrow> cycles \<times> 'w) \<Rightarrow> int \<Rightarrow> cachemod \<Rightarrow> 'w
    \<Rightarrow> (cycles \<times> cachemod \<times> 'w) option" where
  "tx_guard A f procNum m w =
     (if \<not> cm_use_txcache m \<or> ppCaches m = None then Some (0, m, clear_pending A w)
      else do {
        entry \<leftarrow> elem (ppCaches m) procNum;
        if entry = None then Some (0, m, clear_pending A w) else on_txcache A f procNum m w
      })"

definition commitTxCache :: "'w sim_api \<Rightarrow> nat \<Rightarrow> int \<Rightarrow> cachemod \<Rightarrow> 'w \<Rightarrow> (cycles \<times> cachemod \<times> 'w) option" where
  "commitTxCache A cpu currentTxID m w =
     tx_guard A (\<lambda>p. ifc_commitTx A p currentTxID) (getCpuNum (cm_minfo m) cpu) m w"

definition abortTxCache :: "'w sim_api \<Rightarrow> int \<Rightarrow> int \<Rightarrow> cachemod \<Rightarrow> 'w \<Rightarrow> (cycles \<times> cachemod \<times> 'w) option" where
  "abortTxCache A currentTxID procNum m w =
     (if \<not> cm_use_txcache m \<or> ppCaches m = None then Some (0, m, clear_pending A w)
      else on_txcache A (\<lambda>p. ifc_abortTx A p currentTxID) procNum m w)"

definition earlyRelease :: "'w sim_api \<Rightarrow> nat \<Rightarrow> u64 \<Rightarrow> u64 \<Rightarrow> int \<Rightarrow> cachemod \<Rightarrow> 'w \<Rightarrow> (cachemod \<times> 'w) option" where
  "earlyRelease A cpu pa laddr currentTxID m w =
     map_option snd (tx_guard A (\<lambda>p w. (0, ifc_earlyRelease A p pa laddr currentTxID w)) (getCpuNum (cm_minfo m) cpu) m w)"

section \<open>The arrays agree\<close>

definition interface_reported :: "'w sim_api \<Rightarrow> bool" where
  "interface_reported A \<longleftrightarrow>
     (\<forall>p n w. fst (SIM_get_interface A p n w) = None \<longrightarrow> fst (SIM_clear_exception A (snd (SIM_get_interface A p n w))) \<noteq> None)"

definition caches_ok :: "cachemod \<Rightarrow> bool" where
  "caches_ok m \<longleftrightarrow>
     (case ppCaches m of
        None \<Rightarrow> ppCachesIfc m = None \<and> nCaches m = 0
      | Some cs \<Rightarrow> nCaches m = int (length cs) \<and> None \<notin> set cs \<and>
          (\<exists>is. ppCachesIfc m = Some is \<and> length is = length cs \<and> None \<notin> set is))"

text \<open>What can change a module's cache list and timing model, with any values and any simulator state.\<close>

inductive cm_step :: "'w sim_api \<Rightarrow> cachemod \<Rightarrow> cachemod \<Rightarrow> bool" for A :: "'w sim_api" where
  step_caches: "interface_reported A \<Longrightarrow> set_caches A v m w = Some (r, m', w') \<Longrightarrow> cm_step A m m'"
| step_timing: "set_timing_model A v m w = Some (r, m', w') \<Longrightarrow> cm_step A m m'"
| step_commit: "commitTxCache A cpu tx m w = Some (c, m', w') \<Longrightarrow> cm_step A m m'"
| step_abort: "abortTxCache A tx n m w = Some (c, m', w') \<Longrightarrow> cm_step A m m'"
| step_release: "earlyRelease A cpu a b tx m w = Some (m', w') \<Longrightarrow> cm_step A m m'"

definition cm_initial :: "cachemod \<Rightarrow> bool" where
  "cm_initial m \<longleftrightarrow> timing_model m = None \<and> timing_ifc m = None \<and> ppCaches m = None \<and> ppCachesIfc m = None \<and> nCaches m = 0"

lemma fill_caches_result:
  assumes "interface_reported A" "fill_caches A vs cs is w = Some (Some (cs', is'), w')" "None \<notin> set is"
  shows "\<exists>ps is2. map u_object vs = map (Some \<circ> Some) ps \<and> cs' = cs @ map Some ps \<and> is' = is @ is2 \<and>
           length is2 = length ps \<and> None \<notin> set is'"
  using assms(2,3)
proof (induction vs arbitrary: cs "is" w)
  case (Cons v vs)
  from Cons.prems obtain p where p: "u_object v = Some (Some p)"
    by (auto simp: Let_def split: option.splits bind_splits)
  obtain ifc w1 where i: "SIM_get_interface A p TIMING_MODEL_INTERFACE w = (ifc, w1)" by fastforce
  obtain err w2 where e: "SIM_clear_exception A w1 = (err, w2)" by fastforce
  from Cons.prems(1) p i e have err: "err = None" and rest: "fill_caches A vs (cs @ [Some p]) (is @ [ifc]) w2 = Some (Some (cs', is'), w')"
    by (auto split: if_splits)
  have "ifc \<noteq> None" using assms(1) i e err unfolding interface_reported_def by (metis fst_conv snd_conv)
  then have "None \<notin> set (is @ [ifc])" using Cons.prems(2) by auto
  from Cons.IH[OF rest this] obtain ps is2 where
    "map u_object vs = map (Some \<circ> Some) ps" "cs' = (cs @ [Some p]) @ map Some ps" "is' = (is @ [ifc]) @ is2"
    "length is2 = length ps" "None \<notin> set is'" by blast
  then show ?case using p by (intro exI[of _ "p # ps"] exI[of _ "ifc # is2"]) simp
qed (auto intro: exI[of _ "[]"])

lemma caches_ok_fields [simp]:
  "caches_ok (m\<lparr>timing_model := t\<rparr>) = caches_ok m" "caches_ok (m\<lparr>timing_ifc := i\<rparr>) = caches_ok m"
  "caches_ok (m\<lparr>abort_commit_ifc := x\<rparr>) = caches_ok m"
  by (auto simp: caches_ok_def split: option.splits)

lemma on_txcache_arrays:
  "on_txcache A f n m w = Some (c, m', w') \<Longrightarrow> caches_ok m' = caches_ok m"
  by (auto simp: on_txcache_def Let_def split: bind_splits option.splits prod.splits if_splits)

lemma tx_guard_arrays:
  "tx_guard A f n m w = Some (c, m', w') \<Longrightarrow> caches_ok m' = caches_ok m"
  by (auto simp: tx_guard_def split: bind_splits if_splits dest: on_txcache_arrays)

lemma set_caches_ok:
  assumes "interface_reported A" "set_caches A v m w = Some (r, m', w')"
  shows "caches_ok m'"
proof -
  from assms(2) obtain vs res where v: "v = Sim_Val_List vs" and f: "fill_caches A vs [] [] w = Some (res, w')"
    and m': "m' = (case res of None \<Rightarrow> m\<lparr>nCaches := 0, ppCaches := None, ppCachesIfc := None\<rparr>
              | Some (cs, is) \<Rightarrow> m\<lparr>nCaches := int (length vs), ppCaches := Some cs, ppCachesIfc := Some is\<rparr>)"
    by (auto simp: set_caches_def split: attr_value.splits bind_splits option.splits)
  show ?thesis
  proof (cases res)
    case (Some ci)
    obtain cs "is" where ci: "ci = (cs, is)" by fastforce
    from fill_caches_result[OF assms(1), of vs "[]" "[]" w cs "is" w'] f Some ci obtain ps where
      "map u_object vs = map (Some \<circ> Some) ps" "cs = map Some ps" "length is = length ps" "None \<notin> set is" by auto
    moreover have "length vs = length ps" using calculation(1) by (metis length_map)
    ultimately show ?thesis using m' Some ci by (auto simp: caches_ok_def)
  qed (use m' in \<open>simp add: caches_ok_def\<close>)
qed

interpretation chain: transition_system cm_initial "cm_step A" caches_ok for A :: "'w sim_api"
proof
  show "caches_ok m" if "cm_initial m" for m using that by (simp add: cm_initial_def caches_ok_def)
  show "caches_ok m'" if ok: "caches_ok m" and st: "cm_step A m m'" for m m'
    using st
  proof cases
    case (step_caches v w r w')
    then show ?thesis by (rule set_caches_ok)
  next
    case (step_timing v w r w')
    then show ?thesis using ok
      by (auto simp: set_timing_model_def Let_def split: if_splits bind_splits prod.splits)
  next
    case (step_commit cpu tx w c w')
    then show ?thesis using ok tx_guard_arrays by (fastforce simp: commitTxCache_def)
  next
    case (step_abort tx n w c w')
    then show ?thesis using ok by (auto simp: abortTxCache_def split: if_splits dest: on_txcache_arrays)
  next
    case (step_release cpu a b tx w w')
    then show ?thesis using ok by (auto simp: earlyRelease_def dest: tx_guard_arrays)
  qed
qed

lemma elem_in: "0 \<le> i \<Longrightarrow> i < int (length xs) \<Longrightarrow> elem (Some xs) i = Some (xs ! nat i)"
  by (simp add: elem_def)

lemma list_caches_prefix:
  "ppCaches m = Some cs \<Longrightarrow> \<forall>i \<in> set is. i < length cs \<Longrightarrow> list_caches m is = Some (map (\<lambda>i. attr_object (cs ! i)) is)"
  by (induction "is") (auto simp: elem_in)

lemma map_attr_nth: "map (\<lambda>i. f (xs ! i)) [0..<length xs] = map f xs"
  by (rule nth_equalityI) auto

lemma get_caches_lists:
  "caches_ok m \<Longrightarrow> get_caches m = Some (case ppCaches m of None \<Rightarrow> Sim_Val_Nil | Some cs \<Rightarrow> Sim_Val_List (map attr_object cs))"
  by (auto simp: get_caches_def caches_ok_def list_caches_prefix map_attr_nth split: option.splits)

lemma collect_returns:
  assumes ok: "caches_ok m" and n: "0 \<le> getCpuNum (cm_minfo m) cpu" "getCpuNum (cm_minfo m) cpu < nCaches m"
    and t: "timing_model m = None \<or> timing_ifc m \<noteq> None"
  shows "collect_cache_timing A cpu mt m w \<noteq> None"
proof -
  from ok n obtain cs "is" where c: "ppCaches m = Some cs" "ppCachesIfc m = Some is" "length is = length cs"
    "nCaches m = int (length cs)" "None \<notin> set cs" "None \<notin> set is"
    by (auto simp: caches_ok_def split: option.splits)
  let ?i = "nat (getCpuNum (cm_minfo m) cpu)"
  have i: "?i < length cs" using n c(4) by linarith
  then have "cs ! ?i \<noteq> None" "is ! ?i \<noteq> None" using c by (metis nth_mem)+
  then obtain p q where "cs ! ?i = Some p" "is ! ?i = Some q" by blast
  then show ?thesis using c n t i
    by (auto simp: collect_cache_timing_def elem_in Let_def split: option.splits prod.splits if_splits)
qed

section \<open>Reset is exact\<close>

text \<open>The devices of processor \<open>i\<close> that exist.\<close>

definition kinds :: "string set" where
  "kinds = {''icache'', ''dcache'', ''l2cache'', ''sb''}"

definition devices :: "(string \<Rightarrow> bool) \<Rightarrow> string \<Rightarrow> nat set \<Rightarrow> obj set" where
  "devices ex prefix is = {q. ex q \<and> (\<exists>k \<in> kinds. \<exists>i \<in> is. q = device_name prefix k i)}"

definition zeroed :: "('w \<Rightarrow> obj \<Rightarrow> string \<Rightarrow> attr_value) \<Rightarrow> string set \<Rightarrow> string set \<Rightarrow> obj set \<Rightarrow> 'w \<Rightarrow> 'w \<Rightarrow> bool" where
  "zeroed val S T P w w' \<longleftrightarrow>
     (\<forall>q. \<forall>b \<in> S. val w' q b = (if q \<in> P \<and> b \<in> T then Sim_Val_Integer 0 else val w q b))"

lemma zeroed_refl: "val w' = val w \<Longrightarrow> zeroed val S T {} w w'"
  by (simp add: zeroed_def)

lemma zeroed_trans: "zeroed val S T P w1 w2 \<Longrightarrow> zeroed val S T Q w2 w3 \<Longrightarrow> zeroed val S T (P \<union> Q) w1 w3"
  by (auto simp: zeroed_def)

lemma zeroed_val: "zeroed val S T P w1 w2 \<Longrightarrow> val w0 = val w1 \<Longrightarrow> val w3 = val w2 \<Longrightarrow> zeroed val S T P w0 w3"
  by (simp add: zeroed_def)

lemma reset_attrs_zeroed:
  assumes "plain_attributes A S val" "set as \<subseteq> S"
  shows "zeroed val S (set as) {p} w (reset_attrs A p as w)"
  using assms(2)
proof (induction "as" arbitrary: w)
  case (Cons a as)
  let ?w = "snd (SIM_set_attribute A p a (Sim_Val_Integer 0) w)"
  have "val ?w q b = (if q = p \<and> b = a then Sim_Val_Integer 0 else val w q b)" if "b \<in> S" for q b
    using assms(1) that by (simp add: plain_attributes_def)
  then show ?case using Cons.IH[of ?w] Cons.prems by (auto simp: zeroed_def)
qed (simp add: zeroed_def)

lemma reset_if_zeroed:
  assumes "plain_attributes A S val" "set as \<subseteq> S" "gvszCacheStats g = Some as"
  shows "\<exists>w'. reset_if A g po w = Some w' \<and> zeroed val S (set as) (set_option po) w w'"
  using reset_attrs_zeroed[OF assms(1,2)] assms(3)
  by (cases po) (auto simp: reset_if_def reset_one_cache_stats_def zeroed_def)

lemma get_object_val:
  assumes "plain_attributes A S val" "fixed_objects A ex"
  shows "\<exists>w'. SIM_get_object A n w = (if ex n then Some n else None, w') \<and> val w' = val w"
  using assms by (intro exI[of _ "snd (SIM_get_object A n w)"]) (simp add: prod_eq_iff plain_attributes_def fixed_objects_def)

lemma reset_cpu_zeroed:
  assumes pl: "plain_attributes A S val" and fx: "fixed_objects A ex" and sub: "set as \<subseteq> S"
    and g: "gvszCacheStats g = Some as" and fits: "\<forall>k \<in> kinds. length (device_name prefix k i) < OSATXM_BUFSIZE"
  shows "\<exists>w'. reset_cpu A g prefix i w = Some w' \<and> zeroed val S (set as) (devices ex prefix {i}) w w'"
proof -
  let ?po = "\<lambda>k. if ex (device_name prefix k i) then Some (device_name prefix k i) else None"
  have nm: "sprintf_name prefix k i = Some (device_name prefix k i)" if "k \<in> kinds" for k
    using fits that by (simp add: sprintf_name_def Let_def)
  obtain w1 where 1: "SIM_get_object A (device_name prefix ''icache'' i) w = (?po ''icache'', w1)" "val w1 = val w"
    using get_object_val[OF pl fx] by blast
  obtain w2 where 2: "SIM_get_object A (device_name prefix ''dcache'' i) w1 = (?po ''dcache'', w2)" "val w2 = val w1"
    using get_object_val[OF pl fx] by blast
  obtain w3 where 3: "SIM_get_object A (device_name prefix ''l2cache'' i) w2 = (?po ''l2cache'', w3)" "val w3 = val w2"
    using get_object_val[OF pl fx] by blast
  obtain w4 where 4: "SIM_get_object A (device_name prefix ''sb'' i) w3 = (?po ''sb'', w4)" "val w4 = val w3"
    using get_object_val[OF pl fx] by blast
  note r = reset_if_zeroed[OF pl sub g]
  obtain w5 where 5: "reset_if A g (?po ''icache'') w4 = Some w5" "zeroed val S (set as) (set_option (?po ''icache'')) w4 w5"
    using r by blast
  obtain w6 where 6: "reset_if A g (?po ''dcache'') w5 = Some w6" "zeroed val S (set as) (set_option (?po ''dcache'')) w5 w6"
    using r by blast
  obtain w7 where 7: "reset_if A g (?po ''l2cache'') w6 = Some w7" "zeroed val S (set as) (set_option (?po ''l2cache'')) w6 w7"
    using r by blast
  obtain w8 where 8: "reset_if A g (?po ''sb'') w7 = Some w8" "zeroed val S (set as) (set_option (?po ''sb'')) w7 w8"
    using r by blast
  let ?w9 = "if SIM_get_pending_exception A w8 = Some SimExc_General then snd (SIM_clear_exception A w8) else w8"
  have v9: "val ?w9 = val w8" using pl by (simp add: plain_attributes_def)
  have res: "reset_cpu A g prefix i w = Some ?w9"
    using nm 1 2 3 4 5 6 7 8 by (simp add: reset_cpu_def kinds_def)
  have "zeroed val S (set as) (((set_option (?po ''icache'') \<union> set_option (?po ''dcache'')) \<union> set_option (?po ''l2cache''))
          \<union> set_option (?po ''sb'')) w4 w8"
    by (rule zeroed_trans[OF zeroed_trans[OF zeroed_trans[OF 5(2) 6(2)] 7(2)] 8(2)])
  moreover have "((set_option (?po ''icache'') \<union> set_option (?po ''dcache'')) \<union> set_option (?po ''l2cache'')) \<union> set_option (?po ''sb'')
      = devices ex prefix {i}"
    by (auto simp: devices_def kinds_def split: if_splits)
  ultimately have "zeroed val S (set as) (devices ex prefix {i}) w4 w8" by simp
  then show ?thesis using res v9 1(2) 2(2) 3(2) 4(2) by (metis zeroed_val)
qed

lemma reset_cpus_zeroed:
  assumes pl: "plain_attributes A S val" and fx: "fixed_objects A ex" and sub: "set as \<subseteq> S"
    and g: "gvszCacheStats g = Some as" and fits: "\<forall>i \<in> set is. \<forall>k \<in> kinds. length (device_name prefix k i) < OSATXM_BUFSIZE"
  shows "\<exists>w'. reset_cpus A g prefix is w = Some w' \<and> zeroed val S (set as) (devices ex prefix (set is)) w w'"
  using fits
proof (induction "is" arbitrary: w)
  case Nil
  then show ?case by (simp add: zeroed_def devices_def)
next
  case (Cons i "is")
  obtain w1 where 1: "reset_cpu A g prefix i w = Some w1" "zeroed val S (set as) (devices ex prefix {i}) w w1"
    using reset_cpu_zeroed[OF pl fx sub g, of prefix i w] Cons.prems by auto
  obtain w2 where 2: "reset_cpus A g prefix is w1 = Some w2" "zeroed val S (set as) (devices ex prefix (set is)) w1 w2"
    using Cons.IH[of w1] Cons.prems by auto
  have "devices ex prefix (set (i # is)) = devices ex prefix {i} \<union> devices ex prefix (set is)"
    by (auto simp: devices_def)
  then show ?case using 1 2 zeroed_trans by (metis reset_cpus.simps(2) bind.bind_lunit)
qed


section \<open>The walk to the staller\<close>

text \<open>
  What \<open>find_staller\<close> should return from cache \<open>p\<close>, looking at \<open>n\<close> links at most: the first object on the chain of timing
  models whose name starts with \<^verbatim>\<open>staller\<close>, or null where the chain ends before one.
\<close>

fun walk_end :: "(obj \<Rightarrow> obj option) \<Rightarrow> nat \<Rightarrow> obj \<Rightarrow> obj option option" where
  "walk_end nxt 0 p = None"
| "walk_end nxt (Suc n) p =
     (case nxt p of
        None \<Rightarrow> Some None
      | Some q \<Rightarrow> if take 7 q = ''staller'' then Some (Some q) else walk_end nxt n q)"

definition timing_links :: "'w sim_api \<Rightarrow> (obj \<Rightarrow> obj option) \<Rightarrow> bool" where
  "timing_links A nxt \<longleftrightarrow> (\<forall>p w. fst (SIM_get_attribute A p ''timing_model'' w) = attr_object (nxt p))"

lemma u_object_attr [simp]: "u_object (attr_object po) = Some po"
  by (cases po) (simp_all add: u_object_def attr_object_def)

lemma follow_timing_link:
  assumes "timing_links A nxt"
  shows "\<exists>w'. follow A ''timing_model'' (Some p, w) = Some (nxt p, w')"
proof -
  obtain v w' where g: "SIM_get_attribute A p ''timing_model'' w = (v, w')" by fastforce
  have "fst (SIM_get_attribute A p ''timing_model'' w) = attr_object (nxt p)"
    using assms by (simp add: timing_links_def)
  then have "u_object v = Some (nxt p)" using g by (simp add: u_object_attr)
  then show ?thesis using g by (simp add: follow_def osa_sim_get_generic_attribute_def)
qed

lemma chase_from:
  assumes "timing_links A nxt"
  shows "\<exists>w'. chase_staller A (Some p, w) =
    (case nxt p of None \<Rightarrow> Some (None, w') | Some q \<Rightarrow> if take 7 q = ''staller'' then Some (Some q, w') else chase_staller A (Some q, w'))"
proof -
  obtain w' where "follow A ''timing_model'' (Some p, w) = Some (nxt p, w')"
    using follow_timing_link[OF assms] by blast
  then show ?thesis by (subst chase_staller.simps) (auto intro!: exI[of _ w'] split: option.splits)
qed

lemma walk_end_chase:
  assumes "timing_links A nxt" "walk_end nxt n p = Some r"
  shows "\<exists>w'. chase_staller A (Some p, w) = Some (r, w')"
  using assms(2)
proof (induction n arbitrary: p w)
  case (Suc n)
  obtain w1 where "chase_staller A (Some p, w) = (case nxt p of None \<Rightarrow> Some (None, w1)
      | Some q \<Rightarrow> if take 7 q = ''staller'' then Some (Some q, w1) else chase_staller A (Some q, w1))"
    using chase_from[OF assms(1)] by blast
  then show ?case using Suc by (auto split: option.splits if_splits)
qed simp

lemma chase_walk_end:
  assumes "timing_links A nxt" "chase_staller A (Some p, w) = Some rw"
  shows "\<exists>n. walk_end nxt n p = Some (fst rw)"
proof -
  let ?P = "\<lambda>A pw rw. \<forall>p w. pw = (Some p, w) \<longrightarrow> timing_links A nxt \<longrightarrow> (\<exists>n. walk_end nxt n p = Some (fst rw))"
  have "?P A (Some p, w) rw"
  proof (rule chase_staller.raw_induct[where P = ?P, OF _ assms(2)], intro allI impI)
    fix chase :: "'a sim_api \<Rightarrow> obj option \<times> 'a \<Rightarrow> (obj option \<times> 'a) option" and A pw rw p w
    assume IH: "\<And>A pw rw. chase A pw = Some rw \<Longrightarrow>
        \<forall>p w. pw = (Some p, w) \<longrightarrow> timing_links A nxt \<longrightarrow> (\<exists>n. walk_end nxt n p = Some (fst rw))"
      and body: "follow A ''timing_model'' pw \<bind> (\<lambda>pw. case fst pw of None \<Rightarrow> Some pw
          | Some q \<Rightarrow> if take 7 q = ''staller'' then Some pw else chase A pw) = Some rw"
      and pw: "pw = (Some p, w)" and tl: "timing_links A nxt"
    obtain w' where f: "follow A ''timing_model'' pw = Some (nxt p, w')"
      using follow_timing_link[OF tl] pw by blast
    consider "nxt p = None \<or> (\<exists>q. nxt p = Some q \<and> take 7 q = ''staller'')" | q where "nxt p = Some q" "take 7 q \<noteq> ''staller''"
      by (cases "nxt p") auto
    then show "\<exists>n. walk_end nxt n p = Some (fst rw)"
    proof cases
      case 1
      then show ?thesis using body f by (intro exI[of _ 1]) auto
    next
      case (2 q)
      then have "chase A (Some q, w') = Some rw" using body f by simp
      then obtain n where "walk_end nxt n q = Some (fst rw)" using IH tl by blast
      then show ?thesis using 2 by (intro exI[of _ "Suc n"]) simp
    qed
  qed
  then show ?thesis using assms by blast
qed

text \<open>
  C32.  The search for the staller returns exactly when the chain of timing models behind the first level data cache
  reaches a staller or ends: then it returns the first staller on it, or null.  On a cyclic chain without a staller it
  does not return.
\<close>

theorem find_staller_returns:
  assumes "timing_links A nxt" "find_l1_dcache A procNum m w = Some (Some d, w1)"
  shows "(\<exists>w'. find_staller A procNum m w = Some (r, w')) \<longleftrightarrow> (\<exists>n. walk_end nxt n d = Some r)"
  using walk_end_chase[OF assms(1), of _ d r w1] chase_walk_end[OF assms(1), of d w1] assms(2)
  by (fastforce simp: find_staller_def)


text \<open>A value without the interface is rejected, but the interface of the timing model in use is gone.\<close>

lemma rejected_timing_model:
  assumes "SIM_get_interface A p TIMING_MODEL_INTERFACE w = (None, w1)" "SIM_clear_exception A w1 = (Some e, w2)"
    and "timing_model m = Some tm"
  shows "\<exists>m'. set_timing_model A (Sim_Val_Object p) m w = Some (Sim_Set_Interface_Not_Found, m', w2) \<and>
           collect_cache_timing A cpu mt m' w2 = None"
  using assms by (auto simp: set_timing_model_def u_object_def collect_cache_timing_def Let_def split: bind_splits)

section \<open>Examples\<close>

text \<open>A simulator with a plain attribute store and one processor with its caches.\<close>

type_synonym demo = "(obj \<Rightarrow> string \<Rightarrow> attr_value) \<times> sim_exception option"

definition demo_objects :: "string list" where
  "demo_objects = [''split0'', ''id0'', ''sb0'', ''dcache0'', ''l2cache0'', ''staller0'']"

definition api_demo :: "demo sim_api" where
  "api_demo = \<lparr>
     SIM_get_object = (\<lambda>n w. if n \<in> set demo_objects then (Some n, w) else (None, fst w, Some SimExc_General)),
     SIM_get_attribute = (\<lambda>p a w. (fst w p a, w)),
     SIM_set_attribute = (\<lambda>p a v w. (Sim_Set_Ok, (fst w)(p := (fst w p)(a := v)), snd w)),
     SIM_get_interface = (\<lambda>p n w. if p \<in> set demo_objects then (Some p, w) else (None, fst w, Some SimExc_General)),
     SIM_get_pending_exception = snd,
     SIM_clear_exception = (\<lambda>w. (snd w, fst w, None)),
     union_integer = (\<lambda>v. 0),
     ifc_operate = (\<lambda>p mt w. (4, w)),
     ifc_commitTx = (\<lambda>p x w. (1, w)),
     ifc_abortTx = (\<lambda>p x w. (1, w)),
     ifc_earlyRelease = (\<lambda>p a b x w. w)\<rparr>"

text \<open>The same with a fixed hierarchy: splitter, branch, store buffer, data cache, second level cache, staller.\<close>

definition demo_link :: "obj \<Rightarrow> obj option" where
  "demo_link p = map_of [(''split0'', ''id0''), (''id0'', ''sb0''), (''sb0'', ''dcache0''), (''dcache0'', ''l2cache0''),
     (''l2cache0'', ''staller0'')] p"

definition api_linked :: "demo sim_api" where
  "api_linked = api_demo\<lparr>SIM_get_attribute := (\<lambda>p a w. (attr_object (demo_link p), w))\<rparr>"

definition cm_demo :: cachemod where
  "cm_demo = \<lparr>cm_type = SYNCCHAR, cm_use_txcache = True, cm_minfo = [7], timing_model = None, timing_ifc = None,
     ppCaches = None, ppCachesIfc = None, nCaches = 0, abort_commit_ifc = None\<rparr>"

definition cm_connected :: cachemod where
  "cm_connected = cm_demo\<lparr>ppCaches := Some [Some ''split0''], ppCachesIfc := Some [Some ''split0''], nCaches := 1\<rparr>"

definition mt_demo :: generic_transaction where
  "mt_demo = \<lparr>gt_logical_address = 0x1000, gt_physical_address = 0x1000, gt_size = 4, gt_may_stall = True, gt_ini_ptr = ''cpu0'',
     gt_type = Sim_Trans_Load\<rparr>"

lemma demo_connected:
  "set_caches api_linked (Sim_Val_List [Sim_Val_Object ''split0'']) cm_demo (f, None) = Some (Sim_Set_Ok, cm_connected, (f, None))"
  by (simp add: set_caches_def u_object_def api_linked_def api_demo_def demo_objects_def cm_demo_def cm_connected_def)

lemma demo_interfaces: "interface_reported api_linked"
  by (auto simp: interface_reported_def api_linked_def api_demo_def)


lemma demo_l1: "find_l1_dcache api_linked 0 cm_connected (f, None) = Some (Some ''dcache0'', (f, None))"
  by (simp add: find_l1_dcache_def find_storebuffer_def hierarchy_entry_def elem_def cm_connected_def cm_demo_def follow_def
      osa_sim_get_generic_attribute_def api_linked_def demo_link_def)

theorem find_staller_returns_witness:
  "\<exists>w'. find_staller api_linked 0 cm_connected (\<lambda>p a. Sim_Val_Nil, None) = Some (Some ''staller0'', w')"
proof -
  have l: "timing_links api_linked demo_link" by (simp add: timing_links_def api_linked_def)
  have "walk_end demo_link 2 ''dcache0'' = Some (Some ''staller0'')"
    by (simp add: numeral_2_eq_2 demo_link_def)
  then show ?thesis using find_staller_returns[OF l demo_l1] by blast
qed


end
