(* ===== verification/Profile.thy ===== *)
theory Profile
  imports SimApi
begin

text \<open>
  The instruction pointer profiler (\<^verbatim>\<open>common/profile.cc\<close>): sampling of the program counter and of the return addresses on
  the kernel stack, scheduling of the next sample, and the report.  The two profiles are hash maps, so the order of
  their entries is the iteration order.
\<close>

definition MAX_FRAMES :: int where [const_defs]: "MAX_FRAMES = 100"

text \<open>The module that serves the profiler's memory reads: the profiler's own function, or another module.\<close>

datatype mem_reader = Std_read_4bytes | Txm_read_4bytes obj

record ip_profiler =
  pf_log_prefix :: "string option"
  pf_log_number :: int
  pf_interval :: u32
  pf_jitter :: u32
  pf_scheduled :: bool
  pf_reader :: mem_reader
  pf_flat :: "(u32 \<times> u64) list"
  pf_stack :: "(u32 \<times> u64) list"
  pf_text_min :: u64
  pf_text_max :: u64

text \<open>\<open>lo\<close> and \<open>hi\<close> are the values of the symbols \<^verbatim>\<open>_text\<close> and \<^verbatim>\<open>_end\<close>; the two maps are empty when the module is created.\<close>

definition init_profiler :: "u64 \<Rightarrow> u64 \<Rightarrow> ip_profiler" where
  "init_profiler lo hi =
     \<lparr>pf_log_prefix = Some ''profiler'', pf_log_number = 0, pf_interval = 0, pf_jitter = 0, pf_scheduled = False,
      pf_reader = Std_read_4bytes, pf_flat = [], pf_stack = [], pf_text_min = lo, pf_text_max = hi\<rparr>"

text \<open>\<open>txm\<close> is the reader of the module \<^verbatim>\<open>osatxm\<close>.\<close>

definition memread :: "(obj \<Rightarrow> segment \<Rightarrow> logical_address \<Rightarrow> machine \<Rightarrow> u32 \<times> machine) \<Rightarrow> ip_profiler
    \<Rightarrow> segment \<Rightarrow> logical_address \<Rightarrow> machine \<Rightarrow> u64 \<times> machine" where
  "memread txm p seg addr m =
     (let (v, m1) = (case pf_reader p of
          Std_read_4bytes \<Rightarrow> osa_read_sim_4bytes seg addr m
        | Txm_read_4bytes q \<Rightarrow> txm q seg addr m)
      in (ucast v, m1))"

definition count_ip :: "u64 \<Rightarrow> (u32 \<times> u64) list \<Rightarrow> (u32 \<times> u64) list" where
  "count_ip ip prof =
     (case map_of prof (ucast ip) of
        Some n \<Rightarrow> AList.update (ucast ip) (n + 1) prof
      | None \<Rightarrow> AList.update (ucast ip) 1 prof)"

definition in_text :: "ip_profiler \<Rightarrow> u64 \<Rightarrow> bool" where
  "in_text p ip \<longleftrightarrow> pf_text_min p \<le> ip \<and> ip < pf_text_max p"

text \<open>The loop over the frames; both the loop header and its last statement advance \<open>n_frames\<close>.\<close>

function stack_walk :: "(obj \<Rightarrow> segment \<Rightarrow> logical_address \<Rightarrow> machine \<Rightarrow> u32 \<times> machine) \<Rightarrow> u64 \<Rightarrow> int \<Rightarrow> u64
    \<Rightarrow> ip_profiler \<Rightarrow> machine \<Rightarrow> ip_profiler \<times> machine" where
  "stack_walk txm esp n_frames ebp p m =
     (if n_frames < MAX_FRAMES then
        if esp AND NOT 8191 \<noteq> ebp AND NOT 8191 then (p, m)
        else
          (let (ra, m1) = memread txm p STACK_SEGMENT (ebp + 4) m
           in if ra < pf_text_min p \<or> ra \<ge> pf_text_max p then (p, m1)
              else
                (let p1 = p\<lparr>pf_stack := count_ip ra (pf_stack p)\<rparr>;
                     (prev_ebp, m2) = memread txm p1 STACK_SEGMENT ebp m1
                 in if prev_ebp \<le> ebp then (p1, m2)
                    else stack_walk txm esp (n_frames + 1 + 1) prev_ebp p1 m2))
      else (p, m))"
  by pat_completeness auto
termination by (relation "measure (\<lambda>(_, _, n, _). nat (MAX_FRAMES - n))") (auto simp: MAX_FRAMES_def)

declare stack_walk.simps [simp del]

text \<open>
  What \<^verbatim>\<open>profiler_schedule_tick\<close> asks of the simulator: a callback after a number of cycles, or the removal of the
  callbacks of a processor.
\<close>

datatype tick_request = Post_tick nat u32 | Clean_tick nat

definition profiler_schedule_tick :: "minfo \<Rightarrow> nat option \<Rightarrow> ip_profiler \<Rightarrow> ip_profiler \<times> tick_request list" where
  "profiler_schedule_tick cpus cpu p =
     (case cpu of
        Some c \<Rightarrow>
          if pf_interval p \<le> 0
          then (p\<lparr>pf_scheduled := (pf_interval p > 0)\<rparr>, map (\<lambda>c. if pf_interval p > 0 then Post_tick c (pf_interval p) else Clean_tick c) cpus)
          else (p, [Post_tick c (pf_interval p)])
      | None \<Rightarrow>
          (p\<lparr>pf_scheduled := (pf_interval p > 0)\<rparr>, map (\<lambda>c. if pf_interval p > 0 then Post_tick c (pf_interval p) else Clean_tick c) cpus))"

definition sample :: "(obj \<Rightarrow> segment \<Rightarrow> logical_address \<Rightarrow> machine \<Rightarrow> u32 \<times> machine) \<Rightarrow> ip_profiler \<Rightarrow> machine
    \<Rightarrow> ip_profiler \<times> machine" where
  "sample txm p m =
     (let eip = mc_regs m EIP
      in if in_text p eip
         then stack_walk txm (mc_regs m ESP) 0 (mc_regs m EBP)
                (p\<lparr>pf_flat := count_ip eip (pf_flat p), pf_stack := count_ip eip (pf_stack p)\<rparr>) m
         else (p, m))"

definition profiler_tick :: "(obj \<Rightarrow> segment \<Rightarrow> logical_address \<Rightarrow> machine \<Rightarrow> u32 \<times> machine) \<Rightarrow> minfo \<Rightarrow> nat
    \<Rightarrow> ip_profiler \<Rightarrow> machine \<Rightarrow> ip_profiler \<times> machine \<times> tick_request list" where
  "profiler_tick txm cpus cpu p m =
     (let (p1, m1) = sample txm p m;
          (p2, reqs) = profiler_schedule_tick cpus (Some cpu) p1
      in (p2, m1, reqs))"

text \<open>Counts are printed, and summed, as \<^verbatim>\<open>unsigned int\<close>.\<close>

definition profile_lines :: "(u32 \<times> u64) list \<Rightarrow> ostream" where
  "profile_lines prof = concat (map (\<lambda>(a, n). [Hex (ucast a), Str '' '', Dec (uint (ucast n :: u32)), Endl]) prof)"

definition profile_total :: "(u32 \<times> u64) list \<Rightarrow> u64" where
  "profile_total prof = foldl (\<lambda>t x. t + ucast (ucast (snd x) :: u32)) 0 prof"

definition profile_report :: "string \<Rightarrow> (u32 \<times> u64) list \<Rightarrow> ostream" where
  "profile_report title prof =
     [Str title, Endl] @ profile_lines prof @ [Str ''TOTAL: '', Dec (uint (profile_total prof)), Endl, Endl]"

definition log_name :: "string \<Rightarrow> int \<Rightarrow> string" where
  "log_name prefix n = prefix @ ''-'' @ [char_of ((97 + nat (n mod 256)) mod 256)] @ ''.log''"

text \<open>The report and the file it goes to, if there is one; \<open>to_stream\<close> if the caller gives a stream of its own.\<close>

definition dump_profile :: "bool \<Rightarrow> ip_profiler \<Rightarrow> (string option \<times> ostream) option" where
  "dump_profile to_stream p =
     (if pf_flat p = [] then None
      else if \<not> to_stream \<and> pf_log_prefix p = None then None
      else Some (if to_stream then None else Some (log_name (the (pf_log_prefix p)) (pf_log_number p)),
                 profile_report ''BEGIN FLAT PROFILE'' (pf_flat p) @ profile_report ''BEGIN CALL PROFILE'' (pf_stack p)))"

definition clear_profile :: "ip_profiler \<Rightarrow> ip_profiler" where
  "clear_profile p = p\<lparr>pf_flat := [], pf_stack := [], pf_log_number := pf_log_number p + 1\<rparr>"

section \<open>What is counted\<close>

text \<open>The number of samples in a profile, and the entries of the two maps staying distinct.\<close>

definition samples :: "(u32 \<times> u64) list \<Rightarrow> nat" where
  "samples prof = sum_list (map (unat \<circ> snd) prof)"

lemma samples_update:
  "distinct (map fst prof) \<Longrightarrow> samples (AList.update k v prof) + (case map_of prof k of None \<Rightarrow> 0 | Some n \<Rightarrow> unat n) = samples prof + unat v"
  by (induction prof) (auto simp: samples_def split: option.splits dest: map_of_SomeD)

lemma count_ip_samples:
  assumes "distinct (map fst prof)" "samples prof < 2 ^ 64 - 1"
  shows "samples (count_ip ip prof) = samples prof + 1" "distinct (map fst (count_ip ip prof))"
proof -
  have le: "unat n \<le> samples prof" if "map_of prof k = Some n" for k n
    using map_of_SomeD[OF that] member_le_sum_list[of "unat n" "map (unat \<circ> snd) prof"]
    by (force simp: samples_def)
  have "unat (n + 1) = unat n + 1" if "map_of prof k = Some n" for k n
    using le[OF that] assms(2) by (simp add: unat_add_lem[THEN iffD1])
  then show "samples (count_ip ip prof) = samples prof + 1"
    using samples_update[OF assms(1), of "ucast ip" 1] samples_update[OF assms(1), of "ucast ip" "the (map_of prof (ucast ip)) + 1"]
    by (cases "map_of prof (ucast ip)") (simp_all add: count_ip_def)
  show "distinct (map fst (count_ip ip prof))"
    using assms(1) by (simp add: count_ip_def distinct_update split: option.splits)
qed

lemma halves: "0 \<le> n \<Longrightarrow> n < 100 \<Longrightarrow> nat ((101 - n) div 2) = Suc (nat ((99 - n) div 2))" for n :: int
proof -
  assume "0 \<le> n" "n < 100"
  then have "(101 - n) div 2 = (99 - n) div 2 + 1" "0 \<le> (99 - n) div 2" by presburger+
  then show ?thesis by linarith
qed

text \<open>The walk adds to the call profile only, and at most one sample for every two of the frames allowed.\<close>

lemma stack_walk_samples:
  assumes "distinct (map fst (pf_stack p))" "0 \<le> n" "samples (pf_stack p) + nat ((MAX_FRAMES + 1 - n) div 2) < 2 ^ 64"
    and "stack_walk txm esp n ebp p m = (p', m')"
  shows "\<exists>st. p' = p\<lparr>pf_stack := st\<rparr> \<and> distinct (map fst st) \<and> samples (pf_stack p) \<le> samples st \<and>
           samples st \<le> samples (pf_stack p) + nat ((MAX_FRAMES + 1 - n) div 2)"
  using assms
proof (induction txm esp n ebp p m rule: stack_walk.induct)
  case (1 txm esp n ebp p m)
  have stay: ?case if "p' = p" using that 1(2,3) by (intro exI[of _ "pf_stack p"]) simp
  obtain ra m1 where r: "memread txm p STACK_SEGMENT (ebp + 4) m = (ra, m1)" by fastforce
  let ?p1 = "p\<lparr>pf_stack := count_ip ra (pf_stack p)\<rparr>"
  obtain prev m2 where v: "memread txm ?p1 STACK_SEGMENT ebp m1 = (prev, m2)" by fastforce
  show ?case
  proof (cases "n < MAX_FRAMES \<and> esp AND NOT 8191 = ebp AND NOT 8191 \<and> \<not> (ra < pf_text_min p \<or> ra \<ge> pf_text_max p)")
    case False
    then have "p' = p" using 1(5) r by (subst (asm) stack_walk.simps) (auto split: if_splits)
    then show ?thesis by (rule stay)
  next
    case True
    have half: "nat ((MAX_FRAMES + 1 - n) div 2) = 1 + nat ((MAX_FRAMES + 1 - (n + 1 + 1)) div 2)"
      using halves[of n] True 1(3) by (simp add: MAX_FRAMES_def)
    have c: "samples (pf_stack ?p1) = samples (pf_stack p) + 1" "distinct (map fst (pf_stack ?p1))"
      using count_ip_samples[of "pf_stack p" ra] 1(2,4) half by simp_all
    show ?thesis
    proof (cases "prev \<le> ebp")
      case le: True
      then have "p' = ?p1" using 1(5) r v True by (subst (asm) stack_walk.simps) simp
      then show ?thesis using c half by (intro exI[of _ "pf_stack ?p1"]) simp
    next
      case gt: False
      then have rest: "stack_walk txm esp (n + 1 + 1) prev ?p1 m2 = (p', m')"
        using 1(5) r v True by (subst (asm) stack_walk.simps) simp
      have "\<exists>st. p' = ?p1\<lparr>pf_stack := st\<rparr> \<and> distinct (map fst st) \<and> samples (pf_stack ?p1) \<le> samples st \<and>
          samples st \<le> samples (pf_stack ?p1) + nat ((MAX_FRAMES + 1 - (n + 1 + 1)) div 2)"
        using 1(1)[OF _ _ r[symmetric] refl _ refl v[symmetric] refl gt] True c 1(3,4) half rest by simp
      then show ?thesis using c half by fastforce
    qed
  qed
qed

text \<open>
  C38.  A sample outside the kernel text leaves both profiles alone.  A sample inside it adds one sample to the flat
  profile and between 1 and 51 samples to the call profile, one for the program counter and one for each return
  address found: the limit of 100 frames is reached after 50, because the counter is advanced twice per frame.
\<close>

theorem sample_counts:
  assumes "distinct (map fst (pf_flat p))" "distinct (map fst (pf_stack p))"
    and "samples (pf_flat p) < 2 ^ 64 - 1" "samples (pf_stack p) < 2 ^ 64 - 51" "sample txm p m = (p', m')"
  shows "if in_text p (mc_regs m EIP)
         then samples (pf_flat p') = samples (pf_flat p) + 1 \<and>
              samples (pf_stack p) + 1 \<le> samples (pf_stack p') \<and> samples (pf_stack p') \<le> samples (pf_stack p) + 51
         else p' = p \<and> m' = m"
proof (cases "in_text p (mc_regs m EIP)")
  case True
  let ?p = "p\<lparr>pf_flat := count_ip (mc_regs m EIP) (pf_flat p), pf_stack := count_ip (mc_regs m EIP) (pf_stack p)\<rparr>"
  have f: "samples (pf_flat ?p) = samples (pf_flat p) + 1"
    using count_ip_samples(1)[OF assms(1,3)] by simp
  have "samples (pf_stack p) < 2 ^ 64 - 1" using assms(4) by simp
  then have c: "samples (pf_stack ?p) = samples (pf_stack p) + 1" "distinct (map fst (pf_stack ?p))"
    using count_ip_samples[OF assms(2)] by simp_all
  have w: "stack_walk txm (mc_regs m ESP) 0 (mc_regs m EBP) ?p m = (p', m')"
    using assms(5) True by (simp add: sample_def Let_def)
  have "samples (pf_stack ?p) + nat ((MAX_FRAMES + 1 - 0) div 2) < 2 ^ 64"
    using c(1) assms(4) by (simp add: MAX_FRAMES_def)
  from stack_walk_samples[OF c(2) _ this w] obtain st where
    "p' = ?p\<lparr>pf_stack := st\<rparr>" "samples (pf_stack ?p) \<le> samples st"
    "samples st \<le> samples (pf_stack ?p) + nat ((MAX_FRAMES + 1 - 0) div 2)" by auto
  then show ?thesis using f c(1) True by (simp add: MAX_FRAMES_def)
qed (use assms(5) in \<open>simp add: sample_def Let_def\<close>)

theorem sample_counts_witness:
  "samples (pf_flat (fst (sample (\<lambda>q seg a m. (0, m)) (init_profiler 0x1000 0x2000)
     (mc_demo\<lparr>mc_regs := (\<lambda>r. 0x1010)\<rparr>)))) = 1"
proof -
  let ?p = "init_profiler 0x1000 0x2000" and ?m = "mc_demo\<lparr>mc_regs := (\<lambda>r. 0x1010)\<rparr>"
  obtain p' m' where r: "sample (\<lambda>q seg a m. (0, m)) ?p ?m = (p', m')" by fastforce
  have "in_text ?p (mc_regs ?m EIP)" by (simp add: in_text_def init_profiler_def)
  then show ?thesis
    using sample_counts[OF _ _ _ _ r] r by (simp add: init_profiler_def samples_def)
qed

end
