(* ===== verification/CacheTrace.thy ===== *)
theory CacheTrace
  imports MemAccess
begin

text \<open>
  The text form of cache events (\<^verbatim>\<open>common/osacachetrace.cc\<close>, \<^verbatim>\<open>common/osacachetrace.h\<close>, \<^verbatim>\<open>txcache/types.h\<close>).  An enumeration
  is the integer it is stored as, because the code checks for values outside it.
\<close>

definition txcstates :: "string list" where
  "txcstates = [''S'', ''E'', ''M'', ''TI'', ''TS'', ''TE'', ''TMI'', ''TM'', ''I'']"

definition statestrs :: "string list" where
  "statestrs = [''I'', ''S'', ''E'', ''M'']"

definition missclass_strings :: "string list" where
  "missclass_strings = [''V'', ''COH'', ''ASC'', ''NTX'', ''ASYM'', ''--'']"

definition hmstatus_strings :: "string list" where
  "hmstatus_strings = [''H'', ''M'', ''NA'']"

definition cache_event_strings :: "string list" where
  "cache_event_strings = [''PREF'', ''CTRL'', ''UNC'', ''R'', ''W'', ''REPL'', ''FILL'', ''INVL'', ''UPGR'',
     ''ABORT_TX'', TAB @ ''ABT_CL'', ''COMMIT_TX'', TAB @ ''CMT_CL'', ''RINVL'']"

definition gwtf :: string where "gwtf = ''??''"

text \<open>The states of a transactional cache line, with their codes.\<close>

datatype state_t = STATE_TM | STATE_TMI | STATE_TE | STATE_TS | STATE_TI | STATE_M | STATE_E | STATE_S | STATE_I

primrec state_code :: "state_t \<Rightarrow> int" where
  "state_code STATE_TM = 7"
| "state_code STATE_TMI = 6"
| "state_code STATE_TE = 5"
| "state_code STATE_TS = 4"
| "state_code STATE_TI = 3"
| "state_code STATE_M = 2"
| "state_code STATE_E = 1"
| "state_code STATE_S = 0"
| "state_code STATE_I = - 1"

definition TXVALID_S :: "state_t \<Rightarrow> bool" where
  "TXVALID_S s \<longleftrightarrow> s \<in> {STATE_TM, STATE_TMI, STATE_TE, STATE_TS}"

definition NOTXVALID_S :: "state_t \<Rightarrow> bool" where
  "NOTXVALID_S s \<longleftrightarrow> s \<in> {STATE_M, STATE_E, STATE_S}"

definition INVALID_S :: "state_t \<Rightarrow> bool" where
  "INVALID_S s \<longleftrightarrow> s \<in> {STATE_I, STATE_TI}"

datatype cache_type_t = ct_gcache | ct_txcache

definition ot_remote_invl :: int where "ot_remote_invl = 13"
definition mc_none :: int where "mc_none = 5"

record cache_event =
  ce_otyp :: int
  ce_status :: int
  ce_mc :: int
  ce_latency :: cycles
  ce_state :: int
  ce_addr :: u64
  ce_tag :: u64
  ce_evaddr :: u64
  ce_ctyp :: cache_type_t
  ce_comm_next :: int
  ce_write_next :: int
  ce_copy_next :: int
  ce_xID :: int

text \<open>A state outside the table is printed through a null pointer.\<close>

definition gcstate_string :: "int \<Rightarrow> string option" where
  "gcstate_string s = (if s = 0 \<or> s = 1 \<or> s = 2 \<or> s = 3 then Some (statestrs ! nat s) else None)"

definition txcstate_string :: "int \<Rightarrow> string" where
  "txcstate_string s = (if 0 \<le> s \<and> s \<le> 7 then txcstates ! nat s else txcstates ! 8)"

definition event_str :: "cache_event option \<Rightarrow> string" where
  "event_str ev = (case ev of
       None \<Rightarrow> gwtf
     | Some e \<Rightarrow> if ce_otyp e > ot_remote_invl \<or> ce_otyp e < 0 then gwtf else cache_event_strings ! nat (ce_otyp e))"

definition event_status :: "cache_event option \<Rightarrow> string" where
  "event_status ev = (case ev of
       None \<Rightarrow> gwtf
     | Some e \<Rightarrow> if ce_status e > 2 \<or> ce_status e < 0 then gwtf else hmstatus_strings ! nat (ce_status e))"

definition event_line_state :: "cache_event option \<Rightarrow> string option" where
  "event_line_state ev = (case ev of
       None \<Rightarrow> Some gwtf
     | Some e \<Rightarrow> if ce_ctyp e = ct_gcache then gcstate_string (ce_state e) else Some (txcstate_string (ce_state e)))"

definition event_miss_classification :: "cache_event option \<Rightarrow> string" where
  "event_miss_classification ev = (case ev of
       None \<Rightarrow> gwtf
     | Some e \<Rightarrow> if ce_mc e < 0 \<or> ce_mc e > mc_none then gwtf else missclass_strings ! nat (ce_mc e))"

text \<open>A bad state stops the program through a null pointer before it stops the simulation.\<close>

definition check_state :: "cache_event \<Rightarrow> unit option" where
  "check_state e =
     (if ce_ctyp e = ct_gcache
      then (if ce_state e < 0 \<or> ce_state e > 3 then None else Some ())
      else (if ce_state e < - 1 \<or> ce_state e > 7 then None else Some ()))"

text \<open>The conversions \<^verbatim>\<open>0x%.8llX\<close> and \<^verbatim>\<open>%d\<close>.\<close>

definition upper :: "char \<Rightarrow> char" where
  "upper c = (if c \<in> set ''abcdef'' then char_of (of_char c - 32 :: nat) else c)"

definition fmt_8llX :: "u64 \<Rightarrow> string" where
  "fmt_8llX v = (let h = map upper (digits 16 (unat v)) in ''0x'' @ replicate (8 - length h) CHR ''0'' @ h)"

definition fmt_d :: "int \<Rightarrow> string" where
  "fmt_d i = (if i < 0 then ''-'' @ digits 10 (nat (- i)) else digits 10 (nat i))"

definition event_comm :: "cache_event \<Rightarrow> string" where
  "event_comm e =
     (if ce_comm_next e \<noteq> 0
      then (if ce_write_next e \<noteq> 0 then (if ce_copy_next e \<noteq> 0 then ''CWNCB'' else ''CWN'') else ''C'')
      else '''')"

definition dump_event :: "cache_event \<Rightarrow> string option" where
  "dump_event e = map_option (\<lambda>st.
     event_str (Some e) @ (if ce_xID e \<noteq> 0 then ''<'' @ fmt_d (ce_xID e) @ ''>'' else '''') @ '':'' @
     fmt_8llX (ce_addr e) @ ''['' @ fmt_8llX (ce_tag e) @ '']'' @ TAB @ event_status (Some e) @ ''('' @ st @
     (if ce_evaddr e \<noteq> 0 then ''|*'' @ fmt_8llX (ce_evaddr e) else '''') @ '':'' @
     event_miss_classification (Some e) @ '')'' @ TAB @ event_comm e @ TAB @ digits 10 (unat (ce_latency e)))
     (event_line_state (Some e))"

text \<open>The strings of the line states are those of the enumeration, and different states print differently.\<close>

lemma txcstate_string_code:
  "txcstate_string (state_code s) = (case s of STATE_TM \<Rightarrow> ''TM'' | STATE_TMI \<Rightarrow> ''TMI'' | STATE_TE \<Rightarrow> ''TE'' | STATE_TS \<Rightarrow> ''TS''
     | STATE_TI \<Rightarrow> ''TI'' | STATE_M \<Rightarrow> ''M'' | STATE_E \<Rightarrow> ''E'' | STATE_S \<Rightarrow> ''S'' | STATE_I \<Rightarrow> ''I'')"
  by (cases s) (simp_all add: txcstate_string_def txcstates_def)

lemma txcstate_string_inj: "txcstate_string (state_code s) = txcstate_string (state_code t) \<Longrightarrow> s = t"
  unfolding txcstate_string_code by (cases s; cases t) simp_all

lemma state_partition:
  "TXVALID_S s \<and> \<not> NOTXVALID_S s \<and> \<not> INVALID_S s \<or> \<not> TXVALID_S s \<and> NOTXVALID_S s \<and> \<not> INVALID_S s \<or>
   \<not> TXVALID_S s \<and> \<not> NOTXVALID_S s \<and> INVALID_S s"
  by (cases s) (simp_all add: TXVALID_S_def NOTXVALID_S_def INVALID_S_def)

lemma dump_event_returns: "check_state e \<noteq> None \<Longrightarrow> dump_event e \<noteq> None"
  by (auto simp: check_state_def dump_event_def event_line_state_def gcstate_string_def split: if_splits)

end
