(* ===== verification/Common.thy ===== *)
theory Common
  imports OsaCache Profile SyncChar_Events
begin

text \<open>
  The module that dispatches the magic instructions of the guest (\<^verbatim>\<open>common/common.cc\<close>, \<^verbatim>\<open>common/common_simics.cc\<close>,
  \<^verbatim>\<open>common/osacommon.cc\<close>, codes from \<^verbatim>\<open>common/osamagic.h\<close>): the list of modules, the attributes, the loops that call the other
  modules through their interfaces, the watchpoints, and the random shutdown.

  A module is named by its simulator object; the interfaces through which it is called are the argument \<open>call\<close>, a function
  of the whole system.  \<open>None\<close> is the use of an invalid pointer, of an uninitialised field or of a closed file, and a loop
  that does not end.
\<close>

section \<open>Modules and system\<close>

record common_data =
  cd_ide_count :: "int option"
  cd_ide :: "obj option list option"
  cd_grub_option :: int
  cd_preload :: int
  cd_fast_caches :: int
  cd_break_on_sched :: bool
  cd_context :: "obj option"
  cd_prof :: ip_profiler
  cd_idle_cycles :: "cycles option"
  cd_benchmarks :: "string list"
  cd_kill_imminent :: bool
  cd_kill_safe_level :: int
  cd_kill_begin_time :: "cycles option"

text \<open>
  A module: its own fields and the parts of it that the other components use.  \<open>md_stat\<close> is what was written to
  \<^verbatim>\<open>pStatStream\<close>, \<open>None\<close> if that is null.
\<close>

record module =
  md_type :: mod_type
  md_system :: "obj option"
  md_next :: "obj option"
  md_condor :: bool
  md_tx_trace :: int
  md_stat :: "ostream option"
  md_cpu_switch_time :: int
  md_disk_delay :: ldouble
  md_procCycles :: "cycles list option"
  md_om :: osamod
  md_cache :: cachemod
  md_common :: "common_data option"
  md_syncchar :: "syncchar option"

record watchpoint =
  wp_addr :: int
  wp_len :: int
  wp_pid :: u32
  wp_bp :: int

text \<open>Requests to the simulator that return nothing.\<close>

datatype sim_call =
    Break string
  | Quit int
  | Idle_callback obj cycles
  | Post_kill nat int obj
  | Tick tick_request obj
  | Delete_breakpoint int
  | Hap_callback string obj

text \<open>\<open>sy_log\<close> is the content of the log file, \<open>None\<close> if it cannot be opened; the console is \<open>mc_out\<close> of the machine.\<close>

record 'w system =
  sy_mods :: "(obj \<times> module) list"
  sy_head :: "obj option"
  sy_machine :: machine
  sy_sim :: 'w
  sy_bps :: "(int \<times> watchpoint) list"
  sy_suspend :: "int list"
  sy_trace :: int
  sy_log :: "ostream option"
  sy_calls :: "sim_call list"

text \<open>
  What the handlers use beyond the configuration interface: random numbers, breakpoints, the last error message, the
  content of uninitialised buffers, and the state of the processor that the tracker reads besides registers and memory.
\<close>

record 'w platform = "'w sim_api" +
  pl_rand :: "'w \<Rightarrow> u64 \<times> 'w"
  pl_lrand48 :: "'w \<Rightarrow> int \<times> 'w"
  SIM_breakpoint :: "obj option \<Rightarrow> u64 \<Rightarrow> u64 \<Rightarrow> 'w \<Rightarrow> int \<times> 'w"
  SIM_last_error :: "'w \<Rightarrow> string"
  pl_buffer :: string
  pl_env :: env

definition md_at :: "'w system \<Rightarrow> obj \<Rightarrow> module option" where
  "md_at s p = map_of (sy_mods s) p"

definition set_mod :: "obj \<Rightarrow> module \<Rightarrow> 'w system \<Rightarrow> 'w system" where
  "set_mod p m s = s\<lparr>sy_mods := AList.update p m (sy_mods s)\<rparr>"

definition con :: "ostream \<Rightarrow> 'w system \<Rightarrow> 'w system" where
  "con out s = s\<lparr>sy_machine := (sy_machine s)\<lparr>mc_out := mc_out (sy_machine s) @ out\<rparr>\<rparr>"

definition sim_call :: "sim_call \<Rightarrow> 'w system \<Rightarrow> 'w system" where
  "sim_call c s = s\<lparr>sy_calls := sy_calls s @ [c]\<rparr>"

definition put_stat :: "obj \<Rightarrow> ostream \<Rightarrow> 'w system \<Rightarrow> 'w system option" where
  "put_stat p out s = do {
     m \<leftarrow> md_at s p;
     xs \<leftarrow> md_stat m;
     Some (set_mod p (m\<lparr>md_stat := Some (xs @ out)\<rparr>) s)
   }"

definition put_or_skip :: "ostream \<Rightarrow> obj \<Rightarrow> 'w system \<Rightarrow> 'w system option" where
  "put_or_skip out p s = (if out = [] then Some s else put_stat p out s)"

definition common_of :: "'w system \<Rightarrow> obj \<Rightarrow> common_data option" where
  "common_of s p = Option.bind (md_at s p) md_common"

definition set_common :: "obj \<Rightarrow> common_data \<Rightarrow> 'w system \<Rightarrow> 'w system option" where
  "set_common p c s = map_option (\<lambda>m. set_mod p (m\<lparr>md_common := Some c\<rparr>) s) (md_at s p)"

section \<open>The list of modules\<close>

definition OSA_mod_list :: "'w system \<Rightarrow> obj option" where
  "OSA_mod_list s = sy_head s"

definition OSA_add_mod :: "obj \<Rightarrow> 'w system \<Rightarrow> 'w system option" where
  "OSA_add_mod p s = map_option (\<lambda>m. (set_mod p (m\<lparr>md_next := sy_head s\<rparr>) s)\<lparr>sy_head := Some p\<rparr>) (md_at s p)"

text \<open>
  The loop \<^verbatim>\<open>for(cur_mod = OSA_mod_list(); cur_mod != NULL; cur_mod = cur_mod->next_mod)\<close> with body \<open>f\<close>.  It does not end when the
  links form a cycle.
\<close>

partial_function (option) mod_loop ::
  "(obj \<Rightarrow> 'w system \<Rightarrow> 'w system option) \<Rightarrow> obj option \<Rightarrow> 'w system \<Rightarrow> 'w system option" where
  "mod_loop f cur s =
     (case cur of
        None \<Rightarrow> Some s
      | Some p \<Rightarrow> do {
          s1 \<leftarrow> f p s;
          m \<leftarrow> md_at s1 p;
          mod_loop f (md_next m) s1
        })"

definition for_modules :: "(obj \<Rightarrow> 'w system \<Rightarrow> 'w system option) \<Rightarrow> 'w system \<Rightarrow> 'w system option" where
  "for_modules f s = mod_loop f (OSA_mod_list s) s"

definition sameMachine :: "module \<Rightarrow> module \<Rightarrow> bool" where
  "sameMachine a b \<longleftrightarrow> md_system a = md_system b"

definition same_machine :: "'w system \<Rightarrow> obj \<Rightarrow> obj \<Rightarrow> bool option" where
  "same_machine s p q = do { a \<leftarrow> md_at s p; b \<leftarrow> md_at s q; Some (sameMachine a b) }"

section \<open>Functions shared by all modules\<close>

definition OSA_condor :: "module \<Rightarrow> bool" where
  "OSA_condor m = md_condor m"

text \<open>
  The environment the tracker sees on the current processor.  Its callbacks are registered for the processors of its own
  machine, so the number of the processor is not negative.
\<close>

definition env_of :: "'w platform \<Rightarrow> machine \<Rightarrow> module \<Rightarrow> spid_t \<Rightarrow> env" where
  "env_of A mc m spid =
     (pl_env A)\<lparr>ev_cpu := nat (getCpuNum (om_minfo (md_om m)) (mc_cpu mc)), ev_processor := int (mc_cpu mc), ev_now := mc_cycles mc (mc_cpu mc),
        ev_spid := spid, ev_reg := (\<lambda>r. ucast (osa_read_register r mc)),
        ev_mem := (\<lambda>seg a. fst (osa_read_sim_4bytes seg a mc))\<rparr>"

definition stack_trace :: "'w platform \<Rightarrow> obj \<Rightarrow> 'w system \<Rightarrow> 'w system option" where
  "stack_trace A p s = do {
     m \<leftarrow> md_at s p;
     put_stat p (OSA_stack_trace (env_of A (sy_machine s) m 0)) s
   }"

definition OSA_break_simulation :: "'w platform \<Rightarrow> string \<Rightarrow> obj \<Rightarrow> 'w system \<Rightarrow> 'w system option" where
  "OSA_break_simulation A msg p s = do {
     m \<leftarrow> md_at s p;
     if \<not> md_condor m then stack_trace A p (sim_call (Break msg) s)
     else do {
       s1 \<leftarrow> (if md_stat m \<noteq> None
              then do {
                s1 \<leftarrow> put_stat p [Str ''BREAKPOINT ENCOUNTERED, TERMINATING CONDOR RUN '', Endl, Str ''BP MESSAGE: '', Str msg, Endl] s;
                stack_trace A p s1
              }
              else Some s);
       Some (sim_call (Quit 0) s1)
     }
   }"

definition trace_enabled :: "'w system \<Rightarrow> bool" where
  "trace_enabled s \<longleftrightarrow> sy_trace s \<noteq> 0"

definition set_tx_trace :: "'w sim_api \<Rightarrow> obj \<Rightarrow> attr_value \<Rightarrow> 'w system \<Rightarrow> (set_error \<times> 'w system) option" where
  "set_tx_trace A p v s = do {
     m \<leftarrow> md_at s p;
     let t = to_int (u_integer A v);
     Some (Sim_Set_Ok, (set_mod p (m\<lparr>md_tx_trace := t\<rparr>) s)\<lparr>sy_trace := t\<rparr>)
   }"

definition get_tx_trace :: "module \<Rightarrow> attr_value" where
  "get_tx_trace m = Sim_Val_Integer (md_tx_trace m)"

text \<open>\<open>good\<close> tells whether the new log file can be written, \<open>ctime\<close> is the time as text; a failed stream stays in place.\<close>

definition set_log :: "bool \<Rightarrow> string \<Rightarrow> obj \<Rightarrow> 'w system \<Rightarrow> (set_error \<times> 'w system) option" where
  "set_log good ctime p s = do {
     m \<leftarrow> md_at s p;
     Some (if good then (Sim_Set_Ok, set_mod p (m\<lparr>md_stat := Some [Str ''Started simulation at '', Str ctime]\<rparr>) s)
           else (Sim_Set_Illegal_Value, set_mod p (m\<lparr>md_stat := Some []\<rparr>) s))
   }"

fun list_integers :: "'w sim_api \<Rightarrow> attr_value list \<Rightarrow> cycles list" where
  "list_integers A [] = []"
| "list_integers A (v # vs) = of_int (u_integer A v) # list_integers A vs"

definition set_proc_cycles :: "'w sim_api \<Rightarrow> attr_value \<Rightarrow> module \<Rightarrow> (set_error \<times> module) option" where
  "set_proc_cycles A v m =
     (case v of
        Sim_Val_List vs \<Rightarrow> Some (Sim_Set_Ok, m\<lparr>md_procCycles := Some (list_integers A vs)\<rparr>)
      | _ \<Rightarrow> None)"

fun first_cycles :: "cycles list \<Rightarrow> nat \<Rightarrow> attr_value list option" where
  "first_cycles cs 0 = Some []"
| "first_cycles [] (Suc n) = None"
| "first_cycles (c # cs) (Suc n) = map_option (\<lambda>vs. Sim_Val_Integer (sint c) # vs) (first_cycles cs n)"

definition get_proc_cycles :: "module \<Rightarrow> attr_value option" where
  "get_proc_cycles m =
     (case md_procCycles m of
        None \<Rightarrow> Some (Sim_Val_List [])
      | Some cs \<Rightarrow> map_option Sim_Val_List (first_cycles cs (nat (getNumCpus (om_minfo (md_om m))))))"

definition set_cpu_switch_time :: "'w sim_api \<Rightarrow> attr_value \<Rightarrow> module \<Rightarrow> set_error \<times> module" where
  "set_cpu_switch_time A v m = (Sim_Set_Ok, m\<lparr>md_cpu_switch_time := to_int (u_integer A v)\<rparr>)"

definition get_cpu_switch_time :: "module \<Rightarrow> attr_value" where
  "get_cpu_switch_time m = Sim_Val_Integer (md_cpu_switch_time m)"

definition set_disk_delay :: "attr_value \<Rightarrow> module \<Rightarrow> (set_error \<times> module) option" where
  "set_disk_delay v m =
     (case v of Sim_Val_Floating x \<Rightarrow> Some (Sim_Set_Ok, m\<lparr>md_disk_delay := x\<rparr>) | _ \<Rightarrow> None)"

definition get_disk_delay :: "module \<Rightarrow> attr_value" where
  "get_disk_delay m = Sim_Val_Floating (md_disk_delay m)"

section \<open>Attributes of the common module\<close>

definition cache_count :: "module \<Rightarrow> int" where
  "cache_count m = getNumCpus (om_minfo (md_om m))"

definition set_idle_cycles :: "'w sim_api \<Rightarrow> attr_value \<Rightarrow> common_data \<Rightarrow> set_error \<times> common_data" where
  "set_idle_cycles A v c = (Sim_Set_Ok, c\<lparr>cd_idle_cycles := Some (of_int (u_integer A v))\<rparr>)"

definition get_idle_cycles :: "common_data \<Rightarrow> attr_value option" where
  "get_idle_cycles c = map_option (\<lambda>n. Sim_Val_Integer (sint n)) (cd_idle_cycles c)"

fun list_strings :: "attr_value list \<Rightarrow> string list option" where
  "list_strings [] = Some []"
| "list_strings (Sim_Val_String x # vs) = map_option ((#) x) (list_strings vs)"
| "list_strings _ = None"

text \<open>The old list is dropped before the kind of the value is tested.\<close>

definition set_benchmarks :: "attr_value \<Rightarrow> common_data \<Rightarrow> (set_error \<times> common_data) option" where
  "set_benchmarks v c =
     (case v of
        Sim_Val_List vs \<Rightarrow> map_option (\<lambda>bs. (Sim_Set_Ok, c\<lparr>cd_benchmarks := bs\<rparr>)) (list_strings vs)
      | _ \<Rightarrow> Some (Sim_Set_Need_List, c\<lparr>cd_benchmarks := []\<rparr>))"

definition get_benchmarks :: "common_data \<Rightarrow> attr_value" where
  "get_benchmarks c = Sim_Val_List (map Sim_Val_String (cd_benchmarks c))"

definition network_benchmarks :: "string list" where
  "network_benchmarks = [''specweb_cli'', ''specweb_cli_primary'', ''server'', ''apt'', ''scp'', ''scp_nplus1'', ''nc'', ''nc_2n'',
     ''nc_udp'', ''nc_udp_2n'', ''nc_server'', ''nc_udp_server'']"

fun osa_network_query :: "string list \<Rightarrow> u32" where
  "osa_network_query [] = 0"
| "osa_network_query (b # bs) = (if b \<in> set network_benchmarks then 1 else osa_network_query bs)"

fun list_objects :: "attr_value list \<Rightarrow> obj option list option" where
  "list_objects [] = Some []"
| "list_objects (v # vs) = do { p \<leftarrow> u_object v; ps \<leftarrow> list_objects vs; Some (p # ps) }"

definition set_ide :: "attr_value \<Rightarrow> common_data \<Rightarrow> (set_error \<times> common_data) option" where
  "set_ide v c =
     (case v of
        Sim_Val_List vs \<Rightarrow>
          map_option (\<lambda>ps. (Sim_Set_Ok, c\<lparr>cd_ide_count := Some (int (length vs)), cd_ide := Some ps\<rparr>)) (list_objects vs)
      | _ \<Rightarrow> None)"

definition get_ide :: "common_data \<Rightarrow> attr_value option" where
  "get_ide c = do {
     n \<leftarrow> cd_ide_count c;
     ps \<leftarrow> cd_ide c;
     Some (Sim_Val_List (map attr_object (take (nat n) ps)))
   }"

definition set_preload :: "'w sim_api \<Rightarrow> attr_value \<Rightarrow> common_data \<Rightarrow> set_error \<times> common_data" where
  "set_preload A v c = (Sim_Set_Ok, c\<lparr>cd_preload := to_int (u_integer A v)\<rparr>)"

definition get_preload :: "common_data \<Rightarrow> attr_value" where
  "get_preload c = Sim_Val_Integer (cd_preload c)"

definition set_grub_option :: "'w sim_api \<Rightarrow> attr_value \<Rightarrow> common_data \<Rightarrow> set_error \<times> common_data" where
  "set_grub_option A v c = (Sim_Set_Ok, c\<lparr>cd_grub_option := to_int (u_integer A v)\<rparr>)"

definition get_grub_option :: "common_data \<Rightarrow> attr_value" where
  "get_grub_option c = Sim_Val_Integer (cd_grub_option c)"

definition get_fast_caches :: "common_data \<Rightarrow> attr_value" where
  "get_fast_caches c = Sim_Val_Integer (cd_fast_caches c)"

definition set_fast_caches :: "'w sim_api \<Rightarrow> attr_value \<Rightarrow> common_data \<Rightarrow> set_error \<times> common_data" where
  "set_fast_caches A v c = (Sim_Set_Ok, c\<lparr>cd_fast_caches := to_int (u_integer A v)\<rparr>)"

definition get_break_on_sched :: "common_data \<Rightarrow> attr_value" where
  "get_break_on_sched c = Sim_Val_Boolean (cd_break_on_sched c)"

definition set_break_on_sched :: "attr_value \<Rightarrow> common_data \<Rightarrow> (set_error \<times> common_data) option" where
  "set_break_on_sched v c =
     (case v of Sim_Val_Boolean b \<Rightarrow> Some (Sim_Set_Ok, c\<lparr>cd_break_on_sched := b\<rparr>) | _ \<Rightarrow> None)"

definition get_profile_log :: "common_data \<Rightarrow> attr_value option" where
  "get_profile_log c = map_option Sim_Val_String (pf_log_prefix (cd_prof c))"

definition set_profile_log :: "attr_value \<Rightarrow> common_data \<Rightarrow> (set_error \<times> common_data) option" where
  "set_profile_log v c =
     (case v of
        Sim_Val_String x \<Rightarrow> Some (Sim_Set_Ok, c\<lparr>cd_prof := (cd_prof c)\<lparr>pf_log_prefix := Some x\<rparr>\<rparr>)
      | _ \<Rightarrow> None)"

definition get_profile_interval :: "common_data \<Rightarrow> attr_value" where
  "get_profile_interval c = Sim_Val_Integer (uint (pf_interval (cd_prof c)))"

definition set_profile_interval :: "'w sim_api \<Rightarrow> obj \<Rightarrow> attr_value \<Rightarrow> 'w system \<Rightarrow> (set_error \<times> 'w system) option" where
  "set_profile_interval A p v s = do {
     m \<leftarrow> md_at s p;
     c \<leftarrow> md_common m;
     let pf = (cd_prof c)\<lparr>pf_interval := of_int (u_integer A v)\<rparr>;
     let (pf1, reqs) = (if u_integer A v > 0 \<and> \<not> pf_scheduled pf then profiler_schedule_tick (om_minfo (md_om m)) None pf
                        else (pf, []));
     s1 \<leftarrow> set_common p (c\<lparr>cd_prof := pf1\<rparr>) s;
     Some (Sim_Set_Ok, s1\<lparr>sy_calls := sy_calls s1 @ map (\<lambda>r. Tick r p) reqs\<rparr>)
   }"

text \<open>\<open>ctime\<close> is the current time as text; the name must fit into the buffer of 256 bytes.\<close>

definition set_common_log :: "bool \<Rightarrow> string \<Rightarrow> attr_value \<Rightarrow> 'w system \<Rightarrow> (set_error \<times> 'w system) option" where
  "set_common_log can_open ctime v s =
     (case v of
        Sim_Val_String name \<Rightarrow>
          if length name \<ge> 256 \<or> \<not> can_open then None
          else Some (Sim_Set_Ok, s\<lparr>sy_log := Some [Str ''###########################'', Str NL, Str ''Started simulation at '',
                       Str ctime, Str NL, Str NL]\<rparr>)
      | _ \<Rightarrow> None)"

definition get_next_module :: attr_value where
  "get_next_module = Sim_Val_Nil"

definition set_next_module :: "obj \<Rightarrow> attr_value \<Rightarrow> 'w system \<Rightarrow> (set_error \<times> 'w system) option" where
  "set_next_module self v s =
     (case v of
        Sim_Val_Object p \<Rightarrow> do {
          s1 \<leftarrow> OSA_add_mod p s;
          m \<leftarrow> md_at s1 p;
          s2 \<leftarrow> (if md_type m = OSATXM
                 then do {
                   c \<leftarrow> common_of s1 self;
                   set_common self (c\<lparr>cd_prof := (cd_prof c)\<lparr>pf_reader := Txm_read_4bytes p\<rparr>\<rparr>) s1
                 }
                 else Some s1);
          Some (Sim_Set_Ok, s2)
        }
      | _ \<Rightarrow> None)"

section \<open>Creation\<close>

text \<open>\<open>lo\<close> and \<open>hi\<close> are the limits of the kernel text; fields that the constructor does not set have no value.\<close>

definition new_common_data :: "u64 \<Rightarrow> u64 \<Rightarrow> common_data" where
  "new_common_data lo hi =
     \<lparr>cd_ide_count = None, cd_ide = None, cd_grub_option = - 1, cd_preload = 0, cd_fast_caches = 0, cd_break_on_sched = False,
      cd_context = None, cd_prof = init_profiler lo hi, cd_idle_cycles = None, cd_benchmarks = [], cd_kill_imminent = False,
      cd_kill_safe_level = 0, cd_kill_begin_time = None\<rparr>"

text \<open>\<open>om\<close> stands for the parts of the module that are set up with the machine.\<close>

definition new_common_module :: "u64 \<Rightarrow> u64 \<Rightarrow> osamod \<Rightarrow> cachemod \<Rightarrow> module" where
  "new_common_module lo hi om cm =
     \<lparr>md_type = COMMON, md_system = None, md_next = None, md_condor = False, md_tx_trace = 0, md_stat = Some [],
      md_cpu_switch_time = 0, md_disk_delay = 0, md_procCycles = None, md_om = om,
      md_cache = cm\<lparr>cm_type := COMMON, timing_model := None, timing_ifc := None, ppCaches := None, ppCachesIfc := None, nCaches := 0\<rparr>,
      md_common = Some (new_common_data lo hi), md_syncchar = None\<rparr>"

definition new_common_instance :: "u64 \<Rightarrow> u64 \<Rightarrow> osamod \<Rightarrow> cachemod \<Rightarrow> obj \<Rightarrow> 'w system \<Rightarrow> 'w system option" where
  "new_common_instance lo hi om cm p s =
     OSA_add_mod p (con [Str ''[common] new instance'', Str NL] (set_mod p (new_common_module lo hi om cm) s))"

text \<open>
  \<open>cpus\<close> are the processors of the machine, \<open>arch\<close> the attribute \<^verbatim>\<open>architecture\<close> of the first one.  The three attributes are
  set through the setters above.
\<close>

definition common_set_system :: "minfo \<Rightarrow> attr_value \<Rightarrow> obj \<Rightarrow> obj option \<Rightarrow> 'w system \<Rightarrow> (set_error \<times> 'w system) option" where
  "common_set_system cpus arch p sysobj s = do {
     m \<leftarrow> md_at s p;
     c \<leftarrow> md_common m;
     let m1 = m\<lparr>md_system := sysobj, md_om := (md_om m)\<lparr>om_minfo := cpus, om_os := init_procs cpus\<rparr>, md_procCycles := None,
                md_cpu_switch_time := 5, md_disk_delay := 0.0055, md_common := Some (c\<lparr>cd_idle_cycles := Some 0\<rparr>)\<rparr>;
     let s1 = set_mod p m1 s;
     case arch of
       Sim_Val_String a \<Rightarrow>
         Some (Sim_Set_Ok,
           if a = ''x86-64''
           then con [Str ''Detected a 64-bit architecture.  Setting larger registers'', Str NL]
                  (s1\<lparr>sy_machine := (sy_machine s1)\<lparr>mc_mask := 0xFFFFFFFFFFFFFFFF\<rparr>\<rparr>)
           else s1)
     | _ \<Rightarrow> None
   }"

definition common_get_system :: "module \<Rightarrow> attr_value" where
  "common_get_system m = attr_object (md_system m)"

definition get_context_attribute :: "common_data \<Rightarrow> attr_value" where
  "get_context_attribute c = attr_object (cd_context c)"

text \<open>\<open>cpu_obj\<close> gives the object of a processor.\<close>

fun context_cpus :: "'w sim_api \<Rightarrow> (nat \<Rightarrow> obj) \<Rightarrow> obj \<Rightarrow> nat \<Rightarrow> minfo \<Rightarrow> 'w system \<Rightarrow> 'w system option" where
  "context_cpus A cpu_obj ctx i [] s = Some s"
| "context_cpus A cpu_obj ctx i (c # cs) s =
     (if i \<ge> length (sy_suspend s) then None
      else context_cpus A cpu_obj ctx (i + 1) cs
             (sim_call (Hap_callback ''Core_Magic_Instruction'' (cpu_obj c))
               (s\<lparr>sy_sim := snd (SIM_set_attribute A (cpu_obj c) ''current_context'' (Sim_Val_Object ctx) (sy_sim s)),
                  sy_suspend := (sy_suspend s)[i := 0]\<rparr>)))"

definition set_context_attribute :: "'w sim_api \<Rightarrow> (nat \<Rightarrow> obj) \<Rightarrow> obj \<Rightarrow> attr_value \<Rightarrow> 'w system \<Rightarrow> (set_error \<times> 'w system) option" where
  "set_context_attribute A cpu_obj p v s = do {
     po \<leftarrow> u_object v;
     ctx \<leftarrow> po;
     m \<leftarrow> md_at s p;
     c \<leftarrow> md_common m;
     let (st0, w) = SIM_get_object A ''st0'' (sy_sim s);
     let w = snd (SIM_set_attribute A ctx ''symtable'' (attr_object st0) w);
     s1 \<leftarrow> set_common p (c\<lparr>cd_context := Some ctx\<rparr>) (s\<lparr>sy_sim := w\<rparr>);
     s2 \<leftarrow> context_cpus A cpu_obj ctx 0 (om_minfo (md_om m)) s1;
     Some (Sim_Set_Ok, sim_call (Hap_callback ''Core_Breakpoint_Memop'' ctx) s2)
   }"

section \<open>Timing\<close>

definition common_timing_operate ::
  "'w sim_api \<Rightarrow> nat \<Rightarrow> generic_transaction \<Rightarrow> module \<Rightarrow> 'w \<Rightarrow> (cycles \<times> 'w) option" where
  "common_timing_operate A cpu mt m w = do {
     (penalty, w) \<leftarrow> collect_cache_timing A cpu mt ((md_cache m)\<lparr>cm_type := md_type m, cm_minfo := om_minfo (md_om m)\<rparr>) w;
     c \<leftarrow> md_common m;
     Some (if cd_fast_caches c \<noteq> 0 \<and> penalty > 0 then 1 else penalty, w)
   }"

definition clear_stats :: "common_data \<Rightarrow> common_data" where
  "clear_stats c = c\<lparr>cd_prof := clear_profile (cd_prof c)\<rparr>"

definition output_stats :: "common_data \<Rightarrow> (string option \<times> ostream) option" where
  "output_stats c = dump_profile False (cd_prof c)"

section \<open>The end of the simulation\<close>

definition set_idle_callback :: "obj \<Rightarrow> 'w system \<Rightarrow> 'w system option" where
  "set_idle_callback p s = do {
     c \<leftarrow> common_of s p;
     n \<leftarrow> cd_idle_cycles c;
     Some (sim_call (if n > 0 then Idle_callback p n else Quit 0) s)
   }"

definition idle_callback :: "'w system \<Rightarrow> 'w system" where
  "idle_callback s = sim_call (Quit 0) s"

definition osa_random_kill :: "obj \<Rightarrow> 'w system \<Rightarrow> 'w system option" where
  "osa_random_kill p s = do {
     c \<leftarrow> common_of s p;
     if cd_kill_safe_level c \<noteq> 0 then set_common p (c\<lparr>cd_kill_imminent := True\<rparr>) s
     else Some (sim_call (Break ''RANDOM_KILL_INVOKED'') s)
   }"

end
