(* ===== verification/Magic.thy ===== *)
theory Magic
  imports Common
begin

text \<open>
  The magic instruction (\<^verbatim>\<open>magic_callback\<close> of \<^verbatim>\<open>common/common.cc\<close> with the codes of \<^verbatim>\<open>common/osamagic.h\<close>): the macros that call the
  other modules, one definition per group of cases, and the callback of a watchpoint.
\<close>

section \<open>Calls of the other modules\<close>

text \<open>The members of the three interfaces; those of \<^verbatim>\<open>osatxm\<close> are named by their field.\<close>

datatype handler =
    Clear_stat | Output_stat
  | Sc_sched | Sc_register_spinlock | Sc_after_boot | Sc_fork | Sc_exit | Sc_clear_map | Sc_load_map
  | Txm string | Txm2 string u64

type_synonym 'w body = "obj \<Rightarrow> 'w system \<Rightarrow> 'w system option"

definition dispatch_one :: "'w platform \<Rightarrow> (handler \<Rightarrow> 'w body) \<Rightarrow> handler \<Rightarrow> 'w body" where
  "dispatch_one A call h p s =
     (let w1 = snd (SIM_clear_exception A (sy_sim s));
          w2 = snd (SIM_get_interface A p ''common_osamod_interface'' w1)
      in if SIM_get_pending_exception A w2 \<noteq> None
         then put_stat p [Str (''XXX: Can't find common interface '' @ [CHR 0x22]), Str (SIM_last_error A w2), Str [CHR 0x22], Endl]
                (s\<lparr>sy_sim := snd (SIM_clear_exception A w2)\<rparr>)
         else call h p (s\<lparr>sy_sim := w2\<rparr>))"

text \<open>Run \<open>f\<close> on the modules of the machine of \<open>self\<close>.\<close>

definition on_machine :: "obj \<Rightarrow> 'w body \<Rightarrow> 'w body" where
  "on_machine self f p s = do { b \<leftarrow> same_machine s self p; if b then f p s else Some s }"

definition dispatch_all :: "'w platform \<Rightarrow> (handler \<Rightarrow> 'w body) \<Rightarrow> obj \<Rightarrow> handler \<Rightarrow> bool \<Rightarrow> 'w system \<Rightarrow> 'w system option" where
  "dispatch_all A call self h all_flag s =
     for_modules (if all_flag then dispatch_one A call h else on_machine self (dispatch_one A call h)) s"

text \<open>Call through an interface of the simulator, or report that it is missing.\<close>

definition via_interface :: "'w platform \<Rightarrow> string \<Rightarrow> string \<Rightarrow> 'w body \<Rightarrow> 'w body" where
  "via_interface A iface msg f p s =
     (let w1 = snd (SIM_get_interface A p iface (sy_sim s));
          (err, w2) = SIM_clear_exception A w1
      in if err \<noteq> None then put_stat p [Str msg, Endl] (s\<lparr>sy_sim := w2\<rparr>) else f p (s\<lparr>sy_sim := w2\<rparr>))"

text \<open>
  Run a handler of \<open>Os\<close> on a module: what it prints goes to the module's log and to the console, its requests to stop to
  the simulator.
\<close>

definition with_os :: "(machine \<Rightarrow> osamod \<Rightarrow> (osamod \<times> machine) option) \<Rightarrow> 'w body" where
  "with_os f p s = do {
     m \<leftarrow> md_at s p;
     (o1, mc) \<leftarrow> f (sy_machine s) ((md_om m)\<lparr>om_common := (md_type m = COMMON), om_stat := [], om_console := [], om_breaks := []\<rparr>);
     let s1 = (set_mod p (m\<lparr>md_om := o1\<rparr>) s)\<lparr>sy_machine := mc, sy_calls := sy_calls s @ map Break (om_breaks o1)\<rparr>;
     put_or_skip (om_stat o1) p (con (om_console o1) s1)
   }"

definition plain_os :: "(machine \<Rightarrow> osamod \<Rightarrow> osamod option) \<Rightarrow> machine \<Rightarrow> osamod \<Rightarrow> (osamod \<times> machine) option" where
  "plain_os f m om = map_option (\<lambda>o1. (o1, m)) (f m om)"

definition dispatch_os :: "obj \<Rightarrow> (machine \<Rightarrow> osamod \<Rightarrow> (osamod \<times> machine) option) \<Rightarrow> 'w system \<Rightarrow> 'w system option" where
  "dispatch_os self f s = for_modules (on_machine self (with_os f)) s"

text \<open>Only modules of one type take part.\<close>

definition of_type :: "mod_type \<Rightarrow> 'w body \<Rightarrow> 'w body" where
  "of_type t f p s = do { m \<leftarrow> md_at s p; if md_type m = t then f p s else Some s }"

definition call_syncchar :: "'w platform \<Rightarrow> (handler \<Rightarrow> 'w body) \<Rightarrow> handler \<Rightarrow> 'w body" where
  "call_syncchar A call h = via_interface A ''common_syncchar_interface'' ''XXX: Can't find common syncchar interface'' (call h)"

definition dispatch_syncchar :: "'w platform \<Rightarrow> (handler \<Rightarrow> 'w body) \<Rightarrow> obj \<Rightarrow> handler \<Rightarrow> 'w system \<Rightarrow> 'w system option" where
  "dispatch_syncchar A call self h s = for_modules (on_machine self (of_type SYNCCHAR (call_syncchar A call h))) s"

definition dispatch_osatxm :: "'w platform \<Rightarrow> (handler \<Rightarrow> 'w body) \<Rightarrow> obj \<Rightarrow> string \<Rightarrow> 'w system \<Rightarrow> 'w system option" where
  "dispatch_osatxm A call self f s =
     for_modules (on_machine self (of_type OSATXM
       (via_interface A ''common_osatxm_interface'' ''XXX: Can't find common osatxm interface'' (call (Txm f))))) s"

definition dispatch_osatxm2 :: "'w platform \<Rightarrow> (handler \<Rightarrow> 'w body) \<Rightarrow> obj \<Rightarrow> string \<Rightarrow> u64 \<Rightarrow> 'w system \<Rightarrow> 'w system option" where
  "dispatch_osatxm2 A call self f code s =
     for_modules (on_machine self (of_type OSATXM
       (via_interface A ''common_osatxm_interface'' ''XXX: Can't find common osatxm interface'' (call (Txm2 f code))))) s"

section \<open>The codes\<close>

datatype magic =
    M_print bool | M_clear bool | M_output bool | M_killsim | M_breaksim | M_benchmark | M_network | M_grub | M_num_char
  | M_stack_trace | M_thread bool | M_preload | M_toggle_disk | M_sched | M_fork | M_timer | M_kstat | M_kstat_2_4
  | M_task_state | M_cur_syscall | M_enter_sched | M_exit_switch_to | M_kernel_boot | M_register_spinlock | M_exit
  | M_txm string | M_txm2 string | M_random | M_debug_print | M_protect | M_unprotect | M_suspend int | M_sigsegv
  | M_clear_map | M_load_map | M_shutdown_begin | M_shutdown_unsafe | M_shutdown_safe

text \<open>The values of the codes, what the cases do with them, and the values that are ignored.\<close>

definition magic_consts :: "(u64 \<times> string) list" where
  "magic_consts =
    [(1, ''OSA_PRINT_STR_VAL''), (2, ''OSA_CLEAR_STAT''), (3, ''OSA_OUTPUT_STAT''), (4, ''OSA_KILLSIM''),
     (5, ''OSA_BREAKSIM''), (6, ''OSA_BENCHMARK''), (7, ''OSA_NETWORK''), (8, ''OSA_GRUB''), (9, ''OSA_PRINT_NUM_CHAR''),
     (10, ''OSA_PRELOAD''), (11, ''OSA_TOGGLE_DISK_DELAY''), (12, ''OSA_CLEAR_STAT_ALL''), (13, ''OSA_OUTPUT_STAT_ALL''),
     (14, ''OSA_PRINT_STR_VAL_ALL''), (15, ''OSA_DEBUG_PRINT''), (16, ''SYNCCHAR_CLEAR_MAP''), (17, ''SYNCCHAR_LOAD_MAP''),
     (18, ''OSA_LOG_THREAD_START''), (19, ''OSA_LOG_THREAD_STOP''), (20, ''OSA_PRINT_STACK_TRACE''),
     (81, ''OSA_TRACK_EVENT_VAL''), (82, ''OSA_BACK_TRACE_VAL''), (83, ''OSA_TX_TRACE_MODE_VAL''), (100, ''OSA_SCHED''),
     (101, ''OSA_FORK''), (102, ''OSA_TIMER''), (103, ''OSA_KSTAT''), (104, ''OSA_EXIT_CODE''),
     (105, ''OSA_REGISTER_SPINLOCK''), (106, ''OSA_ENTER_SCHED''), (107, ''OSA_EXIT_SWITCH_TO''), (108, ''OSA_KSTAT_2_4''),
     (109, ''OSA_TASK_STATE_VAL''), (110, ''OSA_CUR_SYSCALL_VAL''), (111, ''OSA_PROTECT_ADDR''), (112, ''OSA_UNPROTECT_ADDR''),
     (113, ''OSA_PROTECT_SUSPEND''), (114, ''OSA_PROTECT_RESUME''), (115, ''OSA_LOG_SIGSEGV''), (200, ''OSA_XSETPID''),
     (201, ''OSA_NEW_PROC_VAL''), (202, ''OSA_SINK_AREA_VAL''), (300, ''OSA_PROC_PRIO''), (301, ''OSA_PAGE_FAULT''),
     (302, ''OSA_ACTIVETX_DATA''), (303, ''OSA_ACTIVETX_PARAM''), (304, ''OSA_GET_RANDOM''), (305, ''OSA_GET_CM_POLICY''),
     (306, ''OSA_SET_CM_POLICY''), (307, ''OSA_GET_CM_POLCHG_THRESH''), (308, ''OSA_GET_BACKOFF_POLICY''),
     (309, ''OSA_SET_BACKOFF_POLICY''), (310, ''OSA_GET_BK_POLCHG_THRESH''), (600, ''OSA_THREAD_PROF_DATA''),
     (650, ''OSA_GET_MAX_CONFLICTER''), (651, ''OSA_CLEAR_MAX_CONFLICTER''), (670, ''OSA_LOG_SCHEDULE''),
     (678, ''OSA_TX_STATE''), (679, ''OSA_KILL_TX''), (680, ''OSA_SET_VCONF_ADDR_BUF''), (700, ''OSA_TXMIGRATION_MODE''),
     (800, ''OSA_TX_SET_LOG_BASE''), (1100, ''OSA_KERNEL_BOOT''), (1201, ''OSA_CXSPIN_INFO_TX''),
     (1202, ''OSA_CXSPIN_INFO_NOTX''), (1203, ''OSA_CXSPIN_INFO_IOTX''), (1204, ''OSA_CXSPIN_INFO_IONOTX''),
     (1205, ''OSA_CX_LOCK_ATTEMPT''), (1206, ''OSA_OP_XGETTXID''), (1207, ''OSA_OP_XBEGIN''), (1208, ''OSA_OP_XBEGIN_IO''),
     (1209, ''OSA_OP_XEND''), (1210, ''OSA_OP_XRESTART''), (1211, ''OSA_OP_XRESTART_EX''), (1212, ''OSA_OP_XCAS''),
     (1213, ''OSA_OP_XPUSH''), (1214, ''OSA_OP_XPOP''), (1215, ''OSA_OP_XSTATUS''), (1216, ''OSA_OP_XEND_USER''),
     (1217, ''OSA_OP_XABORT_USER''), (1218, ''OSA_OP_XGETTXID_USER''), (1219, ''OSA_OP_SET_USER_SYSCALL_BIT''),
     (1220, ''OSA_OP_GET_USER_SYSCALL_BIT''), (1300, ''OSA_TXCACHE_TRACE''), (1400, ''OSA_USER_OVERFLOW_BEGIN''),
     (1401, ''OSA_USER_OVERFLOW_END''), (1501, ''OSA_RANDOM_SHUTDOWN_BEGIN''), (1502, ''OSA_RANDOM_SHUTDOWN_UNSAFE''),
     (1503, ''OSA_RANDOM_SHUTDOWN_SAFE'')]"

definition magic_cases :: "(string \<times> magic) list" where
  "magic_cases =
    [(''OSA_PRINT_STR_VAL_ALL'', M_print True), (''OSA_PRINT_STR_VAL'', M_print False), (''OSA_CLEAR_STAT_ALL'', M_clear True),
     (''OSA_CLEAR_STAT'', M_clear False), (''OSA_OUTPUT_STAT_ALL'', M_output True), (''OSA_OUTPUT_STAT'', M_output False),
     (''OSA_KILLSIM'', M_killsim), (''OSA_BREAKSIM'', M_breaksim), (''OSA_BENCHMARK'', M_benchmark),
     (''OSA_NETWORK'', M_network), (''OSA_GRUB'', M_grub), (''OSA_PRINT_NUM_CHAR'', M_num_char),
     (''OSA_PRINT_STACK_TRACE'', M_stack_trace), (''OSA_LOG_THREAD_START'', M_thread True),
     (''OSA_LOG_THREAD_STOP'', M_thread False), (''OSA_PRELOAD'', M_preload), (''OSA_TOGGLE_DISK_DELAY'', M_toggle_disk),
     (''OSA_SCHED'', M_sched), (''OSA_FORK'', M_fork), (''OSA_TIMER'', M_timer), (''OSA_KSTAT'', M_kstat),
     (''OSA_KSTAT_2_4'', M_kstat_2_4), (''OSA_TASK_STATE_VAL'', M_task_state), (''OSA_CUR_SYSCALL_VAL'', M_cur_syscall),
     (''OSA_ENTER_SCHED'', M_enter_sched), (''OSA_EXIT_SWITCH_TO'', M_exit_switch_to), (''OSA_KERNEL_BOOT'', M_kernel_boot),
     (''OSA_REGISTER_SPINLOCK'', M_register_spinlock), (''OSA_EXIT_CODE'', M_exit), (''OSA_XSETPID'', M_txm ''osa_xsetpid''),
     (''OSA_NEW_PROC_VAL'', M_txm ''osa_new_proc_val''), (''OSA_PROC_PRIO'', M_txm ''osa_proc_prio''),
     (''OSA_ACTIVETX_DATA'', M_txm ''osa_activetx_data''), (''OSA_KILL_TX'', M_txm ''osa_kill_transaction''),
     (''OSA_SET_VCONF_ADDR_BUF'', M_txm ''osa_set_vconf_addr_buf''), (''OSA_TX_STATE'', M_txm ''osa_tx_state''),
     (''OSA_GET_CM_POLICY'', M_txm ''osa_get_cm_policy''), (''OSA_SET_CM_POLICY'', M_txm ''osa_set_cm_policy''),
     (''OSA_GET_BACKOFF_POLICY'', M_txm ''osa_get_backoff_policy''),
     (''OSA_SET_BACKOFF_POLICY'', M_txm ''osa_set_backoff_policy''),
     (''OSA_GET_BK_POLCHG_THRESH'', M_txm ''osa_get_bk_polchg_thresh''),
     (''OSA_GET_CM_POLCHG_THRESH'', M_txm ''osa_get_cm_polchg_thresh''), (''OSA_GET_RANDOM'', M_random),
     (''OSA_TRACK_EVENT_VAL'', M_txm ''osa_track_named_event''), (''OSA_BACK_TRACE_VAL'', M_txm ''osa_back_trace''),
     (''OSA_TX_TRACE_MODE_VAL'', M_txm ''osa_tx_trace_mode''), (''OSA_THREAD_PROF_DATA'', M_txm ''osa_thread_prof_data''),
     (''OSA_SINK_AREA_VAL'', M_txm ''osa_sink_area_val''), (''OSA_TXMIGRATION_MODE'', M_txm ''osa_txmigration_mode''),
     (''OSA_TX_SET_LOG_BASE'', M_txm ''osa_tx_set_log_base''), (''OSA_ACTIVETX_PARAM'', M_txm ''osa_activetx_param''),
     (''OSA_PAGE_FAULT'', M_txm ''osa_page_fault''), (''OSA_GET_MAX_CONFLICTER'', M_txm ''osa_get_max_conflicter''),
     (''OSA_CLEAR_MAX_CONFLICTER'', M_txm ''osa_clear_max_conflicter''), (''OSA_LOG_SCHEDULE'', M_txm ''osa_log_schedule''),
     (''OSA_CXSPIN_INFO_TX'', M_txm2 ''osa_cxspin_info''), (''OSA_CXSPIN_INFO_NOTX'', M_txm2 ''osa_cxspin_info''),
     (''OSA_CXSPIN_INFO_IOTX'', M_txm2 ''osa_cxspin_info''), (''OSA_CXSPIN_INFO_IONOTX'', M_txm2 ''osa_cxspin_info''),
     (''OSA_CX_LOCK_ATTEMPT'', M_txm ''osa_cx_lock_attempt''), (''OSA_OP_XGETTXID'', M_txm2 ''osa_opcode''),
     (''OSA_OP_XBEGIN'', M_txm2 ''osa_opcode''), (''OSA_OP_XBEGIN_IO'', M_txm2 ''osa_opcode''),
     (''OSA_OP_XEND'', M_txm2 ''osa_opcode''), (''OSA_OP_XPUSH'', M_txm2 ''osa_opcode''),
     (''OSA_OP_XPOP'', M_txm2 ''osa_opcode''), (''OSA_OP_XRESTART'', M_txm2 ''osa_opcode''),
     (''OSA_OP_XRESTART_EX'', M_txm2 ''osa_opcode''), (''OSA_OP_XCAS'', M_txm2 ''osa_opcode''),
     (''OSA_OP_XSTATUS'', M_txm2 ''osa_opcode''), (''OSA_OP_XEND_USER'', M_txm ''osa_xend_user''),
     (''OSA_OP_XABORT_USER'', M_txm ''osa_xabort_user''), (''OSA_OP_XGETTXID_USER'', M_txm ''osa_xgettxid_user''),
     (''OSA_OP_SET_USER_SYSCALL_BIT'', M_txm ''osa_set_user_syscall_bit''),
     (''OSA_OP_GET_USER_SYSCALL_BIT'', M_txm ''osa_get_user_syscall_bit''),
     (''OSA_USER_OVERFLOW_BEGIN'', M_txm ''osa_user_overflow_begin''),
     (''OSA_USER_OVERFLOW_END'', M_txm ''osa_user_overflow_end''), (''OSA_DEBUG_PRINT'', M_debug_print),
     (''OSA_PROTECT_ADDR'', M_protect), (''OSA_UNPROTECT_ADDR'', M_unprotect), (''OSA_PROTECT_SUSPEND'', M_suspend 1),
     (''OSA_PROTECT_RESUME'', M_suspend 0), (''OSA_LOG_SIGSEGV'', M_sigsegv), (''SYNCCHAR_CLEAR_MAP'', M_clear_map),
     (''SYNCCHAR_LOAD_MAP'', M_load_map), (''OSA_TXCACHE_TRACE'', M_txm ''osa_txcache_trace_mode''),
     (''OSA_RANDOM_SHUTDOWN_BEGIN'', M_shutdown_begin), (''OSA_RANDOM_SHUTDOWN_UNSAFE'', M_shutdown_unsafe),
     (''OSA_RANDOM_SHUTDOWN_SAFE'', M_shutdown_safe)]"

definition bios_codes :: "u64 list" where
  "bios_codes =
    [0x0, 0xfd6c, 0x7f0c, 0x2118, 0x3e10, 0x4c, 0x67fd4, 0x67f5e, 0x7c88, 0x7ac8, 0x7d85, 0x7c05, 0x7d0a, 0x47ac8, 0x67ac8,
     0x47f10, 0x57f10, 0x67fc8, 0x67f56, 0x2cfbc, 0x27c82, 0x7bf4, 0x7e88, 0x7a54, 0x47a54, 0x67a54, 0x47e74, 0x7a60, 0x47a60,
     0x67a60, 0x57e80, 0x7e60, 0x27c12, 0x7b84, 0x7e18, 0x7e30, 0x25b7e, 0x5af0, 0x5d84, 0x5950, 0x45950, 0x65950, 0x65d70,
     0x65da4, 0x279a2, 0x7914, 0x7ba8, 0x7774, 0x47774, 0x67774, 0x47b94, 0x47c1c, 0x26ca6f, 0x26005d, 0x55da4, 0x534d4712,
     0x14712, 0x24712, 0x34712, 0x54712]"

definition decode :: "u64 \<Rightarrow> magic option" where
  "decode code = Option.bind (map_of magic_consts code) (map_of magic_cases)"

section \<open>Messages\<close>

text \<open>Modules with a log, other than the common one.\<close>

definition with_log :: "'w body \<Rightarrow> 'w body" where
  "with_log f p s = do { m \<leftarrow> md_at s p; if md_stat m = None \<or> md_type m = COMMON then Some s else f p s }"

definition magic_print :: "'w platform \<Rightarrow> obj \<Rightarrow> bool \<Rightarrow> 'w system \<Rightarrow> 'w system option" where
  "magic_print A self all_flag s = do {
     (str, mc) \<leftarrow> osa_get_name_val (pl_buffer A) (sy_machine s);
     let s1 = con [Str str, Endl] (s\<lparr>sy_machine := mc, sy_log := map_option (\<lambda>l. l @ [Str str, Str NL]) (sy_log s)\<rparr>);
     let put = (\<lambda>p s. put_stat p [Str str, Endl] s);
     for_modules (with_log (if all_flag then put else on_machine self put)) s1
   }"

definition magic_num_char :: "'w platform \<Rightarrow> obj \<Rightarrow> 'w system \<Rightarrow> 'w system option" where
  "magic_num_char A self s = do {
     (str, mc) \<leftarrow> osa_get_num_char (pl_buffer A) (sy_machine s);
     for_modules (on_machine self (with_log (\<lambda>p s. put_stat p [Str str] s))) (con [Str str] (s\<lparr>sy_machine := mc\<rparr>))
   }"

definition magic_debug_print :: "'w platform \<Rightarrow> 'w system \<Rightarrow> 'w system option" where
  "magic_debug_print A s = do {
     (str, mc) \<leftarrow> osa_get_name_val (pl_buffer A) (sy_machine s);
     Some (con [Str str, Endl] (s\<lparr>sy_machine := mc\<rparr>))
   }"

text \<open>\<^verbatim>\<open>current_process[n]\<close> enters 0 for a processor that is not there.\<close>

definition current_at :: "int \<Rightarrow> os_data \<Rightarrow> spid_t \<times> os_data" where
  "current_at n d =
     (case map_of (current_process d) n of
        Some x \<Rightarrow> (x, d)
      | None \<Rightarrow> (0, d\<lparr>current_process := omap_update n 0 (current_process d)\<rparr>))"

definition current_of :: "int \<Rightarrow> obj \<Rightarrow> 'w system \<Rightarrow> (spid_t \<times> 'w system) option" where
  "current_of n p s = do {
     m \<leftarrow> md_at s p;
     let (x, d) = current_at n (om_os (md_om m));
     Some (x, set_mod p (m\<lparr>md_om := set_os d (md_om m)\<rparr>) s)
   }"

definition cpunum :: "obj \<Rightarrow> 'w system \<Rightarrow> int option" where
  "cpunum self s = map_option (\<lambda>m. getCpuNum (om_minfo (md_om m)) (mc_cpu (sy_machine s))) (md_at s self)"

definition magic_thread :: "obj \<Rightarrow> bool \<Rightarrow> 'w system \<Rightarrow> 'w system option" where
  "magic_thread self start s = do {
     n \<leftarrow> cpunum self s;
     let now = mc_cycles (sy_machine s) (mc_cpu (sy_machine s));
     for_modules (with_log (on_machine self (\<lambda>p s. do {
       (x, s1) \<leftarrow> current_of n p s;
       put_stat p [Str ''Thread '', Dec (uint x), Str (if start then '' starting up at cycle '' else '' stopping at cycle ''),
                   Dec (uint now), Endl] s1
     }))) s
   }"

section \<open>Benchmarks and devices\<close>

text \<open>\<open>write_string\<close> with a limit of type \<^verbatim>\<open>int\<close>.\<close>

definition write_limited :: "logical_address \<Rightarrow> string \<Rightarrow> int \<Rightarrow> machine \<Rightarrow> machine option" where
  "write_limited addr str limit m =
     (if limit \<ge> 0 then map_option snd (write_string addr str (nat limit) True m)
      else (let m1 = HandlePendingExceptions m
            in Some (osa_write_sim_byte DATA_SEGMENT ((addr AND mc_mask m1) + of_int limit) 0 m1)))"

fun set_ide_delay :: "'w sim_api \<Rightarrow> common_data \<Rightarrow> int \<Rightarrow> ldouble \<Rightarrow> nat list \<Rightarrow> 'w \<Rightarrow> 'w option" where
  "set_ide_delay A c model delay [] w = Some w"
| "set_ide_delay A c model delay (i # is) w = do {
     po \<leftarrow> elem (cd_ide c) (int i);
     p \<leftarrow> po;
     set_ide_delay A c model delay is
       (snd (SIM_set_attribute A p ''interrupt_delay'' (Sim_Val_Floating delay)
         (snd (SIM_set_attribute A p ''model_dma_delay'' (Sim_Val_Integer model) w))))
   }"

definition disk_delay_all :: "'w platform \<Rightarrow> obj \<Rightarrow> int \<Rightarrow> ldouble \<Rightarrow> 'w system \<Rightarrow> 'w system option" where
  "disk_delay_all A self model delay s = do {
     c \<leftarrow> common_of s self;
     n \<leftarrow> cd_ide_count c;
     w \<leftarrow> set_ide_delay (sim_api.truncate A) c model delay [0..<nat n] (sy_sim s);
     Some (s\<lparr>sy_sim := w\<rparr>)
   }"

definition next_benchmark :: "obj \<Rightarrow> 'w system \<Rightarrow> 'w system option" where
  "next_benchmark self s = do {
     c \<leftarrow> common_of s self;
     case cd_benchmarks c of
       [] \<Rightarrow> Some s
     | b # bs \<Rightarrow> do {
         mc \<leftarrow> write_limited (osa_read_register EBX (sy_machine s)) (b @ [NUL]) (reg_int ECX (sy_machine s)) (sy_machine s);
         set_common self (c\<lparr>cd_benchmarks := bs\<rparr>) (s\<lparr>sy_machine := mc\<rparr>)
       }
   }"

definition magic_benchmark :: "'w platform \<Rightarrow> (handler \<Rightarrow> 'w body) \<Rightarrow> obj \<Rightarrow> 'w system \<Rightarrow> 'w system option" where
  "magic_benchmark A call self s = do {
     s1 \<leftarrow> next_benchmark self s;
     m \<leftarrow> md_at s1 self;
     let (po, w) = SIM_get_object A ''sim'' (sy_sim s1);
     p \<leftarrow> po;
     let w = snd (SIM_set_attribute A p ''cpu_switch_time'' (Sim_Val_Integer (md_cpu_switch_time m)) w);
     let s2 = s1\<lparr>sy_sim := w\<rparr>;
     s3 \<leftarrow> (if md_disk_delay m > 0 then disk_delay_all A self 1 (md_disk_delay m) s2 else Some s2);
     s4 \<leftarrow> dispatch_syncchar A call self Sc_after_boot s3;
     c \<leftarrow> common_of s4 self;
     if cd_fast_caches c \<noteq> 2 then set_common self (c\<lparr>cd_fast_caches := 0\<rparr>) s4 else Some s4
   }"

text \<open>An address read into an \<^verbatim>\<open>int\<close> is extended with its sign.\<close>

definition int_address :: "reg \<Rightarrow> machine \<Rightarrow> logical_address" where
  "int_address r m = scast (ucast (mc_regs m r) :: u32)"

definition magic_network :: "obj \<Rightarrow> 'w system \<Rightarrow> 'w system option" where
  "magic_network self s = do {
     c \<leftarrow> common_of s self;
     Some (s\<lparr>sy_machine := osa_write_sim_4bytes DATA_SEGMENT (int_address EBX (sy_machine s))
                             (osa_network_query (cd_benchmarks c)) (sy_machine s)\<rparr>)
   }"

definition magic_grub :: "obj \<Rightarrow> 'w system \<Rightarrow> 'w system option" where
  "magic_grub self s = do {
     c \<leftarrow> common_of s self;
     Some (if cd_grub_option c \<noteq> - 1
           then s\<lparr>sy_machine := osa_write_sim_4bytes DATA_SEGMENT (int_address EBX (sy_machine s))
                                  (of_int (cd_grub_option c)) (sy_machine s)\<rparr>
           else s)
   }"

definition magic_preload :: "obj \<Rightarrow> 'w system \<Rightarrow> 'w system option" where
  "magic_preload self s = do {
     c \<leftarrow> common_of s self;
     Some (s\<lparr>sy_machine := osa_write_sim_4bytes DATA_SEGMENT (osa_read_register EBX (sy_machine s))
                             (of_int (cd_preload c)) (sy_machine s)\<rparr>)
   }"

definition magic_toggle_disk :: "'w platform \<Rightarrow> obj \<Rightarrow> 'w system \<Rightarrow> 'w system option" where
  "magic_toggle_disk A self s = do {
     m \<leftarrow> md_at s self;
     if osa_read_register EBX (sy_machine s) = 0 then disk_delay_all A self 0 0 s
     else if md_disk_delay m > 0 then disk_delay_all A self 1 (md_disk_delay m) s
     else Some s
   }"

section \<open>Processes\<close>

definition sched_module :: "'w platform \<Rightarrow> (handler \<Rightarrow> 'w body) \<Rightarrow> 'w body" where
  "sched_module A call p s = do {
     m \<leftarrow> md_at s p;
     s1 \<leftarrow> (if md_type m = COMMON
            then map_option (\<lambda>c. if cd_break_on_sched c then sim_call (Break ''OSA Magic Breakpoint Requested on schedule.'') s else s)
                   (md_common m)
            else Some s);
     s2 \<leftarrow> (if md_type m = SYNCCHAR then call_syncchar A call Sc_sched p s1 else Some s1);
     with_os os_sched p s2
   }"

definition magic_sched :: "'w platform \<Rightarrow> (handler \<Rightarrow> 'w body) \<Rightarrow> obj \<Rightarrow> 'w system \<Rightarrow> 'w system option" where
  "magic_sched A call self s = for_modules (on_machine self (sched_module A call)) s"

definition magic_fork :: "'w platform \<Rightarrow> (handler \<Rightarrow> 'w body) \<Rightarrow> obj \<Rightarrow> 'w system \<Rightarrow> 'w system option" where
  "magic_fork A call self s = do {
     s1 \<leftarrow> dispatch_osatxm A call self ''osa_fork'' s;
     s2 \<leftarrow> dispatch_syncchar A call self Sc_fork s1;
     dispatch_os self (plain_os (\<lambda>m om. Some (os_fork m om))) s2
   }"

definition magic_exit :: "'w platform \<Rightarrow> (handler \<Rightarrow> 'w body) \<Rightarrow> obj \<Rightarrow> 'w system \<Rightarrow> 'w system option" where
  "magic_exit A call self s = do {
     s1 \<leftarrow> dispatch_os self (plain_os os_exit) s;
     s2 \<leftarrow> dispatch_osatxm A call self ''osa_exit_code'' s1;
     dispatch_syncchar A call self Sc_exit s2
   }"

definition magic_kernel_boot :: "'w platform \<Rightarrow> (handler \<Rightarrow> 'w body) \<Rightarrow> obj \<Rightarrow> 'w system \<Rightarrow> 'w system option" where
  "magic_kernel_boot A call self s = do {
     m \<leftarrow> md_at s self;
     n \<leftarrow> cpunum self s;
     (out, w) \<leftarrow> enable_cache_perturb (sim_api.truncate A) n (md_cache m) (sy_sim s);
     dispatch_osatxm A call self ''osa_kernel_boot'' (con out (s\<lparr>sy_sim := w\<rparr>))
   }"

section \<open>Watchpoints\<close>

text \<open>\<^verbatim>\<open>insert\<close> of a \<^verbatim>\<open>std::map\<close> keeps an entry that is there.\<close>

definition omap_insert :: "'k::linorder \<Rightarrow> 'v \<Rightarrow> ('k \<times> 'v) list \<Rightarrow> ('k \<times> 'v) list" where
  "omap_insert k v m = (if map_of m k = None then omap_update k v m else m)"

definition magic_protect :: "'w platform \<Rightarrow> obj \<Rightarrow> 'w system \<Rightarrow> 'w system option" where
  "magic_protect A self s = do {
     c \<leftarrow> common_of s self;
     n \<leftarrow> cpunum self s;
     let addr = osa_read_register EBX (sy_machine s);
     let len = osa_read_register ECX (sy_machine s);
     let (bp, w) = SIM_breakpoint A (cd_context c) addr len (sy_sim s);
     (pid, s1) \<leftarrow> current_of n self (s\<lparr>sy_sim := w\<rparr>);
     Some (s1\<lparr>sy_bps := omap_insert (sint addr) \<lparr>wp_addr = sint addr, wp_len = sint len, wp_pid = pid, wp_bp = bp\<rparr> (sy_bps s1)\<rparr>)
   }"

definition magic_unprotect :: "'w system \<Rightarrow> 'w system option" where
  "magic_unprotect s =
     (let addr = osa_read_register EBX (sy_machine s)
      in case map_of (sy_bps s) (sint addr) of
           Some wp \<Rightarrow> Some (sim_call (Delete_breakpoint (wp_bp wp)) (s\<lparr>sy_bps := omap_erase (sint addr) (sy_bps s)\<rparr>))
         | None \<Rightarrow> Some (con [Str ''Can't find '', Hex addr, Endl] s))"

definition magic_suspend :: "obj \<Rightarrow> int \<Rightarrow> 'w system \<Rightarrow> 'w system option" where
  "magic_suspend self b s = do {
     n \<leftarrow> cpunum self s;
     if n < 0 \<or> n \<ge> int (length (sy_suspend s)) then None
     else Some (s\<lparr>sy_suspend := (sy_suspend s)[nat n := b]\<rparr>)
   }"

definition magic_sigsegv :: "obj \<Rightarrow> 'w system \<Rightarrow> 'w system option" where
  "magic_sigsegv self s = do {
     n \<leftarrow> cpunum self s;
     (pid, s1) \<leftarrow> current_of n self s;
     Some (sim_call (Break ''SIGSEGV'')
       (con [Str ''XXX: Application SIGSEGV on address '', Hex (osa_read_register EBX (sy_machine s)),
             Str '', eip is at '', Hex (osa_read_register ECX (sy_machine s)), Str '', pid is '', Dec (uint pid), Endl] s1))
   }"

text \<open>The sum of two 64-bit integers; the address is an \<^verbatim>\<open>unsigned int\<close>.\<close>

definition wp_end :: "watchpoint \<Rightarrow> int" where
  "wp_end wp = sint (of_int (wp_addr wp + wp_len wp) :: u64)"

definition covers :: "watchpoint \<Rightarrow> int \<Rightarrow> bool" where
  "covers wp a \<longleftrightarrow> wp_addr wp \<le> a \<and> a \<le> wp_end wp"

fun find_watch :: "(int \<times> watchpoint) list \<Rightarrow> int \<Rightarrow> watchpoint option" where
  "find_watch [] a = None"
| "find_watch (x # xs) a = (if covers (snd x) a then Some (snd x) else find_watch xs a)"

definition common_breakpoint_callback :: "obj \<Rightarrow> u64 \<Rightarrow> 'w system \<Rightarrow> 'w system option" where
  "common_breakpoint_callback self lin_addr s = do {
     n \<leftarrow> cpunum self s;
     let addr = (ucast lin_addr :: u32);
     if n < 0 \<or> n \<ge> int (length (sy_suspend s)) then None
     else if sy_suspend s ! nat n \<noteq> 0 then Some s
     else let s1 = (if sy_bps s = [] then sim_call (Break ''Where did this come from?'') s else s) in
       case find_watch (sy_bps s) (uint addr) of
         None \<Rightarrow> Some s1
       | Some wp \<Rightarrow> do {
           (pid, s2) \<leftarrow> current_of n self s1;
           Some (if pid = wp_pid wp then sim_call (Break ''Isolation violation'') s2 else s2)
         }
   }"

section \<open>Random shutdown\<close>

text \<open>A limit of zero divides by zero; the remainder has the sign of the random number, which is not negative.\<close>

definition magic_shutdown_begin :: "'w platform \<Rightarrow> obj \<Rightarrow> 'w system \<Rightarrow> 'w system option" where
  "magic_shutdown_begin A self s = do {
     let mc = sy_machine s;
     let limit = sint (osa_read_register EAX mc OR push_bit 32 (osa_read_register EDX mc));
     c \<leftarrow> common_of s self;
     let now = mc_cycles mc (mc_cpu mc);
     if limit = - 1 then set_common self (c\<lparr>cd_kill_begin_time := Some now\<rparr>) s
     else if limit = - 2 then do {
       t \<leftarrow> cd_kill_begin_time c;
       put_stat self [Str ''RANDOM KILL MEASURED '', Dec (uint (now - t)), Str '' CYCLES''] s
     }
     else if limit = 0 then None
     else let (r, w) = pl_lrand48 A (sy_sim s); kill_time = r mod \<bar>limit\<bar> in do {
       s1 \<leftarrow> put_stat self [Str ''RANDOM KILL IN '', Dec kill_time, Str '' CYCLES'', Endl] (s\<lparr>sy_sim := w\<rparr>);
       Some (sim_call (Post_kill (mc_cpu mc) kill_time self) s1)
     }
   }"

definition magic_shutdown_unsafe :: "obj \<Rightarrow> 'w system \<Rightarrow> 'w system option" where
  "magic_shutdown_unsafe self s = do {
     c \<leftarrow> common_of s self;
     set_common self (c\<lparr>cd_kill_safe_level := cd_kill_safe_level c + 1\<rparr>) s
   }"

definition magic_shutdown_safe :: "obj \<Rightarrow> 'w system \<Rightarrow> 'w system option" where
  "magic_shutdown_safe self s = do {
     c \<leftarrow> common_of s self;
     s1 \<leftarrow> set_common self (c\<lparr>cd_kill_safe_level := cd_kill_safe_level c - 1\<rparr>) s;
     if cd_kill_safe_level c - 1 = 0 \<and> cd_kill_imminent c then osa_random_kill self s1 else Some s1
   }"

section \<open>The callback\<close>

definition magic_random :: "'w platform \<Rightarrow> 'w system \<Rightarrow> 'w system" where
  "magic_random A s =
     (let (r, w) = pl_rand A (sy_sim s) in s\<lparr>sy_sim := w, sy_machine := osa_write_register EBX r (sy_machine s)\<rparr>)"

primrec magic_case :: "'w platform \<Rightarrow> (handler \<Rightarrow> 'w body) \<Rightarrow> obj \<Rightarrow> u64 \<Rightarrow> magic \<Rightarrow> 'w system \<Rightarrow> 'w system option" where
  "magic_case A call self code (M_print all_flag) s = magic_print A self all_flag s"
| "magic_case A call self code (M_clear all_flag) s = dispatch_all A call self Clear_stat all_flag s"
| "magic_case A call self code (M_output all_flag) s = dispatch_all A call self Output_stat all_flag s"
| "magic_case A call self code M_killsim s = set_idle_callback self s"
| "magic_case A call self code M_breaksim s = Some (sim_call (Break ''OSA Magic Breakpoint Requested.'') s)"
| "magic_case A call self code M_benchmark s = magic_benchmark A call self s"
| "magic_case A call self code M_network s = magic_network self s"
| "magic_case A call self code M_grub s = magic_grub self s"
| "magic_case A call self code M_num_char s = magic_num_char A self s"
| "magic_case A call self code M_stack_trace s = stack_trace A self s"
| "magic_case A call self code (M_thread start) s = magic_thread self start s"
| "magic_case A call self code M_preload s = magic_preload self s"
| "magic_case A call self code M_toggle_disk s = magic_toggle_disk A self s"
| "magic_case A call self code M_sched s = magic_sched A call self s"
| "magic_case A call self code M_fork s = magic_fork A call self s"
| "magic_case A call self code M_timer s = dispatch_os self (plain_os (\<lambda>m om. Some (os_timer om))) s"
| "magic_case A call self code M_kstat s = dispatch_os self os_kstat s"
| "magic_case A call self code M_kstat_2_4 s = dispatch_os self os_kstat_2_4 s"
| "magic_case A call self code M_task_state s = dispatch_os self (plain_os os_task_state) s"
| "magic_case A call self code M_cur_syscall s = dispatch_os self (plain_os os_cur_syscall) s"
| "magic_case A call self code M_enter_sched s = dispatch_os self (plain_os os_enter_sched) s"
| "magic_case A call self code M_exit_switch_to s = dispatch_os self (plain_os os_exit_switch_to) s"
| "magic_case A call self code M_kernel_boot s = magic_kernel_boot A call self s"
| "magic_case A call self code M_register_spinlock s = dispatch_syncchar A call self Sc_register_spinlock s"
| "magic_case A call self code M_exit s = magic_exit A call self s"
| "magic_case A call self code (M_txm f) s = dispatch_osatxm A call self f s"
| "magic_case A call self code (M_txm2 f) s = dispatch_osatxm2 A call self f code s"
| "magic_case A call self code M_random s = Some (magic_random A s)"
| "magic_case A call self code M_debug_print s = magic_debug_print A s"
| "magic_case A call self code M_protect s = magic_protect A self s"
| "magic_case A call self code M_unprotect s = magic_unprotect s"
| "magic_case A call self code (M_suspend b) s = magic_suspend self b s"
| "magic_case A call self code M_sigsegv s = magic_sigsegv self s"
| "magic_case A call self code M_clear_map s = dispatch_syncchar A call self Sc_clear_map s"
| "magic_case A call self code M_load_map s = dispatch_syncchar A call self Sc_load_map s"
| "magic_case A call self code M_shutdown_begin s = magic_shutdown_begin A self s"
| "magic_case A call self code M_shutdown_unsafe s = magic_shutdown_unsafe self s"
| "magic_case A call self code M_shutdown_safe s = magic_shutdown_safe self s"

text \<open>The log file is opened and closed for every instruction; if it cannot be opened, a null pointer is closed.\<close>

definition magic_callback :: "'w platform \<Rightarrow> (handler \<Rightarrow> 'w body) \<Rightarrow> obj \<Rightarrow> 'w system \<Rightarrow> 'w system option" where
  "magic_callback A call self s =
     (if sy_log s = None then None
      else let code = mc_regs (sy_machine s) ESI
        in case decode code of
             Some mg \<Rightarrow> magic_case A call self code mg s
           | None \<Rightarrow>
               if code \<in> set bios_codes then Some s
               else Some (con [Str ''[common] odd magic breakpoint 0x'', Hex (ucast (ucast code :: u32)), Str NL] s))"

end
