(* ===== verification/Dispatch.thy ===== *)
theory Dispatch
  imports Magic
begin

text \<open>
  What the dispatcher guarantees: the walk over the module list, the handlers that reach exactly the modules of one
  machine (locale \<open>own_module\<close>, interpreted on the bodies of the loops), the watchpoints and the random shutdown.
\<close>

section \<open>The module list\<close>

text \<open>The modules from \<open>cur\<close> on, in the order of the links.\<close>

fun mod_chain :: "'w system \<Rightarrow> obj option \<Rightarrow> obj list \<Rightarrow> bool" where
  "mod_chain s cur [] \<longleftrightarrow> cur = None"
| "mod_chain s cur (p # ps) \<longleftrightarrow> cur = Some p \<and> (\<exists>m. md_at s p = Some m \<and> mod_chain s (md_next m) ps)"

fun run_list :: "'w body \<Rightarrow> obj list \<Rightarrow> 'w system \<Rightarrow> 'w system option" where
  "run_list f [] s = Some s"
| "run_list f (p # ps) s = do { s1 \<leftarrow> f p s; run_list f ps s1 }"

definition same_links :: "'w system \<Rightarrow> 'w system \<Rightarrow> bool" where
  "same_links s s' \<longleftrightarrow> sy_head s' = sy_head s \<and> (\<forall>p. map_option md_next (md_at s' p) = map_option md_next (md_at s p))"

lemma same_links_refl [simp]: "same_links s s"
  by (simp add: same_links_def)

lemma same_links_trans: "same_links s t \<Longrightarrow> same_links t u \<Longrightarrow> same_links s u"
  by (simp add: same_links_def)

lemma same_links_next:
  assumes "same_links s s'" "md_at s p = Some m"
  shows "\<exists>m'. md_at s' p = Some m' \<and> md_next m' = md_next m"
proof -
  have "map_option md_next (md_at s' p) = Some (md_next m)" using assms by (simp add: same_links_def)
  then show ?thesis by auto
qed

lemma mod_chain_links: "same_links s s' \<Longrightarrow> mod_chain s cur ps \<Longrightarrow> mod_chain s' cur ps"
proof (induction ps arbitrary: cur)
  case (Cons p ps)
  then obtain m where m: "cur = Some p" "md_at s p = Some m" "mod_chain s (md_next m) ps" by auto
  obtain m' where "md_at s' p = Some m'" "md_next m' = md_next m" using same_links_next[OF Cons.prems(1) m(2)] by blast
  then show ?case using m Cons.IH[OF Cons.prems(1) m(3)] by simp
qed simp

lemma mod_loop_chain:
  assumes f: "\<And>p s s'. f p s = Some s' \<Longrightarrow> same_links s s'"
  shows "mod_chain s cur ps \<Longrightarrow> mod_loop f cur s = run_list f ps s"
proof (induction ps arbitrary: cur s)
  case Nil
  then show ?case by (simp add: mod_loop.simps)
next
  case (Cons p ps)
  then obtain m where m: "cur = Some p" "md_at s p = Some m" "mod_chain s (md_next m) ps" by auto
  show ?case
  proof (cases "f p s")
    case None
    then show ?thesis using m(1) by (simp add: mod_loop.simps)
  next
    case (Some s1)
    have l: "same_links s s1" using f[OF Some] .
    obtain m' where m': "md_at s1 p = Some m'" "md_next m' = md_next m" using same_links_next[OF l m(2)] by blast
    have "mod_loop f (md_next m') s1 = run_list f ps s1"
      using Cons.IH mod_chain_links[OF l m(3)] m'(2) by simp
    then show ?thesis using Some m(1) m'(1) by (subst mod_loop.simps) simp
  qed
qed

lemma for_modules_chain:
  "(\<And>p s s'. f p s = Some s' \<Longrightarrow> same_links s s') \<Longrightarrow> mod_chain s (sy_head s) ps \<Longrightarrow> for_modules f s = run_list f ps s"
  by (simp add: for_modules_def OSA_mod_list_def mod_loop_chain)

text \<open>A set of modules that the links do not leave is never left.\<close>

definition closed_links :: "'w system \<Rightarrow> obj set \<Rightarrow> bool" where
  "closed_links s C \<longleftrightarrow> (\<forall>q \<in> C. \<exists>m. md_at s q = Some m \<and> (\<exists>r \<in> C. md_next m = Some r))"

lemma closed_links_same: "same_links s s' \<Longrightarrow> closed_links s C \<Longrightarrow> closed_links s' C"
  unfolding closed_links_def using same_links_next by metis

lemma mod_loop_closed:
  assumes f: "\<forall>p s s'. f p s = Some s' \<longrightarrow> same_links s s'" and c: "closed_links s C" "q \<in> C"
  shows "mod_loop f (Some q) s = None"
proof (rule ccontr)
  assume "mod_loop f (Some q) s \<noteq> None"
  then obtain t where t: "mod_loop f (Some q) s = Some t" by blast
  let ?P = "\<lambda>g cur s t. (\<forall>p s s'. g p s = Some s' \<longrightarrow> same_links s s') \<longrightarrow> closed_links s C \<longrightarrow> (\<forall>q \<in> C. cur \<noteq> Some q)"
  have "?P f (Some q) s t"
  proof (rule mod_loop.raw_induct[where P = ?P, OF _ t], intro impI ballI notI)
    fix loop :: "('a body) \<Rightarrow> obj option \<Rightarrow> 'a system \<Rightarrow> 'a system option" and g cur s t q
    assume IH: "\<And>g cur s t. loop g cur s = Some t \<Longrightarrow> ?P g cur s t"
      and body: "(case cur of None \<Rightarrow> Some s
          | Some p \<Rightarrow> g p s \<bind> (\<lambda>s1. md_at s1 p \<bind> (\<lambda>m. loop g (md_next m) s1))) = Some t"
      and g: "\<forall>p s s'. g p s = Some s' \<longrightarrow> same_links s s'" and cl: "closed_links s C" and q: "q \<in> C" and cur: "cur = Some q"
    from body cur obtain s1 m where s1: "g q s = Some s1" "md_at s1 q = Some m" "loop g (md_next m) s1 = Some t"
      by (auto split: bind_splits)
    have "closed_links s1 C" using closed_links_same g s1(1) cl by blast
    moreover from this obtain r where "r \<in> C" "md_next m = Some r" using q s1(2) by (auto simp: closed_links_def)
    ultimately show False using IH[OF s1(3)] g by blast
  qed
  then show False using f c by blast
qed

lemma chain_members: "mod_chain s cur ps \<Longrightarrow> p \<in> set ps \<Longrightarrow> md_at s p \<noteq> None"
  by (induction ps arbitrary: cur) auto

text \<open>Every module of a chain but the last leads to another one of it.\<close>

lemma chain_next:
  assumes "mod_chain s cur ps" "p \<in> set ps" "md_at s p = Some m"
  shows "md_next m = None \<or> (\<exists>r \<in> set ps. md_next m = Some r)"
  using assms
proof (induction ps arbitrary: cur)
  case (Cons a ps)
  then obtain n where n: "md_at s a = Some n" "mod_chain s (md_next n) ps" by auto
  have "md_next n = None \<or> (\<exists>r \<in> set ps. md_next n = Some r)" using n(2) by (cases ps) auto
  then show ?case using Cons n by (cases "p = a") auto
qed simp

lemma chain_split:
  "mod_chain s cur (xs @ p # ys) \<Longrightarrow> mod_chain s (Some p) (p # ys) \<and>
     (\<forall>q \<in> set xs. \<exists>m. md_at s q = Some m \<and> (\<exists>r \<in> set (xs @ [p]). md_next m = Some r))"
proof (induction xs arbitrary: cur)
  case (Cons a xs)
  then obtain m where m: "md_at s a = Some m" "mod_chain s (md_next m) (xs @ p # ys)" by auto
  have "\<exists>r \<in> set (xs @ [p]). md_next m = Some r" using m(2) by (cases xs) auto
  then show ?case using Cons.IH[OF m(2)] m(1) by auto
qed auto

lemma md_at_set_mod [simp]: "md_at (set_mod p m s) q = (if q = p then Some m else md_at s q)"
  by (simp add: md_at_def set_mod_def update_conv)

lemma set_mod_fields [simp]:
  "sy_head (set_mod p m s) = sy_head s" "sy_machine (set_mod p m s) = sy_machine s" "sy_sim (set_mod p m s) = sy_sim s"
  "sy_bps (set_mod p m s) = sy_bps s" "sy_suspend (set_mod p m s) = sy_suspend s" "sy_calls (set_mod p m s) = sy_calls s"
  "sy_log (set_mod p m s) = sy_log s"
  by (simp_all add: set_mod_def)

lemma md_at_fields [simp]:
  "md_at (s\<lparr>sy_head := h\<rparr>) = md_at s" "md_at (s\<lparr>sy_machine := mc\<rparr>) = md_at s" "md_at (s\<lparr>sy_sim := w\<rparr>) = md_at s"
  "md_at (s\<lparr>sy_calls := cs\<rparr>) = md_at s" "md_at (s\<lparr>sy_bps := bs\<rparr>) = md_at s" "md_at (s\<lparr>sy_suspend := ss\<rparr>) = md_at s"
  "md_at (s\<lparr>sy_log := l\<rparr>) = md_at s"
  by (simp_all add: md_at_def fun_eq_iff)

lemma chain_after_add:
  assumes "mod_chain s cur ps" "p \<notin> set ps"
  shows "mod_chain ((set_mod p m s)\<lparr>sy_head := h\<rparr>) cur ps"
  using assms by (induction ps arbitrary: cur) auto

text \<open>
  C15.  With a well-formed list the loop over the modules runs its body on each of them once, in the order of the list,
  whatever the body does to the modules as long as it leaves the links alone.  Registering a module that is not in
  the list puts it in front.  Registering one that is already there closes a cycle, and from then on no loop over the
  modules ends.
\<close>

theorem module_list_walk:
  assumes "mod_chain s (sy_head s) ps" "\<forall>p s s'. f p s = Some s' \<longrightarrow> same_links s s'"
  shows "for_modules f s = run_list f ps s \<and>
    (\<forall>p s'. OSA_add_mod p s = Some s' \<longrightarrow> for_modules f s' = (if p \<in> set ps then None else run_list f (p # ps) s'))"
proof (intro conjI allI impI)
  show "for_modules f s = run_list f ps s" using for_modules_chain assms by blast
  fix p s' assume a: "OSA_add_mod p s = Some s'"
  then obtain m where m: "md_at s p = Some m" and s': "s' = (set_mod p (m\<lparr>md_next := sy_head s\<rparr>) s)\<lparr>sy_head := Some p\<rparr>"
    by (auto simp: OSA_add_mod_def)
  show "for_modules f s' = (if p \<in> set ps then None else run_list f (p # ps) s')"
  proof (cases "p \<in> set ps")
    case False
    have "mod_chain s' (sy_head s') (p # ps)"
      using chain_after_add[OF assms(1) False] s' by simp
    then show ?thesis using for_modules_chain[of f s' "p # ps"] assms(2) False by simp
  next
    case True
    then obtain xs ys where ps: "ps = xs @ p # ys" "p \<notin> set xs" by (meson split_list_first)
    have "\<exists>r \<in> insert p (set xs). sy_head s = Some r" using assms(1) ps(1) by (cases xs) auto
    moreover have "\<forall>q \<in> set xs. \<exists>m. md_at s q = Some m \<and> (\<exists>r \<in> insert p (set xs). md_next m = Some r)"
      using chain_split[of s "sy_head s" xs p ys] assms(1) ps(1) by auto
    ultimately have "closed_links s' (insert p (set xs))" using s' ps(2) by (auto simp: closed_links_def)
    then have "mod_loop f (Some p) s' = None" using mod_loop_closed[OF assms(2)] by blast
    then show ?thesis using True s' by (simp add: for_modules_def OSA_mod_list_def)
  qed
qed

section \<open>Bodies that change their own module only\<close>

text \<open>
  The contract of a loop body: it changes no module but the one it is called for, and of that one neither the link nor
  the machine.  The loop then runs it once for each module of the list, and each module keeps what its own call did.
\<close>

locale own_module =
  fixes f :: "obj \<Rightarrow> 'w system \<Rightarrow> 'w system option"
  assumes head: "f p s = Some s' \<Longrightarrow> sy_head s' = sy_head s"
    and others: "f p s = Some s' \<Longrightarrow> q \<noteq> p \<Longrightarrow> md_at s' q = md_at s q"
    and own: "f p s = Some s' \<Longrightarrow> md_at s p = Some m \<Longrightarrow>
      \<exists>m'. md_at s' p = Some m' \<and> md_next m' = md_next m \<and> md_system m' = md_system m \<and> md_type m' = md_type m"
    and absent: "md_at s p = None \<Longrightarrow> f p s = None"
begin

lemma links: "f p s = Some s' \<Longrightarrow> same_links s s'"
proof -
  assume a: "f p s = Some s'"
  then obtain m where m: "md_at s p = Some m" using absent by fastforce
  obtain m' where "md_at s' p = Some m'" "md_next m' = md_next m" using own[OF a m] by blast
  then have "map_option md_next (md_at s' q) = map_option md_next (md_at s q)" for q
    using others[OF a, of q] m by (cases "q = p") auto
  then show ?thesis using head[OF a] by (simp add: same_links_def)
qed

lemma machines: "f p s = Some s' \<Longrightarrow> map_option md_system (md_at s' q) = map_option md_system (md_at s q)"
  using own[of p s s'] others[of p s s' q] absent[of s p] by (cases "md_at s p"; cases "q = p") fastforce+

lemma loop: "mod_chain s (sy_head s) ps \<Longrightarrow> for_modules f s = run_list f ps s"
  using for_modules_chain links by blast

lemma run_others: "run_list f ps s = Some s' \<Longrightarrow> q \<notin> set ps \<Longrightarrow> md_at s' q = md_at s q"
  by (induction ps arbitrary: s) (auto split: bind_splits dest: others[where q = q])

lemma run_links: "run_list f ps s = Some s' \<Longrightarrow> same_links s s'"
proof (induction ps arbitrary: s)
  case (Cons p ps)
  then obtain s1 where "f p s = Some s1" "run_list f ps s1 = Some s'" by (auto split: bind_splits)
  then show ?case using Cons.IH links same_links_trans by blast
qed simp

lemma run_machines: "run_list f ps s = Some s' \<Longrightarrow> map_option md_system (md_at s' q) = map_option md_system (md_at s q)"
  by (induction ps arbitrary: s) (auto split: bind_splits dest: machines[where q = q])

text \<open>A module of the list is as its own call left it, and that call found it as it was before the loop.\<close>

lemma run_own:
  assumes "run_list f ps s = Some s'" "distinct ps" "q \<in> set ps"
  shows "\<exists>xs ys s1 s2. ps = xs @ q # ys \<and> run_list f xs s = Some s1 \<and> f q s1 = Some s2 \<and> md_at s1 q = md_at s q \<and> md_at s' q = md_at s2 q"
  using assms
proof (induction ps arbitrary: s)
  case (Cons p ps)
  then obtain t where t: "f p s = Some t" "run_list f ps t = Some s'" by (auto split: bind_splits)
  show ?case
  proof (cases "q = p")
    case True
    then have "md_at s' q = md_at t q" using run_others[OF t(2)] Cons.prems(2) by simp
    then show ?thesis using True t(1) by (intro exI[of _ "[]"] exI[of _ ps] exI[of _ s] exI[of _ t]) simp
  next
    case False
    then have "q \<in> set ps" "distinct ps" using Cons.prems by auto
    with Cons.IH[OF t(2)] obtain xs ys s1 s2 where
      "ps = xs @ q # ys" "run_list f xs t = Some s1" "f q s1 = Some s2" "md_at s1 q = md_at t q" "md_at s' q = md_at s2 q" by blast
    then show ?thesis using others[OF t(1) False] t(1)
      by (intro exI[of _ "p # xs"] exI[of _ ys] exI[of _ s1] exI[of _ s2]) simp
  qed
qed simp

end

lemma put_stat_own:
  "put_stat p out s = Some s' \<Longrightarrow>
     sy_head s' = sy_head s \<and> sy_machine s' = sy_machine s \<and> sy_calls s' = sy_calls s \<and> sy_sim s' = sy_sim s \<and>
     (\<exists>m st. md_at s p = Some m \<and> md_at s' p = Some (m\<lparr>md_stat := st\<rparr>) \<and> (\<forall>q. q \<noteq> p \<longrightarrow> md_at s' q = md_at s q))"
  by (auto simp: put_stat_def set_mod_def md_at_def update_conv split: bind_splits)

lemma put_or_skip_own:
  assumes "put_or_skip out p s = Some s'" "md_at s p = Some m"
  shows "sy_head s' = sy_head s \<and> sy_machine s' = sy_machine s \<and> sy_calls s' = sy_calls s \<and> sy_sim s' = sy_sim s \<and>
     (\<exists>st. md_at s' p = Some (m\<lparr>md_stat := st\<rparr>) \<and> (\<forall>q. q \<noteq> p \<longrightarrow> md_at s' q = md_at s q))"
proof (cases "out = []")
  case True
  then have "s' = s" "md_at s p = Some (m\<lparr>md_stat := md_stat m\<rparr>)" using assms by (simp_all add: put_or_skip_def)
  then show ?thesis by blast
next
  case False
  then show ?thesis using put_stat_own[of p out s s'] assms by (auto simp: put_or_skip_def)
qed

text \<open>What \<open>with_os\<close> does to the module.\<close>

definition os_view :: "module \<Rightarrow> osamod" where
  "os_view m = (md_om m)\<lparr>om_common := (md_type m = COMMON), om_stat := [], om_console := [], om_breaks := []\<rparr>"

lemma con_fields [simp]:
  "md_at (con out s) = md_at s" "sy_head (con out s) = sy_head s" "sy_calls (con out s) = sy_calls s" "sy_sim (con out s) = sy_sim s"
  "sy_bps (con out s) = sy_bps s" "sy_suspend (con out s) = sy_suspend s"
  by (simp_all add: con_def)

lemma with_os_result:
  assumes "with_os g p s = Some s'"
  shows "\<exists>m o1 mc st. md_at s p = Some m \<and> g (sy_machine s) (os_view m) = Some (o1, mc) \<and>
    md_at s' p = Some (m\<lparr>md_om := o1, md_stat := st\<rparr>) \<and> (\<forall>q. q \<noteq> p \<longrightarrow> md_at s' q = md_at s q) \<and> sy_head s' = sy_head s \<and>
    sy_machine s' = mc\<lparr>mc_out := mc_out mc @ om_console o1\<rparr> \<and> sy_calls s' = sy_calls s @ map Break (om_breaks o1)"
proof -
  from assms obtain m o1 mc where m: "md_at s p = Some m" and g: "g (sy_machine s) (os_view m) = Some (o1, mc)"
    and r: "put_or_skip (om_stat o1) p (con (om_console o1) ((set_mod p (m\<lparr>md_om := o1\<rparr>) s)\<lparr>sy_machine := mc,
         sy_calls := sy_calls s @ map Break (om_breaks o1)\<rparr>)) = Some s'"
    by (auto simp: with_os_def os_view_def split: bind_splits)
  from put_or_skip_own[OF r, of "m\<lparr>md_om := o1\<rparr>"] show ?thesis
    using m g by (auto simp: con_def)
qed

lemma own_with_os: "own_module (with_os g)"
proof
  fix p q :: obj and s s' :: "'a system" and m
  show "with_os g p s = Some s' \<Longrightarrow> sy_head s' = sy_head s" using with_os_result by blast
  show "with_os g p s = Some s' \<Longrightarrow> q \<noteq> p \<Longrightarrow> md_at s' q = md_at s q" using with_os_result by blast
  show "with_os g p s = Some s' \<Longrightarrow> md_at s p = Some m \<Longrightarrow>
      \<exists>m'. md_at s' p = Some m' \<and> md_next m' = md_next m \<and> md_system m' = md_system m \<and> md_type m' = md_type m"
    using with_os_result[of g p s s'] by auto
  show "md_at s p = None \<Longrightarrow> with_os g p s = None" by (simp add: with_os_def)
qed

lemma own_on_machine:
  assumes "own_module f"
  shows "own_module (on_machine self f)"
proof -
  have r: "f p s = Some s' \<or> s' = s" "md_at s p \<noteq> None" if "on_machine self f p s = Some s'" for p s s'
    using that by (auto simp: on_machine_def same_machine_def split: bind_splits if_splits)
  show ?thesis
  proof
    fix p q :: obj and s s' :: "'a system" and m
    assume a: "on_machine self f p s = Some s'"
    show "sy_head s' = sy_head s" using r(1)[OF a] own_module.head[OF assms] by blast
    show "md_at s' q = md_at s q" if "q \<noteq> p" using r(1)[OF a] own_module.others[OF assms] that by blast
    show "\<exists>m'. md_at s' p = Some m' \<and> md_next m' = md_next m \<and> md_system m' = md_system m \<and> md_type m' = md_type m"
      if "md_at s p = Some m" using r(1)[OF a] own_module.own[OF assms] that by blast
  next
    fix p :: obj and s :: "'a system"
    show "on_machine self f p s = None" if "md_at s p = None"
      using that by (cases "md_at s self") (simp_all add: on_machine_def same_machine_def)
  qed
qed

interpretation osv: own_module "on_machine self (with_os g)" for self g
  by (rule own_on_machine[OF own_with_os])

text \<open>
  C12.  A magic instruction that reports to the operating system model runs the handler once for every module of the
  machine it was executed on, in the order of the module list, on the process table of that module; the modules of other
  machines and modules that are not registered keep their state.
\<close>

theorem dispatch_os_reaches:
  assumes "mod_chain s (sy_head s) ps" "distinct ps" "dispatch_os self g s = Some s'" "md_at s self = Some me"
    and "md_at s q = Some m"
  shows "if q \<in> set ps \<and> md_system me = md_system m
    then \<exists>xs ys s1 o1 mc st. ps = xs @ q # ys \<and> run_list (on_machine self (with_os g)) xs s = Some s1 \<and>
           g (sy_machine s1) (os_view m) = Some (o1, mc) \<and> md_at s' q = Some (m\<lparr>md_om := o1, md_stat := st\<rparr>)
    else md_at s' q = Some m"
proof -
  have run: "run_list (on_machine self (with_os g)) ps s = Some s'"
    using osv.loop[OF assms(1)] assms(3) by (simp add: dispatch_os_def)
  show ?thesis
  proof (cases "q \<in> set ps")
    case False
    then show ?thesis using osv.run_others[OF run] assms(5) by simp
  next
    case True
    obtain xs ys s1 s2 where x: "ps = xs @ q # ys" "run_list (on_machine self (with_os g)) xs s = Some s1"
      "on_machine self (with_os g) q s1 = Some s2" "md_at s1 q = md_at s q" "md_at s' q = md_at s2 q"
      using osv.run_own[OF run assms(2) True] by blast
    have "map_option md_system (md_at s1 self) = Some (md_system me)"
      using osv.run_machines[OF x(2)] assms(4) by simp
    then obtain me1 where me1: "md_at s1 self = Some me1" "md_system me1 = md_system me" by auto
    show ?thesis
    proof (cases "md_system me = md_system m")
      case same: True
      then have "with_os g q s1 = Some s2"
        using x(3,4) me1 assms(5) by (simp add: on_machine_def same_machine_def sameMachine_def)
      from with_os_result[OF this] show ?thesis using same True x assms(5) by auto
    next
      case other: False
      then have "s2 = s1" using x(3,4) me1 assms(5) by (simp add: on_machine_def same_machine_def sameMachine_def)
      then show ?thesis using other x(4,5) assms(5) by simp
    qed
  qed
qed

section \<open>Watchpoints\<close>

text \<open>The watchpoints, sorted by address, do not overlap, the byte behind the end included.\<close>

definition disjoint_watches :: "(int \<times> watchpoint) list \<Rightarrow> bool" where
  "disjoint_watches bs \<longleftrightarrow> sorted_wrt (\<lambda>x y. wp_end (snd x) < wp_addr (snd y)) bs"

lemma find_watch_member: "find_watch bs a = Some wp \<Longrightarrow> \<exists>x \<in> set bs. snd x = wp \<and> covers wp a"
  by (induction bs) (auto split: if_splits)

lemma find_watch_none: "find_watch bs a = None \<longleftrightarrow> (\<forall>x \<in> set bs. \<not> covers (snd x) a)"
  by (induction bs) auto

lemma find_watch_unique:
  assumes "disjoint_watches bs" "x \<in> set bs" "covers (snd x) a"
  shows "find_watch bs a = Some (snd x)"
  using assms by (induction bs) (auto simp: disjoint_watches_def covers_def)

lemma current_of_result:
  assumes "md_at s p = Some m"
  shows "\<exists>s1. current_of n p s = Some (fst (current_at n (om_os (md_om m))), s1) \<and> sy_calls s1 = sy_calls s"
  using assms by (auto simp: current_of_def split: prod.splits)


section \<open>Random shutdown\<close>

text \<open>The timer that ends the simulation, and entering and leaving a section in which it must not.\<close>

datatype kill_event = Kill | Unsafe | Safe

primrec kill_do :: "obj \<Rightarrow> kill_event \<Rightarrow> 'w system \<Rightarrow> 'w system option" where
  "kill_do self Kill s = osa_random_kill self s"
| "kill_do self Unsafe s = magic_shutdown_unsafe self s"
| "kill_do self Safe s = magic_shutdown_safe self s"

fun kill_run :: "obj \<Rightarrow> kill_event list \<Rightarrow> 'w system \<Rightarrow> 'w system option" where
  "kill_run self [] s = Some s"
| "kill_run self (e # es) s = do { s1 \<leftarrow> kill_do self e s; kill_run self es s1 }"

text \<open>The number of sections entered and not left.\<close>

definition level :: "kill_event list \<Rightarrow> int" where
  "level es = int (count_list es Unsafe) - int (count_list es Safe)"

lemma level_simps [simp]:
  "level [] = 0" "level (es @ [Kill]) = level es" "level (es @ [Unsafe]) = level es + 1" "level (es @ [Safe]) = level es - 1"
  by (simp_all add: level_def)

lemma kill_run_snoc: "kill_run self (es @ [e]) s = Option.bind (kill_run self es s) (kill_do self e)"
  by (induction es arbitrary: s) (auto split: bind_splits)

lemma common_set [simp]: "md_at s p = Some m \<Longrightarrow> set_common p c s = Some (set_mod p (m\<lparr>md_common := Some c\<rparr>) s)"
  by (simp add: set_common_def)

abbreviation kill_break :: sim_call where "kill_break \<equiv> Break ''RANDOM_KILL_INVOKED''"

definition kill_ok :: "obj \<Rightarrow> sim_call list \<Rightarrow> kill_event list \<Rightarrow> 'w system \<Rightarrow> bool" where
  "kill_ok self calls es s \<longleftrightarrow>
     (\<exists>m c bs. md_at s self = Some m \<and> md_common m = Some c \<and> cd_kill_safe_level c = level es \<and> sy_calls s = calls @ bs \<and>
        set bs \<subseteq> {kill_break} \<and> (Kill \<in> set es \<longrightarrow> bs = [] \<longrightarrow> cd_kill_imminent c \<and> level es \<noteq> 0) \<and>
        (Kill \<notin> set es \<longrightarrow> bs = [] \<and> \<not> cd_kill_imminent c))"

lemma kill_ok_step:
  assumes ok: "kill_ok self calls es s" and "0 \<le> level es" "0 \<le> level (es @ [e])"
  shows "\<exists>s'. kill_do self e s = Some s' \<and> kill_ok self calls (es @ [e]) s' \<and> (level (es @ [e]) \<noteq> 0 \<longrightarrow> sy_calls s' = sy_calls s)"
proof -
  from ok obtain m c bs where m: "md_at s self = Some m" "md_common m = Some c" "cd_kill_safe_level c = level es"
    "sy_calls s = calls @ bs" "set bs \<subseteq> {kill_break}" "Kill \<in> set es \<longrightarrow> bs = [] \<longrightarrow> cd_kill_imminent c \<and> level es \<noteq> 0"
    "Kill \<notin> set es \<longrightarrow> bs = [] \<and> \<not> cd_kill_imminent c" unfolding kill_ok_def by blast
  have c: "common_of s self = Some c" using m by (simp add: common_of_def)
  show ?thesis
  proof (cases e)
    case Kill
    then show ?thesis using m c
      by (cases "level es = 0") (auto simp: osa_random_kill_def kill_ok_def sim_call_def)
  next
    case Unsafe
    then show ?thesis using m c assms(2)
      by (auto simp: magic_shutdown_unsafe_def kill_ok_def)
  next
    case Safe
    then show ?thesis using m c assms(3)
      by (auto simp: magic_shutdown_safe_def osa_random_kill_def kill_ok_def sim_call_def common_of_def)
  qed
qed

text \<open>
  C18.  However the timer of the random shutdown and the sections that forbid it interleave, as long as no section is left
  that was not entered: the simulation is stopped only outside all sections; a timer that expired has stopped it at the
  latest when the last section is left; and without an expired timer it is not stopped.
\<close>

theorem shutdown_deferred:
  assumes "md_at s self = Some m" "md_common m = Some c" "cd_kill_safe_level c = 0" "\<not> cd_kill_imminent c"
    and "\<forall>k \<le> length es. 0 \<le> level (take k es)"
  shows "\<exists>s' bs. kill_run self es s = Some s' \<and> sy_calls s' = sy_calls s @ bs \<and> set bs \<subseteq> {kill_break} \<and>
    (Kill \<in> set es \<and> level es = 0 \<longrightarrow> bs \<noteq> []) \<and> (Kill \<notin> set es \<longrightarrow> bs = []) \<and>
    (\<forall>e s''. kill_do self e s' = Some s'' \<and> 0 < level (es @ [e]) \<longrightarrow> sy_calls s'' = sy_calls s')"
proof -
  have "\<exists>s'. kill_run self es s = Some s' \<and> kill_ok self (sy_calls s) es s'"
    using assms(5)
  proof (induction es rule: rev_induct)
    case Nil
    then show ?case using assms(1-4) by (auto simp: kill_ok_def)
  next
    case (snoc e es)
    have pre: "\<forall>k \<le> length es. 0 \<le> level (take k es)"
      using snoc.prems by (metis (no_types, lifting) length_append_singleton le_SucI take_append append_Nil2 diff_is_0_eq take0 take_0)
    then obtain s1 where s1: "kill_run self es s = Some s1" "kill_ok self (sy_calls s) es s1" using snoc.IH by blast
    have "0 \<le> level es" "0 \<le> level (es @ [e])"
      using pre[rule_format, of "length es"] snoc.prems[rule_format, of "length (es @ [e])"] by simp_all
    from kill_ok_step[OF s1(2) this] show ?case using s1(1) by (auto simp: kill_run_snoc)
  qed
  then obtain s' where s': "kill_run self es s = Some s'" "kill_ok self (sy_calls s) es s'" by blast
  have l: "0 \<le> level es" using assms(5)[rule_format, of "length es"] by simp
  have "sy_calls s'' = sy_calls s'" if "kill_do self e s' = Some s''" "0 < level (es @ [e])" for e s''
    using kill_ok_step[OF s'(2) l, of e] that by auto
  then show ?thesis using s' unfolding kill_ok_def by blast
qed

section \<open>Examples\<close>

text \<open>A machine with one processor, the common module \<open>c\<close> and a second module \<open>t\<close>, and a module \<open>u\<close> of another machine.\<close>

definition om_demo :: osamod where
  "om_demo = \<lparr>om_os = init_procs [7], om_minfo = [7], om_ctxtsws = [], om_common = False, om_periodic = [], om_stat = [],
     om_console = [], om_breaks = []\<rparr>"

definition md_common_demo :: module where
  "md_common_demo = (new_common_module 0 0 om_demo cm_demo)\<lparr>md_system := Some ''board0''\<rparr>"

definition md_plain :: "obj \<Rightarrow> obj option \<Rightarrow> module" where
  "md_plain board nxt = md_common_demo\<lparr>md_type := SYNCCOUNT, md_system := Some board, md_next := nxt, md_common := None\<rparr>"

definition sy_demo :: "unit system" where
  "sy_demo = \<lparr>sy_mods = [(''c'', md_common_demo), (''t'', md_plain ''board0'' (Some ''u'')), (''u'', md_plain ''board1'' (Some ''c''))],
     sy_head = Some ''t'', sy_machine = mc_demo\<lparr>mc_cpu := 7\<rparr>, sy_sim = (),
     sy_bps = [(100, \<lparr>wp_addr = 100, wp_len = 8, wp_pid = 0, wp_bp = 1\<rparr>), (200, \<lparr>wp_addr = 200, wp_len = 4, wp_pid = 3, wp_bp = 2\<rparr>)],
     sy_suspend = replicate 32 0, sy_trace = 0, sy_log = Some [], sy_calls = []\<rparr>"

lemma sy_demo_at [simp]:
  "md_at sy_demo ''c'' = Some md_common_demo" "md_at sy_demo ''t'' = Some (md_plain ''board0'' (Some ''u''))"
  "md_at sy_demo ''u'' = Some (md_plain ''board1'' (Some ''c''))"
  by (simp_all add: md_at_def sy_demo_def)

lemma sy_demo_chain: "mod_chain sy_demo (sy_head sy_demo) [''t'', ''u'', ''c'']"
proof -
  have "sy_head sy_demo = Some ''t''" by (simp add: sy_demo_def)
  then show ?thesis by (simp add: md_plain_def md_common_demo_def new_common_module_def)
qed

definition os_tick :: "machine \<Rightarrow> osamod \<Rightarrow> (osamod \<times> machine) option" where
  "os_tick = plain_os (\<lambda>m om. Some (os_timer om))"

theorem module_list_walk_witness:
  "\<exists>s'. OSA_add_mod ''u'' sy_demo = Some s' \<and> for_modules (with_os os_tick) s' = None"
proof -
  have l: "\<forall>p s s'. with_os os_tick p s = Some s' \<longrightarrow> same_links s s'"
    using own_module.links[OF own_with_os] by blast
  obtain s' where "OSA_add_mod ''u'' sy_demo = Some s'" by (simp add: OSA_add_mod_def)
  then show ?thesis using module_list_walk[OF sy_demo_chain l] by (intro exI[of _ s']) simp
qed

theorem dispatch_os_reaches_witness:
  "\<exists>s' m. dispatch_os ''c'' os_tick sy_demo = Some s' \<and> md_at s' ''t'' = Some m \<and> timer_count (om_os (md_om m)) = 1 \<and>
     md_at s' ''u'' = Some (md_plain ''board1'' (Some ''c''))"
proof -
  note defs = md_plain_def md_common_demo_def new_common_module_def
  have d: "distinct [''t'', ''u'', ''c'']" by simp
  have run: "dispatch_os ''c'' os_tick sy_demo = run_list (on_machine ''c'' (with_os os_tick)) [''t'', ''u'', ''c''] sy_demo"
    unfolding dispatch_os_def by (rule osv.loop[OF sy_demo_chain])
  obtain s' where s': "dispatch_os ''c'' os_tick sy_demo = Some s'"
    unfolding run by (simp add: on_machine_def same_machine_def sameMachine_def defs with_os_def os_tick_def plain_os_def os_timer_def
        set_os_def put_or_skip_def)
  note reach = dispatch_os_reaches[OF sy_demo_chain d s' sy_demo_at(1)]
  have "md_at s' ''u'' = Some (md_plain ''board1'' (Some ''c''))"
    using reach[OF sy_demo_at(3)] by (simp add: defs)
  moreover obtain m where "md_at s' ''t'' = Some m" "timer_count (om_os (md_om m)) = 1"
    using reach[OF sy_demo_at(2)]
    by (auto simp: defs os_tick_def plain_os_def os_timer_def set_os_def os_view_def om_demo_def init_procs_def)
  ultimately show ?thesis using s' by blast
qed


theorem shutdown_deferred_witness:
  "\<exists>s'. kill_run ''c'' [Unsafe, Unsafe, Kill, Safe, Safe] sy_demo = Some s' \<and> sy_calls s' \<noteq> []"
proof -
  let ?es = "[Unsafe, Unsafe, Kill, Safe, Safe]"
  have m: "md_common md_common_demo = Some (new_common_data 0 0)" by (simp add: md_common_demo_def new_common_module_def)
  have c: "cd_kill_safe_level (new_common_data 0 0) = 0" "\<not> cd_kill_imminent (new_common_data 0 0)"
    by (simp_all add: new_common_data_def)
  have "0 \<le> level (take k ?es)" if "k \<le> length ?es" for k
  proof -
    have "k \<in> {0, 1, 2, 3, 4, 5}" using that by auto
    then show ?thesis by (auto simp: level_def)
  qed
  then show ?thesis using shutdown_deferred[OF sy_demo_at(1) m c, of ?es] by (auto simp: level_def)
qed

end
