(* ===== verification/SyncChar_Dispatch.thy ===== *)
theory SyncChar_Dispatch
  imports Dispatch SyncChar_Runs Os_Inv
begin

text \<open>
  The tracker and the process table behind the dispatcher: the callbacks that the tracker registers with the common
  module, run on a module of the system, and what a context switch does to both.
\<close>

section \<open>The tracker's interface\<close>

text \<open>The callbacks of \<^verbatim>\<open>common_syncchar_interface\<close> that need nothing but the processor and the tracker's state.\<close>

definition sc_handler :: "handler \<Rightarrow> env \<Rightarrow> syncchar \<Rightarrow> syncchar option" where
  "sc_handler h e sc = (case h of
       Sc_sched \<Rightarrow> osa_sched_callback e sc
     | Sc_fork \<Rightarrow> osa_fork_callback e sc
     | Sc_exit \<Rightarrow> osa_exit_callback e sc
     | Sc_after_boot \<Rightarrow> Some (osa_after_boot_callback sc)
     | Sc_clear_map \<Rightarrow> syncchar_clear_map_callback e sc
     | _ \<Rightarrow> None)"

text \<open>The callback on the module: the running process is that of the module's own table, its output goes to the module's log.\<close>

definition tracker_call :: "'w platform \<Rightarrow> handler \<Rightarrow> 'w body" where
  "tracker_call A h p s = do {
     m \<leftarrow> md_at s p;
     sc \<leftarrow> md_syncchar m;
     (spid, s1) \<leftarrow> current_of (getCpuNum (om_minfo (md_om m)) (mc_cpu (sy_machine s))) p s;
     m1 \<leftarrow> md_at s1 p;
     sc1 \<leftarrow> sc_handler h (env_of A (sy_machine s) m spid) (sc\<lparr>sc_log := []\<rparr>);
     put_or_skip (sc_log sc1) p (set_mod p (m1\<lparr>md_syncchar := Some (sc1\<lparr>sc_log := []\<rparr>)\<rparr>) s1)
   }"

definition sc_call :: "'w platform \<Rightarrow> (handler \<Rightarrow> 'w body) \<Rightarrow> handler \<Rightarrow> 'w body" where
  "sc_call A other h =
     (if h \<in> {Sc_sched, Sc_fork, Sc_exit, Sc_after_boot, Sc_clear_map} then tracker_call A h else other h)"

section \<open>Owners after a context switch\<close>

lemma sched_lock_owner:
  assumes "old \<noteq> new"
  shows "map_of (ad_lockmap (sched_lock old new a x)) addr = map_option (\<lambda>lk.
     if lk_spid_owner lk = old \<and> lk_name lk = RUNQUEUE_NAME \<and> addr = fst x then lk\<lparr>lk_spid_owner := new\<rparr> else lk)
     (map_of (ad_lockmap a) addr)"
proof (cases "map_of (ad_lockmap a) (fst x)")
  case None
  then show ?thesis by (cases "map_of (ad_lockmap a) addr") (auto simp: sched_lock_def)
next
  case (Some lk)
  then show ?thesis
    by (cases "map_of (ad_lockmap a) addr") (auto simp: sched_lock_def move_effect(3)[OF assms] set_lock_def update_conv)
qed

lemma sched_fold_owner:
  assumes "old \<noteq> new"
  shows "map_of (ad_lockmap (foldl (sched_lock old new) a xs)) addr = map_option (\<lambda>lk.
     if lk_spid_owner lk = old \<and> lk_name lk = RUNQUEUE_NAME \<and> addr \<in> fst ` set xs then lk\<lparr>lk_spid_owner := new\<rparr> else lk)
     (map_of (ad_lockmap a) addr)"
proof (induction xs arbitrary: a)
  case Nil
  then show ?case by (cases "map_of (ad_lockmap a) addr") auto
next
  case (Cons x xs)
  show ?case unfolding foldl_Cons Cons sched_lock_owner[OF assms] option.map_comp
    by (cases "map_of (ad_lockmap a) addr") (use assms in auto)
qed

section \<open>The body of the scheduling loop\<close>

definition own_step :: "obj \<Rightarrow> 'w system \<Rightarrow> 'w system \<Rightarrow> bool" where
  "own_step p s s' \<longleftrightarrow> sy_head s' = sy_head s \<and> (\<forall>q. q \<noteq> p \<longrightarrow> md_at s' q = md_at s q) \<and>
     (\<forall>m. md_at s p = Some m \<longrightarrow>
        (\<exists>m'. md_at s' p = Some m' \<and> md_next m' = md_next m \<and> md_system m' = md_system m \<and> md_type m' = md_type m))"

lemma own_step_refl [simp]: "own_step p s s"
  by (simp add: own_step_def)

lemma own_step_module:
  assumes "own_step p s s'" "md_at s p = Some m"
  shows "\<exists>m'. md_at s' p = Some m' \<and> md_next m' = md_next m \<and> md_system m' = md_system m \<and> md_type m' = md_type m"
  using assms unfolding own_step_def by blast

lemma own_step_others: "own_step p s s' \<Longrightarrow> sy_head s' = sy_head s" "own_step p s s' \<Longrightarrow> q \<noteq> p \<Longrightarrow> md_at s' q = md_at s q"
  by (simp_all add: own_step_def)

lemma own_step_trans:
  assumes "own_step p s t" "own_step p t u"
  shows "own_step p s u"
  unfolding own_step_def
proof (intro conjI allI impI)
  show "sy_head u = sy_head s" using own_step_others(1) assms by metis
  show "md_at u q = md_at s q" if "q \<noteq> p" for q using own_step_others(2)[OF assms(1) that] own_step_others(2)[OF assms(2) that] by simp
  fix m assume "md_at s p = Some m"
  from own_step_module[OF assms(1) this] obtain n where n: "md_at t p = Some n" "md_next n = md_next m" "md_system n = md_system m" "md_type n = md_type m"
    by blast
  from own_step_module[OF assms(2) n(1)]
  show "\<exists>m'. md_at u p = Some m' \<and> md_next m' = md_next m \<and> md_system m' = md_system m \<and> md_type m' = md_type m"
    unfolding n(2-4) .
qed

lemma own_moduleI:
  assumes "\<And>p s s'. f p s = Some s' \<Longrightarrow> own_step p s s'" "\<And>p s. md_at s p = None \<Longrightarrow> f p s = None"
  shows "own_module f"
proof
  fix p q :: obj and s s' :: "'a system" and m
  assume f: "f p s = Some s'"
  show "sy_head s' = sy_head s" using own_step_others(1)[OF assms(1)[OF f]] .
  show "md_at s' q = md_at s q" if "q \<noteq> p" using own_step_others(2)[OF assms(1)[OF f] that] .
  show "\<exists>m'. md_at s' p = Some m' \<and> md_next m' = md_next m \<and> md_system m' = md_system m \<and> md_type m' = md_type m"
    if "md_at s p = Some m" using own_step_module[OF assms(1)[OF f] that] .
qed (rule assms(2))

lemma own_step_stat: "put_stat p out s = Some s' \<Longrightarrow> own_step p s s'"
  using put_stat_own[of p out s s'] by (auto simp: own_step_def)

lemma own_step_os: "with_os g p s = Some s' \<Longrightarrow> own_step p s s'"
  using with_os_result[of g p s s'] by (auto simp: own_step_def)

lemma own_step_fields [simp]: "own_step p s (s\<lparr>sy_sim := w\<rparr>)" "own_step p s (sim_call c s)"
  by (simp_all add: own_step_def sim_call_def)

lemma tracker_call_result:
  assumes "tracker_call A h p s = Some s'"
  shows "\<exists>m sc sc1 spid d st. md_at s p = Some m \<and> md_syncchar m = Some sc \<and>
    current_at (getCpuNum (om_minfo (md_om m)) (mc_cpu (sy_machine s))) (om_os (md_om m)) = (spid, d) \<and>
    sc_handler h (env_of A (sy_machine s) m spid) (sc\<lparr>sc_log := []\<rparr>) = Some sc1 \<and>
    md_at s' p = Some (m\<lparr>md_om := set_os d (md_om m), md_syncchar := Some (sc1\<lparr>sc_log := []\<rparr>), md_stat := st\<rparr>) \<and>
    (\<forall>q. q \<noteq> p \<longrightarrow> md_at s' q = md_at s q) \<and> sy_head s' = sy_head s \<and> sy_machine s' = sy_machine s"
proof -
  from assms obtain m sc where m: "md_at s p = Some m" "md_syncchar m = Some sc"
    by (auto simp: tracker_call_def split: bind_splits)
  obtain spid d where d: "current_at (getCpuNum (om_minfo (md_om m)) (mc_cpu (sy_machine s))) (om_os (md_om m)) = (spid, d)" by fastforce
  let ?s1 = "set_mod p (m\<lparr>md_om := set_os d (md_om m)\<rparr>) s"
  have c: "current_of (getCpuNum (om_minfo (md_om m)) (mc_cpu (sy_machine s))) p s = Some (spid, ?s1)"
    using m d by (simp add: current_of_def)
  from assms m c obtain sc1 where sc1: "sc_handler h (env_of A (sy_machine s) m spid) (sc\<lparr>sc_log := []\<rparr>) = Some sc1"
    "put_or_skip (sc_log sc1) p (set_mod p (m\<lparr>md_om := set_os d (md_om m), md_syncchar := Some (sc1\<lparr>sc_log := []\<rparr>)\<rparr>) ?s1) = Some s'"
    by (auto simp: tracker_call_def split: bind_splits)
  from put_or_skip_own[OF sc1(2), of "m\<lparr>md_om := set_os d (md_om m), md_syncchar := Some (sc1\<lparr>sc_log := []\<rparr>)\<rparr>"]
  show ?thesis using m d sc1(1) by auto
qed

lemma own_step_tracker: "tracker_call A h p s = Some s' \<Longrightarrow> own_step p s s'"
  using tracker_call_result[of A h p s s'] by (auto simp: own_step_def)

lemma own_step_via:
  assumes "\<And>s s'. f p s = Some s' \<Longrightarrow> own_step p s s'" "via_interface A i msg f p s = Some s'"
  shows "own_step p s s'"
proof -
  obtain err w where "SIM_clear_exception A (snd (SIM_get_interface A p i (sy_sim s))) = (err, w)" by fastforce
  then have "f p (s\<lparr>sy_sim := w\<rparr>) = Some s' \<or> put_stat p [Str msg, Endl] (s\<lparr>sy_sim := w\<rparr>) = Some s'"
    using assms(2) by (simp add: via_interface_def split: if_splits)
  then have "own_step p (s\<lparr>sy_sim := w\<rparr>) s'" using assms(1) own_step_stat by blast
  then show ?thesis by (rule own_step_trans[OF own_step_fields(1)])
qed

lemma via_machine:
  assumes "\<And>s s'. f p s = Some s' \<Longrightarrow> sy_machine s' = sy_machine s" "via_interface A i msg f p s = Some s'"
  shows "sy_machine s' = sy_machine s"
proof -
  obtain err w where "SIM_clear_exception A (snd (SIM_get_interface A p i (sy_sim s))) = (err, w)" by fastforce
  then have "f p (s\<lparr>sy_sim := w\<rparr>) = Some s' \<or> put_stat p [Str msg, Endl] (s\<lparr>sy_sim := w\<rparr>) = Some s'"
    using assms(2) by (simp add: via_interface_def split: if_splits)
  then have "sy_machine s' = sy_machine (s\<lparr>sy_sim := w\<rparr>)" using assms(1) put_stat_own by blast
  then show ?thesis by simp
qed

lemma sched_call_own:
  assumes "call_syncchar A (sc_call A other) Sc_sched p s = Some s'"
  shows "own_step p s s'" "sy_machine s' = sy_machine s"
proof -
  have c: "call_syncchar A (sc_call A other) Sc_sched = via_interface A ''common_syncchar_interface''
      ''XXX: Can't find common syncchar interface'' (tracker_call A Sc_sched)"
    by (simp add: call_syncchar_def sc_call_def)
  show "own_step p s s'" using own_step_via[OF own_step_tracker assms[unfolded c]] .
  have "sy_machine s' = sy_machine s" if "tracker_call A Sc_sched p s = Some s'" for s s' :: "'a system"
    using tracker_call_result[OF that] by blast
  then show "sy_machine s' = sy_machine s" using via_machine[OF _ assms[unfolded c]] by blast
qed

lemma own_step_sched:
  assumes "sched_module A (sc_call A other) p s = Some s'"
  shows "own_step p s s'"
proof -
  from assms obtain s1 s2 where 1: "s1 = s \<or> s1 = sim_call (Break ''OSA Magic Breakpoint Requested on schedule.'') s"
    and 2: "s2 = s1 \<or> call_syncchar A (sc_call A other) Sc_sched p s1 = Some s2" and 3: "with_os os_sched p s2 = Some s'"
    by (auto simp: sched_module_def split: bind_splits if_splits)
  have "own_step p s s1" using 1 by auto
  moreover have "own_step p s1 s2"
    using 2 sched_call_own(1) by auto
  ultimately show ?thesis using own_step_os[OF 3] own_step_trans by blast
qed

interpretation sched: own_module "on_machine self (sched_module A (sc_call A other))" for self A other
  by (rule own_on_machine[OF own_moduleI[OF own_step_sched]]) (simp_all add: sched_module_def)

text \<open>Reporting a context switch only reads the machine.\<close>

definition same_cpu :: "machine \<Rightarrow> machine \<Rightarrow> bool" where
  "same_cpu m m' \<longleftrightarrow> mc_cpu m' = mc_cpu m \<and> mc_mask m' = mc_mask m \<and> mc_regs m' = mc_regs m"

lemma same_cpu_trans: "same_cpu m m' \<Longrightarrow> same_cpu m' m'' \<Longrightarrow> same_cpu m m''"
  by (simp add: same_cpu_def)

lemma same_cpu_regs: "same_cpu m m' \<Longrightarrow> mc_cpu m' = mc_cpu m \<and> osa_read_register r m' = osa_read_register r m"
  by (simp add: same_cpu_def osa_read_register_def)

lemma copy_cmd_cpu: "same_cpu m (snd (copy_cmd k i ptr cmd m))"
proof (induction k i ptr cmd m rule: copy_cmd.induct)
  case (1 i ptr cmd m)
  show ?case by (simp add: same_cpu_def)
next
  case (2 k i ptr cmd m)
  obtain b m1 where b: "osa_read_sim_byte DATA_SEGMENT ptr m = (b, m1)" "quiet m m1" using read_char by blast
  have "same_cpu m m1" using quiet_fields[OF b(2)] by (simp add: same_cpu_def)
  then show ?case using 2[OF b(1)[symmetric] refl refl] b(1) same_cpu_trans by (auto simp: Let_def)
qed

lemma os_sched_cpu: "os_sched m om = Some (o1, mc) \<Longrightarrow> same_cpu m mc"
proof -
  have r: "same_cpu m (snd (read_cmd ptr n cmd m))" for ptr n cmd
    using copy_cmd_cpu by (simp add: read_cmd_def Let_def) (simp add: same_cpu_def)
  assume "os_sched m om = Some (o1, mc)"
  then have "mc = m \<or> (\<exists>ptr n cmd. mc = snd (read_cmd ptr n cmd m))"
    by (auto simp: os_sched_def Let_def split: prod.splits option.splits bind_splits) (metis snd_conv)+
  then show ?thesis using r by (auto simp: same_cpu_def)
qed

lemma sched_module_cpu:
  assumes "sched_module A (sc_call A other) p s = Some s'"
  shows "same_cpu (sy_machine s) (sy_machine s')"
proof -
  from assms obtain s1 s2 where 1: "s1 = s \<or> s1 = sim_call (Break ''OSA Magic Breakpoint Requested on schedule.'') s"
    and 2: "s2 = s1 \<or> call_syncchar A (sc_call A other) Sc_sched p s1 = Some s2" and 3: "with_os os_sched p s2 = Some s'"
    by (auto simp: sched_module_def split: bind_splits if_splits)
  have "sy_machine s2 = sy_machine s1"
    using 2 sched_call_own(2) by blast
  moreover have "sy_machine s1 = sy_machine s" using 1 by (auto simp: sim_call_def)
  moreover have "same_cpu (sy_machine s2) (sy_machine s')" using with_os_result[OF 3] os_sched_cpu by (fastforce simp: same_cpu_def)
  ultimately show ?thesis by simp
qed

lemma sched_run_cpu:
  "run_list (on_machine self (sched_module A (sc_call A other))) ps s = Some s' \<Longrightarrow> same_cpu (sy_machine s) (sy_machine s')"
proof (induction ps arbitrary: s)
  case (Cons p ps)
  then obtain s1 where s1: "on_machine self (sched_module A (sc_call A other)) p s = Some s1"
    "run_list (on_machine self (sched_module A (sc_call A other))) ps s1 = Some s'" by (auto split: bind_splits)
  have "same_cpu (sy_machine s) (sy_machine s1)"
    using s1(1) sched_module_cpu by (fastforce simp: on_machine_def same_cpu_def split: bind_splits if_splits)
  then show ?case using Cons.IH[OF s1(2)] same_cpu_trans by blast
qed (simp add: same_cpu_def)

section \<open>A context switch\<close>

text \<open>The switch on one module, with the tracker and the process table of the module.\<close>

lemma current_at_procs:
  "current_at n d = (x, d') \<Longrightarrow> procs d' = procs d \<and> os_pids d' = os_pids d"
  by (auto simp: current_at_def split: option.splits)

lemma omap_update_same: "map_of (omap_update k v m) k = Some v"
  by (induction m) auto

lemma os_sched_current:
  assumes "os_sched mc om = Some (o1, mc')" "map_of (procs (om_os om)) (reg_int ECX mc) = Some (Some a)"
    and "map_of (os_pids (om_os om)) a = Some proc"
  shows "map_of (current_process (om_os o1)) (getCpuNum (om_minfo om) (mc_cpu mc)) = Some (pi_spid proc) \<and>
    om_minfo o1 = om_minfo om"
  using assms by (auto simp: omap_update_same os_sched_def Let_def procs_at_def set_os_def put_pid_def split: prod.splits)

lemma sched_callback_owner:
  assumes "sc_handler Sc_sched e sc = Some sc1" "map_of (sc_as_map sc) 0 = Some k" "as_at sc k = Some a" "ev_spid e \<noteq> ev_reg e ECX"
  shows "\<exists>a'. as_at sc1 k = Some a' \<and> (\<forall>addr. map_of (ad_lockmap a') addr = map_option (\<lambda>lk.
      if lk_spid_owner lk = ev_spid e \<and> lk_name lk = RUNQUEUE_NAME then lk\<lparr>lk_spid_owner := ev_reg e ECX\<rparr> else lk)
      (map_of (ad_lockmap a) addr))"
proof -
  let ?a = "foldl (sched_lock (ev_spid e) (ev_reg e ECX)) a (ad_lockmap a)"
  have "as_at sc1 k = Some ?a" using assms(1-3) by (auto simp: sc_handler_def osa_sched_callback_def as_at_def set_as_def update_conv)
  moreover have "map_of (ad_lockmap ?a) addr = map_option (\<lambda>lk.
      if lk_spid_owner lk = ev_spid e \<and> lk_name lk = RUNQUEUE_NAME then lk\<lparr>lk_spid_owner := ev_reg e ECX\<rparr> else lk)
      (map_of (ad_lockmap a) addr)" for addr
    unfolding sched_fold_owner[OF assms(4)]
    by (cases "map_of (ad_lockmap a) addr") (auto dest: map_of_SomeD intro: rev_image_eqI)
  ultimately show ?thesis by blast
qed

definition cpu_of :: "machine \<Rightarrow> module \<Rightarrow> int" where
  "cpu_of mc m = getCpuNum (om_minfo (md_om m)) (mc_cpu mc)"

definition running :: "machine \<Rightarrow> module \<Rightarrow> spid_t" where
  "running mc m = fst (current_at (cpu_of mc m) (om_os (md_om m)))"

definition next_pid :: "machine \<Rightarrow> spid_t" where
  "next_pid mc = ucast (osa_read_register ECX mc)"

definition has_interface :: "'w platform \<Rightarrow> obj \<Rightarrow> string \<Rightarrow> bool" where
  "has_interface A p i \<longleftrightarrow> (\<forall>w. fst (SIM_clear_exception A (snd (SIM_get_interface A p i w))) = None)"

definition handed_over :: "spid_t \<Rightarrow> spid_t \<Rightarrow> as_data \<Rightarrow> as_data \<Rightarrow> bool" where
  "handed_over old new a a' \<longleftrightarrow> (\<forall>addr. map_of (ad_lockmap a') addr = map_option (\<lambda>lk.
      if lk_spid_owner lk = old \<and> lk_name lk = RUNQUEUE_NAME then lk\<lparr>lk_spid_owner := new\<rparr> else lk) (map_of (ad_lockmap a) addr))"

lemma tracker_sched:
  assumes "has_interface A p ''common_syncchar_interface''"
  shows "\<exists>w. call_syncchar A (sc_call A other) Sc_sched p s = tracker_call A Sc_sched p (s\<lparr>sy_sim := w\<rparr>)"
proof -
  let ?c = "SIM_clear_exception A (snd (SIM_get_interface A p ''common_syncchar_interface'' (sy_sim s)))"
  obtain w where c: "?c = (None, w)" using assms by (simp add: has_interface_def prod_eq_iff)
  show ?thesis by (intro exI[of _ w]) (simp add: call_syncchar_def sc_call_def via_interface_def c)
qed

lemma sched_module_switch:
  assumes "sched_module A (sc_call A other) q s = Some s'" "md_at s q = Some m" "md_type m = SYNCCHAR" "md_syncchar m = Some sc"
    and "has_interface A q ''common_syncchar_interface''"
    and "map_of (sc_as_map sc) 0 = Some k" "as_at sc k = Some a" "running (sy_machine s) m \<noteq> next_pid (sy_machine s)"
    and "map_of (procs (om_os (md_om m))) (reg_int ECX (sy_machine s)) = Some (Some pa)" "map_of (os_pids (om_os (md_om m))) pa = Some proc"
  shows "\<exists>m' sc' a'. md_at s' q = Some m' \<and> md_syncchar m' = Some sc' \<and> as_at sc' k = Some a' \<and>
    running (sy_machine s) m' = pi_spid proc \<and>
    handed_over (running (sy_machine s) m) (next_pid (sy_machine s)) a a'"
proof -
  obtain t where t: "call_syncchar A (sc_call A other) Sc_sched q s = Some t" "with_os os_sched q t = Some s'"
    using assms(1-3) by (auto simp: sched_module_def split: bind_splits)
  obtain w where w: "tracker_call A Sc_sched q (s\<lparr>sy_sim := w\<rparr>) = Some t"
    using t(1) tracker_sched[OF assms(5), of other s] by auto
  obtain sc1 spid d st where r: "current_at (cpu_of (sy_machine s) m) (om_os (md_om m)) = (spid, d)"
    "sc_handler Sc_sched (env_of A (sy_machine s) m spid) (sc\<lparr>sc_log := []\<rparr>) = Some sc1"
    "md_at t q = Some (m\<lparr>md_om := set_os d (md_om m), md_syncchar := Some (sc1\<lparr>sc_log := []\<rparr>), md_stat := st\<rparr>)"
    "sy_machine t = sy_machine s"
    using tracker_call_result[OF w] assms(2,4) by (auto simp: cpu_of_def)
  let ?e = "env_of A (sy_machine s) m spid"
  have e: "ev_spid ?e = running (sy_machine s) m" "ev_reg ?e ECX = next_pid (sy_machine s)"
    using r(1) by (simp_all add: env_of_def running_def next_pid_def)
  obtain a' where a': "as_at sc1 k = Some a'" "handed_over (running (sy_machine s) m) (next_pid (sy_machine s)) a a'"
    using sched_callback_owner[OF r(2), of k a, unfolded e] assms(6-8) by (auto simp: as_at_def handed_over_def)
  obtain o1 mc st' where o1: "os_sched (sy_machine s) (os_view (m\<lparr>md_om := set_os d (md_om m)\<rparr>)) = Some (o1, mc)"
    "md_at s' q = Some (m\<lparr>md_syncchar := Some (sc1\<lparr>sc_log := []\<rparr>), md_om := o1, md_stat := st'\<rparr>)"
    using with_os_result[OF t(2)] r(3,4) by (auto simp: os_view_def)
  have "map_of (current_process (om_os o1)) (cpu_of (sy_machine s) m) = Some (pi_spid proc) \<and> om_minfo o1 = om_minfo (md_om m)"
    using os_sched_current[OF o1(1)] current_at_procs[OF r(1)] assms(9,10) by (simp add: os_view_def set_os_def cpu_of_def)
  then show ?thesis using o1(2) a' by (auto simp: as_at_def running_def cpu_of_def current_at_def)
qed

text \<open>
  C7.  A context switch that the kernel reports by a magic instruction reaches every tracker of the machine before the
  process table of that module changes: the run queue locks of the process that was running pass to the process
  number of the instruction, all other locks keep their owner, and afterwards the process that the table knows under this
  number runs on the processor.  The locks follow the running process only where its number in the table is the one the
  instruction gave.
\<close>

theorem context_switch_hands_over:
  assumes "mod_chain s (sy_head s) ps" "distinct ps" "magic_sched A (sc_call A other) self s = Some s'"
    and "md_at s self = Some me" "md_at s q = Some m" "q \<in> set ps" "md_system me = md_system m"
    and "md_type m = SYNCCHAR" "md_syncchar m = Some sc" "has_interface A q ''common_syncchar_interface''"
    and "map_of (sc_as_map sc) 0 = Some k" "as_at sc k = Some a" "running (sy_machine s) m \<noteq> next_pid (sy_machine s)"
    and "map_of (procs (om_os (md_om m))) (reg_int ECX (sy_machine s)) = Some (Some pa)" "map_of (os_pids (om_os (md_om m))) pa = Some proc"
  shows "\<exists>m' sc' a'. md_at s' q = Some m' \<and> md_syncchar m' = Some sc' \<and> as_at sc' k = Some a' \<and>
    running (sy_machine s) m' = pi_spid proc \<and>
    (\<forall>addr. map_of (ad_lockmap a') addr = map_option (\<lambda>lk.
      if lk_spid_owner lk = running (sy_machine s) m \<and> lk_name lk = RUNQUEUE_NAME
      then lk\<lparr>lk_spid_owner := next_pid (sy_machine s)\<rparr> else lk) (map_of (ad_lockmap a) addr))"
proof -
  let ?f = "on_machine self (sched_module A (sc_call A other))"
  have run: "run_list ?f ps s = Some s'" using sched.loop[OF assms(1)] assms(3) by (simp add: magic_sched_def)
  obtain xs ys s1 s2 where x: "run_list ?f xs s = Some s1" "?f q s1 = Some s2" "md_at s1 q = md_at s q" "md_at s' q = md_at s2 q"
    using sched.run_own[OF run assms(2,6)] by blast
  have "map_option md_system (md_at s1 self) = Some (md_system me)" using sched.run_machines[OF x(1)] assms(4) by simp
  then have f: "sched_module A (sc_call A other) q s1 = Some s2"
    using x(2,3) assms(5,7) by (auto simp: on_machine_def same_machine_def sameMachine_def)
  have c: "same_cpu (sy_machine s) (sy_machine s1)" using sched_run_cpu[OF x(1)] .
  have v: "cpu_of (sy_machine s1) = cpu_of (sy_machine s)" "next_pid (sy_machine s1) = next_pid (sy_machine s)"
    "reg_int ECX (sy_machine s1) = reg_int ECX (sy_machine s)" "running (sy_machine s1) = running (sy_machine s)"
    using same_cpu_regs[OF c] by (simp_all add: cpu_of_def next_pid_def reg_int_def running_def fun_eq_iff)
  show ?thesis
    using sched_module_switch[OF f _ assms(8-12) _ _ assms(15)] x(3,4) assms(5,13,14) v by (simp add: handed_over_def)
qed

text \<open>
  The tracker \<open>t\<close> in front of the common module; the run queue lock belongs to process 7, which is running, and the
  kernel switches to process 3, which the table knows under the number 5.
\<close>

definition pl_demo :: "unit platform" where
  "pl_demo = \<lparr>SIM_get_object = (\<lambda>n w. (Some n, w)), SIM_get_attribute = (\<lambda>p a w. (Sim_Val_Integer 0, w)),
     SIM_set_attribute = (\<lambda>p a v w. (Sim_Set_Ok, w)), SIM_get_interface = (\<lambda>p n w. (Some p, w)),
     SIM_get_pending_exception = (\<lambda>w. None), SIM_clear_exception = (\<lambda>w. (None, w)), union_integer = (\<lambda>v. 0),
     ifc_operate = (\<lambda>p mt w. (0, w)), ifc_commitTx = (\<lambda>p x w. (1, w)), ifc_abortTx = (\<lambda>p x w. (1, w)),
     ifc_earlyRelease = (\<lambda>p a b x w. w), pl_rand = (\<lambda>w. (0, w)), pl_lrand48 = (\<lambda>w. (0, w)),
     SIM_breakpoint = (\<lambda>p a n w. (1, w)), SIM_last_error = (\<lambda>w. []), pl_buffer = [], pl_env = ev_demo\<rparr>"

definition os_switch :: os_data where
  "os_switch = (init_procs [7])\<lparr>procs := [(0, Some 0), (3, Some 1)], current_process := [(0, 7)],
     os_pids := [(0, pid_info_zero), (1, pid_info_zero\<lparr>pi_spid := 5\<rparr>)]\<rparr>"

definition md_tracked :: module where
  "md_tracked = (md_plain ''board0'' (Some ''c''))\<lparr>md_type := SYNCCHAR, md_om := om_demo\<lparr>om_os := os_switch\<rparr>,
     md_syncchar := Some (sc_demo\<lparr>sc_heap := [(0, as_runqueue)]\<rparr>)\<rparr>"

definition sy_switch :: "unit system" where
  "sy_switch = sy_demo\<lparr>sy_mods := [(''c'', md_common_demo\<lparr>md_om := om_demo\<lparr>om_os := os_switch\<rparr>\<rparr>), (''t'', md_tracked)]\<rparr>"

lemma sy_switch_at [simp]: "md_at sy_switch ''c'' = Some (md_common_demo\<lparr>md_om := om_demo\<lparr>om_os := os_switch\<rparr>\<rparr>)" "md_at sy_switch ''t'' = Some md_tracked"
  by (simp_all add: md_at_def sy_switch_def)

lemma sy_switch_chain: "mod_chain sy_switch (sy_head sy_switch) [''t'', ''c'']"
proof -
  have "sy_head sy_switch = Some ''t''" by (simp add: sy_demo_def sy_switch_def)
  then show ?thesis by (simp add: md_tracked_def md_plain_def md_common_demo_def new_common_module_def)
qed

lemma os_sched_switch:
  "om_os om = os_switch \<Longrightarrow> om_stat om = [] \<Longrightarrow> mc_regs m ECX = 3 \<Longrightarrow> mc_mask m = 0xFFFFFFFF \<Longrightarrow>
     \<exists>o1 mc. os_sched m om = Some (o1, mc) \<and> om_stat o1 = []"
  by (auto simp: os_sched_def procs_at_def Let_def reg_int_def osa_read_register_def os_switch_def set_os_def split: prod.splits)

lemma with_os_switch:
  assumes "md_at s p = Some m" "om_os (md_om m) = os_switch" "mc_regs (sy_machine s) ECX = 3" "mc_mask (sy_machine s) = 0xFFFFFFFF"
  shows "\<exists>s'. with_os os_sched p s = Some s'"
  using os_sched_switch[of "os_view m" "sy_machine s"] assms by (auto simp: with_os_def os_view_def put_or_skip_def)

lemma sched_handler_some:
  "map_of (sc_as_map sc) 0 = Some k \<Longrightarrow> as_at sc k = Some a \<Longrightarrow> \<exists>sc1. sc_handler Sc_sched e sc = Some sc1 \<and> sc_log sc1 = sc_log sc"
  by (simp add: sc_handler_def osa_sched_callback_def set_as_def)

lemma tracked_returns:
  "\<exists>s1 m. tracker_call pl_demo Sc_sched ''t'' (sy_switch\<lparr>sy_sim := w\<rparr>) = Some s1 \<and> md_at s1 ''t'' = Some m \<and>
     om_os (md_om m) = os_switch \<and> sy_machine s1 = sy_machine sy_switch \<and> md_at s1 ''c'' = md_at sy_switch ''c''"
proof -
  let ?sc = "sc_demo\<lparr>sc_heap := [(0, as_runqueue)], sc_log := []\<rparr>"
  have "map_of (sc_as_map ?sc) 0 = Some 0" "as_at ?sc 0 = Some as_runqueue" by (simp_all add: sc_demo_def as_at_def)
  note some = sched_handler_some[OF this]
  have m: "md_syncchar md_tracked = Some (sc_demo\<lparr>sc_heap := [(0, as_runqueue)]\<rparr>)" by (simp add: md_tracked_def)
  have d: "current_at (getCpuNum (om_minfo (md_om md_tracked)) (mc_cpu (sy_machine sy_switch))) (om_os (md_om md_tracked)) = (7, os_switch)"
    by (simp add: md_tracked_def om_demo_def getCpuNum_def sy_switch_def sy_demo_def current_at_def os_switch_def)
  obtain sc1 where "sc_handler Sc_sched (env_of pl_demo (sy_machine sy_switch) md_tracked 7) ?sc = Some sc1" "sc_log sc1 = []"
    using some[of "env_of pl_demo (sy_machine sy_switch) md_tracked 7"] by auto
  then show ?thesis by (simp add: tracker_call_def current_of_def m d put_or_skip_def set_os_def)
qed

lemma sy_switch_returns: "\<exists>s'. magic_sched pl_demo (sc_call pl_demo (\<lambda>_ _. Some)) ''c'' sy_switch = Some s'"
proof -
  let ?f = "on_machine ''c'' (sched_module pl_demo (sc_call pl_demo (\<lambda>_ _. Some)))"
  have i: "has_interface pl_demo ''t'' ''common_syncchar_interface''" by (simp add: has_interface_def pl_demo_def)
  obtain w where w: "call_syncchar pl_demo (sc_call pl_demo (\<lambda>_ _. Some)) Sc_sched ''t'' sy_switch =
      tracker_call pl_demo Sc_sched ''t'' (sy_switch\<lparr>sy_sim := w\<rparr>)" using tracker_sched[OF i] by blast
  obtain t m where t: "tracker_call pl_demo Sc_sched ''t'' (sy_switch\<lparr>sy_sim := w\<rparr>) = Some t" "md_at t ''t'' = Some m"
    "om_os (md_om m) = os_switch" "sy_machine t = sy_machine sy_switch" "md_at t ''c'' = md_at sy_switch ''c''"
    using tracked_returns[of w] by blast
  have mc: "mc_regs (sy_machine sy_switch) ECX = 3" "mc_mask (sy_machine sy_switch) = 0xFFFFFFFF"
    by (simp_all add: sy_switch_def sy_demo_def mc_demo_def)
  note defs = md_tracked_def md_plain_def md_common_demo_def new_common_module_def om_demo_def
  obtain u where u: "with_os os_sched ''t'' t = Some u" using with_os_switch[OF t(2,3)] mc t(4) by auto
  have f1: "?f ''t'' sy_switch = Some u"
    using w t(1) u by (simp add: on_machine_def same_machine_def sameMachine_def sched_module_def) (simp add: defs)
  have uc: "md_at u ''c'' = md_at sy_switch ''c''" "same_cpu (sy_machine sy_switch) (sy_machine u)"
    using with_os_result[OF u] t(4,5) os_sched_cpu by (auto simp: same_cpu_def)
  obtain c where c: "md_common md_common_demo = Some c" "\<not> cd_break_on_sched c"
    by (simp add: defs new_common_data_def)
  obtain v where v: "with_os os_sched ''c'' u = Some v" using with_os_switch[of u "''c''"] uc mc by (auto simp: same_cpu_def)
  have f2: "?f ''c'' u = Some v"
    using v uc(1) c by (simp add: on_machine_def same_machine_def sameMachine_def sched_module_def) (simp add: defs)
  show ?thesis using f1 f2 sched.loop[OF sy_switch_chain] by (simp add: magic_sched_def)
qed

theorem context_switch_hands_over_witness:
  "\<exists>s' m sc a lk. magic_sched pl_demo (sc_call pl_demo (\<lambda>_ _. Some)) ''c'' sy_switch = Some s' \<and> md_at s' ''t'' = Some m \<and>
     md_syncchar m = Some sc \<and> as_at sc 0 = Some a \<and> map_of (ad_lockmap a) 0xc0300000 = Some lk \<and> lk_spid_owner lk = 3 \<and>
     running (sy_machine sy_switch) m = 5"
proof -
  note defs = md_tracked_def md_plain_def md_common_demo_def new_common_module_def om_demo_def os_switch_def
  have mc: "sy_machine sy_switch = mc_demo\<lparr>mc_cpu := 7\<rparr>" by (simp add: sy_switch_def sy_demo_def)
  have v: "running (sy_machine sy_switch) md_tracked = 7" "next_pid (sy_machine sy_switch) = 3" "reg_int ECX (sy_machine sy_switch) = 3"
    by (simp_all add: mc mc_demo_def running_def cpu_of_def current_at_def next_pid_def reg_int_def osa_read_register_def getCpuNum_def defs)
  obtain s' where s': "magic_sched pl_demo (sc_call pl_demo (\<lambda>_ _. Some)) ''c'' sy_switch = Some s'" using sy_switch_returns by blast
  have d: "distinct [''t'', ''c'']" "''t'' \<in> set [''t'', ''c'']" by simp_all
  have t: "md_system (md_common_demo\<lparr>md_om := om_demo\<lparr>om_os := os_switch\<rparr>\<rparr>) = md_system md_tracked" "md_type md_tracked = SYNCCHAR"
    "md_syncchar md_tracked = Some (sc_demo\<lparr>sc_heap := [(0, as_runqueue)]\<rparr>)" by (simp_all add: defs)
  have i: "has_interface pl_demo ''t'' ''common_syncchar_interface''" by (simp add: has_interface_def pl_demo_def)
  have k: "map_of (sc_as_map (sc_demo\<lparr>sc_heap := [(0, as_runqueue)]\<rparr>)) 0 = Some 0" "as_at (sc_demo\<lparr>sc_heap := [(0, as_runqueue)]\<rparr>) 0 = Some as_runqueue"
    by (simp_all add: sc_demo_def as_at_def)
  have n: "running (sy_machine sy_switch) md_tracked \<noteq> next_pid (sy_machine sy_switch)" by (simp add: v)
  have p: "map_of (procs (om_os (md_om md_tracked))) (reg_int ECX (sy_machine sy_switch)) = Some (Some 1)"
    "map_of (os_pids (om_os (md_om md_tracked))) 1 = Some (pid_info_zero\<lparr>pi_spid := 5\<rparr>)"
    by (simp_all add: v defs)
  from context_switch_hands_over[OF sy_switch_chain d(1) s' sy_switch_at(1,2) d(2) t(1-3) i k n p] show ?thesis
    unfolding v using s' by (fastforce simp: as_runqueue_def)
qed

end
