(* ===== verification/Config.thy ===== *)
theory Config
  imports Common CacheTrace AllocHist
begin

text \<open>
  The report of the configuration and the remaining functions of \<^verbatim>\<open>common/osacommon.cc\<close>.  A width set on the stream pads the
  next item on the right (\<open>pad\<close>); the stream is left adjusted while the table is printed.
\<close>

section \<open>Fields of the table\<close>

definition pad :: "nat \<Rightarrow> string \<Rightarrow> string" where
  "pad n x = x @ replicate (n - length x) (CHR '' '')"

definition cell :: "nat \<Rightarrow> string \<Rightarrow> ostream" where
  "cell n x = [Str (pad n x), Str '' | '']"

definition DASHES :: string where
  "DASHES = replicate 119 (CHR ''-'') @ NL"

definition TABLE_HEADER :: string where
  "TABLE_HEADER = ''Cache    | lines  | line size | assoc | mode  | penalty_read | penalty_read_next | penalty_write | penalty_write_next |'' @ NL"

text \<open>An object that is used without a check: a null pointer is \<open>None\<close>.\<close>

definition linked :: "'w sim_api \<Rightarrow> obj \<Rightarrow> string \<Rightarrow> 'w \<Rightarrow> (obj \<times> 'w) option" where
  "linked A p a w = do { (q, w) \<leftarrow> osa_sim_get_generic_attribute A p a w; q \<leftarrow> q; Some (q, w) }"

definition store_buffer_row :: "'w sim_api \<Rightarrow> obj \<Rightarrow> 'w \<Rightarrow> ostream \<times> 'w" where
  "store_buffer_row A p w =
     (let (passthru, w) = osa_sim_get_integer_attribute A p ''passthru'' w;
          (buffer_tx, w) = osa_sim_get_integer_attribute A p ''buffer_tx_writes'' w;
          (nslots, w) = osa_sim_get_integer_attribute A p ''slots'' w;
          (unbounded, w) = osa_sim_get_integer_attribute A p ''unbounded_tx_mode'' w;
          (blocksize, w) = osa_sim_get_integer_attribute A p ''blocksize'' w;
          (read_latency, w) = osa_sim_get_integer_attribute A p ''read_latency'' w;
          (write_latency, w) = osa_sim_get_integer_attribute A p ''write_latency'' w
      in (cell 8 p @ cell 6 (if unbounded \<noteq> 0 then ''inf'' else fmt_d nslots) @ cell 9 (fmt_d blocksize) @ cell 5 ''full'' @
          cell 5 (if passthru \<noteq> 0 then ''OFF'' else if buffer_tx \<noteq> 0 then ''ROCK'' else ''LogTM'') @ cell 12 (fmt_d read_latency) @
          cell 17 ''--'' @ cell 13 (fmt_d write_latency) @ cell 18 ''--'' @ [Endl], w))"

text \<open>A penalty: its column is narrower by 7 when a range is set, and the range is printed only in the stress test.\<close>

definition penalty_cell :: "nat \<Rightarrow> int \<Rightarrow> int \<Rightarrow> int \<Rightarrow> ostream" where
  "penalty_cell n stress_test stress_range v =
     [Str (pad (if stress_range \<noteq> 0 then n - 7 else n) (fmt_d v))] @
     (if stress_test \<noteq> 0 \<and> stress_range \<noteq> 0 then [Str ''(+/-'', Str (fmt_d stress_range), Str '')''] else []) @ [Str '' | '']"

definition cache_row :: "'w sim_api \<Rightarrow> obj \<Rightarrow> 'w \<Rightarrow> ostream \<times> 'w" where
  "cache_row A p w =
     (let (lines, w) = osa_sim_get_integer_attribute A p ''config_line_number'' w;
          (line_size, w) = osa_sim_get_integer_attribute A p ''config_line_size'' w;
          (assoc, w) = osa_sim_get_integer_attribute A p ''config_assoc'' w;
          (need_tx, w) = osa_sim_get_integer_attribute A p ''need_tx'' w;
          (buffer_tx, w) = osa_sim_get_integer_attribute A p ''buffer_tx_writes'' w;
          (stress_test, w) = osa_sim_get_integer_attribute A p ''stress_test'' w;
          (stress_range, w) = osa_sim_get_integer_attribute A p ''stress_range'' w;
          (penalty_read, w) = osa_sim_get_integer_attribute A p ''penalty_read'' w;
          (penalty_read_next, w) = osa_sim_get_integer_attribute A p ''penalty_read_next'' w;
          (penalty_write, w) = osa_sim_get_integer_attribute A p ''penalty_write'' w;
          (penalty_write_next, w) = osa_sim_get_integer_attribute A p ''penalty_write_next'' w
      in (cell 8 p @ cell 6 (fmt_d lines) @ cell 9 (fmt_d line_size) @ cell 5 (fmt_d assoc) @
          cell 5 (if need_tx \<noteq> 0 then if buffer_tx \<noteq> 0 then ''tmesi'' else ''xmesi'' else ''mesi'') @
          penalty_cell 12 stress_test stress_range penalty_read @ penalty_cell 17 stress_test stress_range penalty_read_next @
          penalty_cell 13 stress_test stress_range penalty_write @ penalty_cell 18 stress_test stress_range penalty_write_next @
          [Endl], w))"

section \<open>The report\<close>

definition cpu_rows :: "'w sim_api \<Rightarrow> cachemod \<Rightarrow> nat \<Rightarrow> 'w \<Rightarrow> (ostream \<times> 'w) option" where
  "cpu_rows A c i w = do {
     entry \<leftarrow> elem (ppCaches c) (int i);
     psplitter \<leftarrow> entry;
     (pibranch, w) \<leftarrow> linked A psplitter ''ibranch'' w;
     (picache, w) \<leftarrow> linked A pibranch ''cache'' w;
     (pdbranch, w) \<leftarrow> linked A psplitter ''dbranch'' w;
     (pstorebuffer, w) \<leftarrow> linked A pdbranch ''cache'' w;
     (pdcache, w) \<leftarrow> linked A pstorebuffer ''timing_model'' w;
     (pl2cache, w) \<leftarrow> linked A pdcache ''timing_model'' w;
     let (sb, w) = store_buffer_row A pstorebuffer w;
     let (ic, w) = cache_row A picache w;
     let (dc, w) = cache_row A pdcache w;
     let (l2, w) = (if take 7 pl2cache = ''l2cache'' then cache_row A pl2cache w else ([], w));
     Some (sb @ ic @ dc @ l2, w)
   }"

fun all_rows :: "'w sim_api \<Rightarrow> cachemod \<Rightarrow> nat list \<Rightarrow> 'w \<Rightarrow> (ostream \<times> 'w) option" where
  "all_rows A c [] w = Some ([], w)"
| "all_rows A c (i # is) w = do {
     (out, w) \<leftarrow> cpu_rows A c i w;
     (rest, w) \<leftarrow> all_rows A c is w;
     Some (out @ rest, w)
   }"

text \<open>The attributes of the first data cache, printed in another order than they are read.\<close>

definition txcache_lines :: "'w sim_api \<Rightarrow> cachemod \<Rightarrow> 'w \<Rightarrow> (ostream \<times> 'w) option" where
  "txcache_lines A c w = do {
     entry \<leftarrow> elem (ppCaches c) 0;
     psplitter \<leftarrow> entry;
     (pdbranch, w) \<leftarrow> linked A psplitter ''dbranch'' w;
     (pstorebuffer, w) \<leftarrow> linked A pdbranch ''cache'' w;
     (pdcache, w) \<leftarrow> linked A pstorebuffer ''timing_model'' w;
     let (stress_test, w) = osa_sim_get_integer_attribute A pdcache ''stress_test'' w;
     let (logmax, w) = osa_sim_get_integer_attribute A pdcache ''logmax'' w;
     let (ringlog, w) = osa_sim_get_integer_attribute A pdcache ''ringlog'' w;
     let (failstop, w) = osa_sim_get_integer_attribute A pdcache ''failstop'' w;
     Some ([Str ''txcache::stress_test:'', Dec stress_test, Endl, Str ''txcache::ringlog:'', Dec ringlog, Endl,
            Str ''txcache::logmax:'', Dec logmax, Endl, Str ''txcache::failstop:'', Dec failstop, Endl], w)
   }"

definition staller_attrs :: "(string \<times> string) list" where
  "staller_attrs =
     [(''frontbus_bandwidth_limit_pbc'', ''frontbus_bandwidth_limit_bpc''),
      (''frontbus_busy_penalty_factor'', ''frontbus_busy_penalty_factor''),
      (''frontbus_check_interval'', ''frontbus_check_interval''), (''frontbus_stat_size'', ''frontbus_stat_size''),
      (''frontbus_stat_interval'', ''frontbus_stat_interval''), (''stall_time'', ''stall_time''),
      (''stress_test'', ''stress_test''), (''stress_range'', ''stress_range'')]"

fun attr_lines :: "'w sim_api \<Rightarrow> obj \<Rightarrow> (string \<times> string) list \<Rightarrow> 'w \<Rightarrow> ostream \<times> 'w" where
  "attr_lines A p [] w = ([], w)"
| "attr_lines A p ((label, a) # as) w =
     (let (i, w) = osa_sim_get_integer_attribute A p a w; (out, w) = attr_lines A p as w
      in ([Str (''Staller:'' @ label @ '': ''), Dec i, Endl] @ out, w))"

definition staller_lines :: "'w sim_api \<Rightarrow> 'w \<Rightarrow> ostream \<times> 'w" where
  "staller_lines A w =
     (case SIM_get_object A ''staller'' w of
        (None, w) \<Rightarrow> ([], w)
      | (Some p, w) \<Rightarrow>
          let (stress, w) = osa_sim_get_integer_attribute A p ''stress_test'' w; (out, w) = attr_lines A p staller_attrs w
          in ([Str DASHES] @
              (if stress \<noteq> 0 then [Str ''Staller WARNING: stress test mode is ON->stall times randomized!'', Endl] else []) @ out, w))"

definition cache_report :: "'w sim_api \<Rightarrow> cachemod \<Rightarrow> 'w \<Rightarrow> (ostream \<times> 'w) option" where
  "cache_report A c w =
     (if nCaches c > 0 then do {
        (tx, w) \<leftarrow> txcache_lines A c w;
        (rows, w) \<leftarrow> all_rows A c [0..<nat (nCaches c)] w;
        let (st, w) = staller_lines A w;
        Some ([Str (''Cache hierarchy connected'' @ NL)] @ tx @ [Str DASHES, Str TABLE_HEADER, Str DASHES] @ rows @ st @ [Str DASHES], w)
      } else Some ([Str (''Caches not connected'' @ NL)], w))"

definition switch_time :: "'w sim_api \<Rightarrow> 'w \<Rightarrow> (int \<times> 'w) option" where
  "switch_time A w = do {
     let (po, w) = SIM_get_object A ''sim'' w;
     p \<leftarrow> po;
     let (v, w) = SIM_get_attribute A p ''new-switch-time'' w;
     if v = Sim_Val_Invalid then do {
       let (po, w) = SIM_get_object A ''sim'' w;
       p \<leftarrow> po;
       Some (osa_sim_get_integer_attribute A p ''cpu-switch-time'' w)
     } else Some (to_int (u_integer A v), w)
   }"

text \<open>The division of an \<^verbatim>\<open>int\<close> rounds towards zero.\<close>

definition kilobytes :: "int \<Rightarrow> int" where
  "kilobytes n = sgn n * (\<bar>n\<bar> div 1024)"

definition disk_report :: "'w sim_api \<Rightarrow> string \<Rightarrow> ldouble \<Rightarrow> 'w \<Rightarrow> (ostream \<times> 'w) option" where
  "disk_report A prefix disk_delay w = do {
     ide_name \<leftarrow> (if length (prefix @ ''ide0'') < 256 then Some (prefix @ ''ide0'') else None);
     let (po, w) = SIM_get_object A ide_name w;
     ide0 \<leftarrow> po;
     let (model_dma_delay, w) = osa_sim_get_integer_attribute A ide0 ''model_dma_delay'' w;
     (boot, w) \<leftarrow> (if model_dma_delay \<noteq> 0
        then case SIM_get_attribute A ide0 ''interrupt_delay'' w of
               (Sim_Val_Floating d, w) \<Rightarrow> Some ([Str ''Disk delay enabled during boot at '', Flt d, Str '', ''], w)
             | _ \<Rightarrow> None
        else Some ([Str ''Disk delay not enabled during boot, ''], w));
     Some (boot @ (if disk_delay > 0 then [Str ''enabled after boot at '', Flt disk_delay, Endl]
                   else [Str ''not enabled after boot.'', Endl]), w)
   }"

text \<open>\<open>cpu\<close> is the current processor, \<open>prefix\<close> the prefix of the machine's objects.\<close>

definition get_configuration :: "'w sim_api \<Rightarrow> obj \<Rightarrow> string \<Rightarrow> obj \<Rightarrow> 'w system \<Rightarrow> (attr_value \<times> 'w system) option" where
  "get_configuration A cpu prefix self s = do {
     m \<leftarrow> md_at s self;
     let (mhz, w) = osa_sim_get_integer_attribute A cpu ''freq_mhz'' (sy_sim s);
     (switch, w) \<leftarrow> switch_time A w;
     sys \<leftarrow> md_system m;
     let (objs, w) = SIM_get_attribute A sys ''object_list'' w;
     ram \<leftarrow> getComponent objs ''ram'';
     ramo \<leftarrow> u_object ram;
     ramp \<leftarrow> ramo;
     let (mem_size, w) = osa_sim_get_integer_attribute A ramp ''mapped_size'' w;
     (caches, w) \<leftarrow> cache_report A (md_cache m) w;
     let w = (if SIM_get_pending_exception A w = Some SimExc_General then snd (SIM_clear_exception A w) else w);
     (disk, w) \<leftarrow> disk_report A prefix (md_disk_delay m) w;
     (perturb, w) \<leftarrow> (if nCaches (md_cache m) > 0 then do {
          (cache_perturb, cache_seed, w) \<leftarrow> get_cache_perturb A 0 (md_cache m) w;
          Some ([Str ''cache_perturb_ns: '', Dec cache_perturb, Endl, Str ''cache_seed: '', Dec cache_seed, Endl], w)
        } else Some ([], w));
     let warn = SIM_get_pending_exception A w \<noteq> None;
     s1 \<leftarrow> put_stat self
       ([Dec (getNumCpus (om_minfo (md_om m))), Str '' '', Dec mhz, Str ''MHz processors '', Endl,
         Str ''cpu switch time (boot) '', Dec switch, Endl,
         Str ''cpu switch time (after boot) '', Dec (md_cpu_switch_time m), Endl,
         Dec (kilobytes mem_size), Str '' KB RAM'', Endl] @ caches @ disk @ perturb) s;
     let s2 = s1\<lparr>sy_sim := clear_pending A w\<rparr>;
     Some (Sim_Val_String ''Ok'', if warn then con [Str (''Warning: high-falutin' cache attributes missing'' @ NL)] s2 else s2)
   }"

section \<open>Stack trace and allocation history\<close>

definition OSA_stack_trace_to_stringstream :: "env \<Rightarrow> ostream" where
  "OSA_stack_trace_to_stringstream e = [Str ''Stack trace:'', Endl] @ concat (map (\<lambda>a. [Str ''  '', Hex a, Endl]) (ev_stack e))"

definition set_alloc_hist :: "attr_value \<Rightarrow> set_error" where
  "set_alloc_hist v = Sim_Set_Ok"

definition get_alloc_hist :: "alloc_store \<Rightarrow> (attr_value \<times> alloc_store) option" where
  "get_alloc_hist st = map_option (Pair Sim_Val_Nil) (dump_alloc_hist st)"

section \<open>Alignment of the table\<close>

fun item_text :: "out_item \<Rightarrow> string" where
  "item_text (Str x) = x"
| "item_text _ = ''''"

definition text_width :: "ostream \<Rightarrow> nat" where
  "text_width out = length (concat (map item_text out))"

lemma text_width_simps [simp]:
  "text_width [] = 0" "text_width (Str x # out) = length x + text_width out" "text_width (Endl # out) = text_width out"
  "text_width (xs @ ys) = text_width xs + text_width ys"
  by (simp_all add: text_width_def)

lemma length_pad [simp]: "length (pad n x) = max n (length x)"
  by (simp add: pad_def)

lemma cell_width [simp]: "length x \<le> n \<Longrightarrow> text_width (cell n x) = n + 3"
  by (simp add: cell_def)

lemma penalty_width:
  assumes "length (fmt_d v) \<le> n - 7"
  shows "text_width (penalty_cell n st rg v) =
    (if rg = 0 then n else if st = 0 then n - 7 else n - 7 + 5 + length (fmt_d rg)) + 3"
  using assms by (simp add: penalty_cell_def)

text \<open>The values of an object's attributes do not depend on reading them.\<close>

definition reads :: "'w sim_api \<Rightarrow> obj \<Rightarrow> (string \<Rightarrow> int) \<Rightarrow> bool" where
  "reads A p val \<longleftrightarrow> (\<forall>a w. fst (osa_sim_get_integer_attribute A p a w) = val a)"

definition row_columns :: "(string \<times> nat) list" where
  "row_columns = [(''config_line_number'', 6), (''config_line_size'', 9), (''config_assoc'', 5), (''penalty_read'', 5),
     (''penalty_read_next'', 10), (''penalty_write'', 6), (''penalty_write_next'', 11)]"

text \<open>
  A row of the table is as wide as its header and a space, 120 characters, exactly when no range is set or the stress
  test is on with a range of two digits.  With a range and without the stress test its columns are too narrow.
\<close>

theorem cache_row_width:
  assumes "reads A p val" "length p \<le> 8" "\<forall>x \<in> set row_columns. length (fmt_d (val (fst x))) \<le> snd x"
  shows "text_width (fst (cache_row A p w)) =
    (if val ''stress_range'' = 0 then 120 else if val ''stress_test'' = 0 then 92 else 112 + 4 * length (fmt_d (val ''stress_range'')))"
proof -
  have r: "osa_sim_get_integer_attribute A p a w = (val a, snd (osa_sim_get_integer_attribute A p a w))" for a w
    using assms(1) by (simp add: reads_def prod_eq_iff)
  have c: "length (fmt_d (val ''config_line_number'')) \<le> 6" "length (fmt_d (val ''config_line_size'')) \<le> 9"
    "length (fmt_d (val ''config_assoc'')) \<le> 5" "length (fmt_d (val ''penalty_read'')) \<le> 12 - 7"
    "length (fmt_d (val ''penalty_read_next'')) \<le> 17 - 7" "length (fmt_d (val ''penalty_write'')) \<le> 13 - 7"
    "length (fmt_d (val ''penalty_write_next'')) \<le> 18 - 7" using assms(3) by (simp_all add: row_columns_def)
  show ?thesis unfolding cache_row_def Let_def
    by (subst r, simp only: prod.case)+ (simp add: assms(2) c penalty_width[OF c(4)] penalty_width[OF c(5)] penalty_width[OF c(6)] penalty_width[OF c(7)])
qed

end
