(* ===== verification/Spec2Isabelle.thy ===== *)
theory Spec2Isabelle
  imports WorkSet_Count SyncChar_Progress Tracer Pool Os_Checkpoint AllocHist Staller OsaCache Profile CacheTrace SyncChar_Dispatch Config
begin

text \<open>
  A verification development for SyncChar, the simulator module that characterises the synchronisation of an operating
  system kernel, and for the simulator modules it is built with (\<^verbatim>\<open>sws/modules\<close>).

  \<^bold>\<open>The program.\<close>  A guest kernel runs in the simulator.  Magic instructions of the kernel reach the common module, which
  calls all other modules; breakpoints on lock instructions, memory accesses and device accesses reach the lock tracker.
  The tracker follows the word of each lock, records who holds it and for how long, and collects the bytes that each
  critical section reads and writes, its working set, which it compares with other working sets and logs for an analysis
  script.  Both rely on a process table kept from the scheduling events of the kernel, on checked access to guest memory,
  and on the chain of timing models and caches.

  \<^bold>\<open>Conventions.\<close>  A C integer is a word of its width or an integer reduced with \<open>to_int\<close>; \<^verbatim>\<open>double\<close> and \<^verbatim>\<open>long double\<close> are reals.
  A \<^verbatim>\<open>std::map\<close> is a list sorted by key (\<open>omap_update\<close>), a hash map an association list (\<open>AList.update\<close>); objects reached
  through shared pointers live in a heap.  An output stream is a list of items.  The result \<open>None\<close> of an operation is the
  use of an invalid pointer or iterator, of a field never set, of a buffer beyond its end, or a loop that does not end.
  The simulator is a parameter: \<open>machine\<close> (registers, translation, memory, pending exception), \<open>env\<close> (what a callback of
  the tracker reads), \<open>sim_api\<close> and \<open>platform\<close> (objects, attributes, interfaces, random numbers).

  \<^bold>\<open>Theories.\<close>

  \<^item> \<open>Prelude\<close>, \<open>Simulator\<close>, \<open>SimApi\<close>: machine types, containers (locale \<open>key_map\<close>), step relations (locale
    \<open>transition_system\<close>), counting of bits; attribute values, output items; the configuration interface of
    \<^verbatim>\<open>common/simics.h\<close>.
  \<^item> \<open>WorkSet\<close>, \<open>WorkSet_Count\<close> (\<^verbatim>\<open>sync_char/WorkSet.cc\<close>, reader of \<^verbatim>\<open>scripts/sync_char_post.py\<close>): working sets as ranges
    of chunks with two bits per byte.  \<open>grow\<close> returns and adds exactly the accessed bytes; sizes and \<open>compare\<close> count bytes
    and conflicts; what is logged reads back.
  \<^item> \<open>LockState\<close>, \<open>LockWords\<close> (\<^verbatim>\<open>sync_char/sync_char.cc\<close>): functions on one lock.  The classification of lock words refines
    an abstract lock for each kind of lock (locale \<open>lock_word\<close>); averages are exact.
  \<^item> \<open>SyncChar\<close>, \<open>SyncChar_Events\<close>, \<open>SyncChar_Stats\<close> (\<^verbatim>\<open>sync_char/sync_char.cc\<close>): the tracker and all its callbacks.
    \<open>SyncChar_Inv\<close>, \<open>SyncChar_Access\<close>, \<open>SyncChar_System\<close>: the invariant and that every callback keeps it (locales
    \<open>access_recorder\<close>, \<open>transition_system\<close>).  \<open>SyncChar_Section\<close>, \<open>SyncChar_Locking\<close>, \<open>SyncChar_Runs\<close>, \<open>SyncChar_Progress\<close>: a
    critical section is logged with exactly its bytes, hold times, reference counts, freedom from dangling pointers in
    every reachable state, contention, hand-over of run queue locks, completion of posted transitions.
  \<^item> \<open>Tracer\<close>, \<open>Pool\<close> (\<^verbatim>\<open>common/tracer.cc\<close>, \<^verbatim>\<open>common/osaassert.cc\<close>, \<^verbatim>\<open>include/pool.h\<close>): the two rings keep the last messages
    (locale \<open>bounded_log\<close>); a pool never hands out an object that is held.
  \<^item> \<open>MemAccess\<close> (\<^verbatim>\<open>common/memaccess.cc\<close>): every access to guest memory checks its translation and leaves no exception
    pending; strings are read and written within their limits.
  \<^item> \<open>Os\<close>, \<open>Os_Inv\<close>, \<open>Os_Checkpoint\<close> (\<^verbatim>\<open>common/os.cc\<close>, \<^verbatim>\<open>common/MachineInfo.cc\<close>): the process table, its invariant in every
    reachable state, and the round trip through a checkpoint.
  \<^item> \<open>Splay\<close>, \<open>Splay_Turn\<close>, \<open>Splay_Update\<close>, \<open>AllocHist\<close> (\<^verbatim>\<open>common/allochist.cc\<close>): the splay tree on a store of nodes refines a
    sorted map (locale \<open>frame_update\<close>), and the report lists exactly the live blocks.
  \<^item> \<open>Staller\<close> (\<^verbatim>\<open>trans-staller-plus\<close>): stall times stay within their bounds, bandwidth and epoch statistics are exact.
  \<^item> \<open>OsaCache\<close> (\<^verbatim>\<open>common/osacache.cc\<close>): cache statistics and hierarchy.  Resetting zeroes exactly the table, the cache list
    is well typed in every reachable module, and the search for the staller returns exactly on a chain that ends.
  \<^item> \<open>Profile\<close>, \<open>CacheTrace\<close> (\<^verbatim>\<open>common/profile.cc\<close>, \<^verbatim>\<open>common/osacachetrace.cc\<close>, \<^verbatim>\<open>txcache/types.h\<close>): samples counted per tick;
    the line printed for a cache event.
  \<^item> \<open>Common\<close>, \<open>Magic\<close> (\<^verbatim>\<open>common/common.cc\<close>, \<^verbatim>\<open>common/common_simics.cc\<close>, \<^verbatim>\<open>common/osacommon.cc\<close>, \<^verbatim>\<open>common/osamagic.h\<close>): the system of
    modules, the attributes, and the callback of a magic instruction with every case.
  \<^item> \<open>Config\<close> (\<^verbatim>\<open>common/osacommon.cc\<close>): the report of the configuration and when its table is aligned.
  \<^item> \<open>Dispatch\<close>, \<open>SyncChar_Dispatch\<close>: what the dispatcher guarantees.  A loop over the modules runs its body once for each
    (locale \<open>own_module\<close> for bodies that change their own module only, interpreted on the handlers of the process table and
    on the scheduling loop); watchpoints and random shutdown; a context switch through dispatcher, tracker and process
    table.

  \<^bold>\<open>Bounds and fuel.\<close>  No function takes fuel.  Loops of the source are structural recursion or \<open>function\<close> with a
  termination proof; those that need not end are \<open>partial_function (option)\<close>: \<open>grow_loop\<close>, which returns for every access that
  ends at least 32 bytes below the end of the address space; the search, splay and print loops of the tree, which return on every well-formed
  tree; the search for the staller and the loops over the modules, which return exactly when the chain they follow ends.
  The buffer sizes are those of the source.

  \<^bold>\<open>Not modelled.\<close>  The registration of classes, attributes and callbacks with the simulator (\<^verbatim>\<open>init_local\<close>), which only calls
  it.  The module behind the osatxm interface, which is not in the repository and is a parameter of the dispatcher.
  \<^verbatim>\<open>trans-staller-plus/dram.cc\<close>, which is not built and whose loops use invalid iterators.  \<^verbatim>\<open>common/osamagic-linux.h\<close>, inline
  assembly of the guest; \<^verbatim>\<open>common/writehist.h\<close>, a record nothing uses; \<^verbatim>\<open>include/member.h\<close>, macros for getters and setters,
  whose uses are record fields.  Scripts, configuration files, the STAMP benchmarks and the Linux kernel, which are inputs
  of the simulation.  Rounding of floating point numbers and the number of digits printed for them.
\<close>

end
